(* ===== verification/Prelude.thy ===== *)
theory Prelude
  imports Main
begin

text \<open>
  Shared vocabulary of the development.

  \<^item> Identifiers, instants and durations: \<open>uuid\<close> is a natural number, \<open>datetime\<close>
    and \<open>timedelta\<close> are integers (microseconds), so that comparison and addition are the
    ones the code uses. Fresh identifiers (\<open>uuid4()\<close>), the application clock and the
    database clock (\<open>now()\<close>) are arguments of the operations that read them.
  \<^item> Errors as values: a fallible computation is \<open>'e + 'a\<close>, \<open>Inl\<close> being the raised
    exception. \<open>and_then\<close> sequences two such computations.
  \<^item> Tables: a table is the list of its rows. The statements of the repositories
    (SELECT, UPDATE, INSERT, DELETE with a WHERE clause) are \<open>filter\<close>, conditional
    \<open>map\<close>, append. A WHERE clause that compares a NULL column is not satisfied
    (\<open>null_le\<close>, \<open>null_gt\<close>). A write checks the constraints that the model class
    declares and raises \<open>IntegrityError\<close> with the name of the first violated one.
  \<^item> Transactions: a service operation maps the database to \<open>Inl\<close> of an exception (then
    the unit of work rolls back) or to \<open>Inr\<close> of its result and the database it leaves
    behind (unchanged when it returns without commit).
\<close>

section \<open>Automation shared by the theories\<close>

named_theorems row_defs "definitions of WHERE and SET clauses on one row"

section \<open>Identifiers, time\<close>

type_synonym uuid = nat
type_synonym datetime = int
type_synonym timedelta = int

section \<open>Errors as values\<close>

definition and_then :: "'e + 'a \<Rightarrow> ('a \<Rightarrow> 'e + 'b) \<Rightarrow> 'e + 'b" where
  "and_then m k = (case m of Inl e \<Rightarrow> Inl e | Inr x \<Rightarrow> k x)"

definition raise_if :: "bool \<Rightarrow> 'e \<Rightarrow> 'e + unit" where
  "raise_if b e = (if b then Inl e else Inr ())"

definition map_error :: "('d \<Rightarrow> 'e) \<Rightarrow> 'd + 'a \<Rightarrow> 'e + 'a" where
  "map_error g m = (case m of Inl e \<Rightarrow> Inl (g e) | Inr x \<Rightarrow> Inr x)"

text \<open>A loop over a list whose body may raise.\<close>

primrec foldM :: "('a \<Rightarrow> 's \<Rightarrow> 'e + 's) \<Rightarrow> 'a list \<Rightarrow> 's \<Rightarrow> 'e + 's" where
  "foldM f [] s = Inr s"
| "foldM f (x # xs) s = and_then (f x s) (foldM f xs)"

text \<open>
  The database a caller finds after a transaction: a raised exception rolls back.
\<close>

definition db_after :: "'db \<Rightarrow> 'e + 'a \<times> 'db \<Rightarrow> 'db" where
  "db_after db r = (case r of Inl _ \<Rightarrow> db | Inr (_, db') \<Rightarrow> db')"

lemma and_then_simps [simp]:
  "and_then (Inl e) k = Inl e"
  "and_then (Inr x) k = k x"
  by (simp_all add: and_then_def)

lemma map_error_simps [simp]:
  "map_error g (Inl e) = Inl (g e)"
  "map_error g (Inr x) = Inr x"
  by (simp_all add: map_error_def)

lemma db_after_simps [simp]:
  "db_after db (Inl e) = db"
  "db_after db (Inr (x, db')) = db'"
  by (simp_all add: db_after_def)

lemma db_after_cases:
  obtains (Raised) "db_after d m = d" | (Done) x d' where "m = Inr (x, d')" and "db_after d m = d'"
  by (cases m) auto

lemma raise_if_simps [simp]:
  "raise_if True e = Inl e"
  "raise_if False e = Inr ()"
  by (simp_all add: raise_if_def)

lemma and_then_Inr_iff:
  "and_then m k = Inr y \<longleftrightarrow> (\<exists>x. m = Inr x \<and> k x = Inr y)"
  by (cases m) auto

lemma and_then_Inl_iff:
  "and_then m k = Inl e \<longleftrightarrow> m = Inl e \<or> (\<exists>x. m = Inr x \<and> k x = Inl e)"
  by (cases m) auto

lemma raise_if_Inr_iff: "raise_if b e = Inr u \<longleftrightarrow> \<not> b"
  by (simp add: raise_if_def)

lemma raise_if_Inl_iff: "raise_if b e = Inl e' \<longleftrightarrow> b \<and> e' = e"
  by (auto simp: raise_if_def)

lemma map_error_Inr_iff: "map_error g m = Inr x \<longleftrightarrow> m = Inr x"
  by (cases m) auto

lemma map_error_Inl_iff: "map_error g m = Inl e \<longleftrightarrow> (\<exists>d. m = Inl d \<and> e = g d)"
  by (cases m) auto

lemmas result_iffs =
  and_then_Inr_iff and_then_Inl_iff raise_if_Inr_iff raise_if_Inl_iff
  map_error_Inr_iff map_error_Inl_iff

lemma foldM_invariant:
  assumes "foldM f xs s = Inr s'" and "I s"
    and "\<And>x s s'. x \<in> set xs \<Longrightarrow> I s \<Longrightarrow> f x s = Inr s' \<Longrightarrow> I s'"
  shows "I s'"
  using assms by (induction xs arbitrary: s) (auto simp: and_then_Inr_iff)

lemma foldM_total:
  assumes "I s" and "\<And>x s. x \<in> set xs \<Longrightarrow> I s \<Longrightarrow> \<exists>s'. f x s = Inr s' \<and> I s'"
  shows "\<exists>s'. foldM f xs s = Inr s' \<and> I s'"
  using assms
proof (induction xs arbitrary: s)
  case (Cons x xs)
  then obtain s1 where "f x s = Inr s1" and "I s1" by (meson list.set_intros(1))
  with Cons.IH [of s1] Cons.prems(2) show ?case by auto
qed simp

section \<open>Nullable comparisons\<close>

definition null_le :: "datetime option \<Rightarrow> datetime \<Rightarrow> bool" where
  "null_le c t = (case c of None \<Rightarrow> False | Some u \<Rightarrow> u \<le> t)"

definition null_gt :: "datetime option \<Rightarrow> datetime \<Rightarrow> bool" where
  "null_gt c t = (case c of None \<Rightarrow> False | Some u \<Rightarrow> t < u)"

definition coalesce :: "'a option \<Rightarrow> 'a \<Rightarrow> 'a" where
  "coalesce c d = (case c of None \<Rightarrow> d | Some x \<Rightarrow> x)"

lemma null_simps [simp]:
  "null_le None t = False" "null_le (Some u) t = (u \<le> t)"
  "null_gt None t = False" "null_gt (Some u) t = (t < u)"
  "coalesce None d = d" "coalesce (Some x) d = x"
  by (simp_all add: null_le_def null_gt_def coalesce_def)

lemma null_le_gt: "null_le c t \<Longrightarrow> \<not> null_gt c t"
  by (cases c) auto

section \<open>Tables and statements\<close>

datatype db_error = IntegrityError string | MultipleResultsFound

definition sql_select :: "('r \<Rightarrow> bool) \<Rightarrow> 'r list \<Rightarrow> 'r list" where
  "sql_select p t = filter p t"

definition sql_update :: "('r \<Rightarrow> bool) \<Rightarrow> ('r \<Rightarrow> 'r) \<Rightarrow> 'r list \<Rightarrow> 'r list" where
  "sql_update p f t = map (\<lambda>r. if p r then f r else r) t"

definition sql_delete :: "('r \<Rightarrow> bool) \<Rightarrow> 'r list \<Rightarrow> 'r list" where
  "sql_delete p t = filter (\<lambda>r. \<not> p r) t"

definition sql_exists :: "('r \<Rightarrow> bool) \<Rightarrow> 'r list \<Rightarrow> bool" where
  "sql_exists p t = list_ex p t"

definition rowcount :: "('r \<Rightarrow> bool) \<Rightarrow> 'r list \<Rightarrow> nat" where
  "rowcount p t = length (filter p t)"

text \<open>\<open>Result.one_or_none()\<close>: more than one row raises \<open>MultipleResultsFound\<close>.\<close>

fun one_or_none :: "'r list \<Rightarrow> db_error + 'r option" where
  "one_or_none [] = Inr None"
| "one_or_none [r] = Inr (Some r)"
| "one_or_none (_ # _ # _) = Inl MultipleResultsFound"

text \<open>
  Constraints of a table: a name and what the whole table must satisfy. A CHECK constraint
  is one that every row satisfies; a unique index is a key that the rows it covers do not
  share.
\<close>

type_synonym 'r constraint = "string \<times> ('r list \<Rightarrow> bool)"

definition check :: "string \<Rightarrow> ('r \<Rightarrow> bool) \<Rightarrow> 'r constraint" where
  "check n p = (n, \<lambda>t. list_all p t)"

definition unique_index :: "string \<Rightarrow> ('r \<Rightarrow> bool) \<Rightarrow> ('r \<Rightarrow> 'k) \<Rightarrow> 'r constraint" where
  "unique_index n p key = (n, \<lambda>t. distinct (map key (filter p t)))"

definition violated :: "'r constraint list \<Rightarrow> 'r list \<Rightarrow> string option" where
  "violated cs t = map_option fst (find (\<lambda>c. \<not> snd c t) cs)"

definition satisfies :: "'r constraint list \<Rightarrow> 'r list \<Rightarrow> bool" where
  "satisfies cs t = list_all (\<lambda>c. snd c t) cs"

definition sql_write :: "'r constraint list \<Rightarrow> 'r list \<Rightarrow> db_error + 'r list" where
  "sql_write cs t' = (case violated cs t' of None \<Rightarrow> Inr t' | Some n \<Rightarrow> Inl (IntegrityError n))"

text \<open>
  An UPDATE statement: the number of rows it matched and the table it leaves; with
  RETURNING, the matched rows as they are after the update.
\<close>

definition update_stmt ::
  "'r constraint list \<Rightarrow> ('r \<Rightarrow> bool) \<Rightarrow> ('r \<Rightarrow> 'r) \<Rightarrow> 'r list \<Rightarrow> db_error + nat \<times> 'r list"
where
  "update_stmt cs p f t =
    and_then (sql_write cs (sql_update p f t)) (\<lambda>t'. Inr (rowcount p t, t'))"

definition update_returning ::
  "'r constraint list \<Rightarrow> ('r \<Rightarrow> bool) \<Rightarrow> ('r \<Rightarrow> 'r) \<Rightarrow> 'r list \<Rightarrow>
    db_error + 'r list \<times> 'r list"
where
  "update_returning cs p f t =
    and_then (sql_write cs (sql_update p f t)) (\<lambda>t'. Inr (map f (filter p t), t'))"

definition insert_stmt :: "'r constraint list \<Rightarrow> 'r list \<Rightarrow> 'r list \<Rightarrow> db_error + 'r list" where
  "insert_stmt cs rows t = sql_write cs (t @ rows)"

lemma violated_None: "violated cs t = None \<longleftrightarrow> satisfies cs t"
  unfolding violated_def satisfies_def option.map_disc_iff find_None_iff list_all_iff by blast

lemma sql_write_Inr: "sql_write cs t = Inr t' \<longleftrightarrow> t' = t \<and> satisfies cs t"
  by (auto simp: sql_write_def violated_None [symmetric] split: option.splits)

lemma sql_write_ok: "satisfies cs t \<Longrightarrow> sql_write cs t = Inr t"
  by (simp add: sql_write_Inr)

lemma sql_write_Inl:
  "sql_write cs t = Inl e \<Longrightarrow> \<not> satisfies cs t \<and> (\<exists>n. e = IntegrityError n)"
  by (auto simp: sql_write_def violated_None [symmetric] split: option.splits)

lemma satisfies_simps [simp]:
  "satisfies [] t"
  "satisfies (c # cs) t \<longleftrightarrow> snd c t \<and> satisfies cs t"
  "snd (check n p) t \<longleftrightarrow> list_all p t"
  "snd (unique_index n p key) t \<longleftrightarrow> distinct (map key (filter p t))"
  by (simp_all add: satisfies_def check_def unique_index_def)

lemma satisfies_append: "satisfies (cs @ ds) t \<longleftrightarrow> satisfies cs t \<and> satisfies ds t"
  by (simp add: satisfies_def)

lemma update_stmt_Inr:
  "update_stmt cs p f t = Inr (n, t') \<longleftrightarrow>
    n = rowcount p t \<and> t' = sql_update p f t \<and> satisfies cs t'"
  by (auto simp: update_stmt_def and_then_Inr_iff sql_write_Inr)

lemma update_returning_Inr:
  "update_returning cs p f t = Inr (rs, t') \<longleftrightarrow>
    rs = map f (filter p t) \<and> t' = sql_update p f t \<and> satisfies cs t'"
  by (auto simp: update_returning_def and_then_Inr_iff sql_write_Inr)

lemma insert_stmt_Inr:
  "insert_stmt cs rows t = Inr t' \<longleftrightarrow> t' = t @ rows \<and> satisfies cs t'"
  by (auto simp: insert_stmt_def sql_write_Inr)

lemmas stmt_iffs = update_stmt_Inr update_returning_Inr insert_stmt_Inr sql_write_Inr

section \<open>Generic facts about tables\<close>

lemma list_all_True [simp]: "list_all (\<lambda>_. True) xs"
  by (simp add: list_all_iff)

lemma set_sql_select [simp]: "set (sql_select p t) = {r \<in> set t. p r}"
  by (simp add: sql_select_def)

lemma sql_exists_iff: "sql_exists p t \<longleftrightarrow> (\<exists>r \<in> set t. p r)"
  by (simp add: sql_exists_def list_ex_iff)

lemma rowcount_0_iff: "rowcount p t = 0 \<longleftrightarrow> (\<forall>r \<in> set t. \<not> p r)"
  by (simp add: rowcount_def filter_empty_conv)

lemma length_sql_update [simp]: "length (sql_update p f t) = length t"
  by (simp add: sql_update_def)

lemma set_sql_update: "set (sql_update p f t) = (\<lambda>r. if p r then f r else r) ` set t"
  by (simp add: sql_update_def)

lemma sql_update_none: "rowcount p t = 0 \<Longrightarrow> sql_update p f t = t"
  by (auto simp: rowcount_0_iff sql_update_def intro: map_idI)

lemma map_sql_update:
  "(\<And>r. p r \<Longrightarrow> key (f r) = key r) \<Longrightarrow> map key (sql_update p f t) = map key t"
  by (auto simp: sql_update_def)

lemma map_filter_sql_update:
  "(\<And>r. p r \<Longrightarrow> key (f r) = key r \<and> q (f r) = q r) \<Longrightarrow>
    map key (filter q (sql_update p f t)) = map key (filter q t)"
  by (induction t) (auto simp: sql_update_def)

lemma filter_sql_update_none: "(\<And>r. p r \<Longrightarrow> \<not> p (f r)) \<Longrightarrow> filter p (sql_update p f t) = []"
  by (auto simp: sql_update_def filter_empty_conv)

lemma list_all_sql_update:
  assumes "list_all q t" and "\<And>r. r \<in> set t \<Longrightarrow> p r \<Longrightarrow> q r \<Longrightarrow> q (f r)"
  shows "list_all q (sql_update p f t)"
  using assms by (auto simp: list_all_iff sql_update_def)

text \<open>
  Lookup by primary key. Under unique keys every statement that selects by key sees at
  most one row, so \<open>one_or_none\<close> does not raise.
\<close>

definition lookup :: "('r \<Rightarrow> 'k) \<Rightarrow> 'k \<Rightarrow> 'r list \<Rightarrow> 'r option" where
  "lookup key k t = find (\<lambda>r. key r = k) t"

lemma lookup_simps [simp]:
  "lookup key k [] = None"
  "lookup key k (r # t) = (if key r = k then Some r else lookup key k t)"
  by (simp_all add: lookup_def)

lemma lookup_SomeD: "lookup key k t = Some r \<Longrightarrow> r \<in> set t \<and> key r = k"
  by (auto simp: lookup_def find_Some_iff)

lemma lookup_None_iff: "lookup key k t = None \<longleftrightarrow> k \<notin> key ` set t"
  by (auto simp: lookup_def find_None_iff)

lemma lookup_append:
  "lookup key k (t @ u) = (case lookup key k t of None \<Rightarrow> lookup key k u | Some r \<Rightarrow> Some r)"
  by (induction t) auto

lemma lookup_in_set: "distinct (map key t) \<Longrightarrow> r \<in> set t \<Longrightarrow> lookup key (key r) t = Some r"
  by (induction t) auto

lemma lookup_unique: "distinct (map key t) \<Longrightarrow> r \<in> set t \<Longrightarrow> key r = k \<Longrightarrow> lookup key k t = Some r"
  by (auto dest: lookup_in_set)

lemma lookup_sql_update:
  assumes "\<And>r. p r \<Longrightarrow> key (f r) = key r"
  shows "lookup key k (sql_update p f t) =
    map_option (\<lambda>r. if p r then f r else r) (lookup key k t)"
  using assms by (induction t) (auto simp: sql_update_def)

lemma filter_key:
  assumes "distinct (map key t)"
  shows "filter (\<lambda>r. key r = k \<and> q r) t =
    (case lookup key k t of None \<Rightarrow> [] | Some r \<Rightarrow> if q r then [r] else [])"
  using assms
proof (induction t)
  case (Cons a t)
  show ?case
  proof (cases "key a = k")
    case True
    with Cons.prems have "lookup key k t = None"
      by (auto simp: lookup_None_iff)
    with True Cons show ?thesis by auto
  qed (use Cons in auto)
qed simp

lemma rowcount_key:
  assumes "distinct (map key t)"
  shows "rowcount (\<lambda>r. key r = k \<and> q r) t =
    (case lookup key k t of None \<Rightarrow> 0 | Some r \<Rightarrow> if q r then 1 else 0)"
  by (simp add: rowcount_def filter_key [OF assms] split: option.split)

lemma one_or_none_key:
  assumes "distinct (map key t)"
  shows "one_or_none (sql_select (\<lambda>r. key r = k \<and> q r) t) =
    Inr (case lookup key k t of None \<Rightarrow> None | Some r \<Rightarrow> if q r then Some r else None)"
  by (simp add: sql_select_def filter_key [OF assms] split: option.split)

lemma one_or_none_pk:
  assumes "distinct (map key t)"
  shows "one_or_none (sql_select (\<lambda>r. key r = k) t) = Inr (lookup key k t)"
  using one_or_none_key [OF assms, of k "\<lambda>_. True"] by (simp split: option.splits)

lemma one_or_none_Some: "one_or_none xs = Inr (Some r) \<Longrightarrow> xs = [r]"
  by (cases xs rule: one_or_none.cases) auto

lemma one_or_none_None: "one_or_none xs = Inr None \<Longrightarrow> xs = []"
  by (cases xs rule: one_or_none.cases) auto

lemma one_or_none_Inl: "one_or_none xs = Inl e \<longleftrightarrow> e = MultipleResultsFound \<and> 2 \<le> length xs"
  by (cases xs rule: one_or_none.cases) auto

lemma one_or_none_find: "length (filter p t) \<le> 1 \<Longrightarrow> one_or_none (filter p t) = Inr (find p t)"
proof (induction t)
  case (Cons a t)
  then show ?case by (cases "filter p t") (auto simp: filter_empty_conv)
qed simp

lemma filter_singletonD: "filter p t = [r] \<Longrightarrow> r \<in> set t \<and> p r"
proof -
  assume "filter p t = [r]"
  then have "r \<in> set (filter p t)" by simp
  then show ?thesis by simp
qed

end
