(* ===== verification/Lease.thy ===== *)
theory Lease
  imports Prelude
begin

text \<open>
  The lease protocol that ingestion items and embedding runs share, as a specification.

  A job row is PENDING until a worker claims it. A claim makes it RUNNING, counts one more
  attempt and gives the worker a lease. The attempt number is the worker's token: heartbeat,
  release, failure and completion apply only to a RUNNING row whose attempt count is still
  the token and whose lease has not expired on the database clock (\<open>owned\<close>). A row whose
  lease has expired may be claimed again while attempts remain, and is failed by the reaper
  once they are used up.

  \<open>lease_step\<close> is the abstract machine on the columns that matter (\<open>lease_view\<close>). The
  locale \<open>leased_job\<close> is the interface between it and a repository: \<open>exec\<close> runs one
  statement of the repository on a row (None when the WHERE clause does not match), and the
  law is that it simulates \<open>lease_step\<close>. The lemmas of the locale (fencing of stale
  workers, bounded attempts, terminal rows never change) are proved once and used for both
  repositories.
\<close>

section \<open>Definitions\<close>

datatype job_status = PENDING | RUNNING | COMPLETED | FAILED

record lease_view =
  lv_status :: job_status
  lv_attempts :: int
  lv_lease :: "datetime option"

datatype lease_event =
    Claim datetime
  | Heartbeat int datetime
  | Release int
  | Fail int
  | Complete int
  | Reap

definition terminal :: "lease_view \<Rightarrow> bool" where
  "terminal v \<longleftrightarrow> lv_status v = COMPLETED \<or> lv_status v = FAILED"

definition owned :: "int \<Rightarrow> datetime \<Rightarrow> lease_view \<Rightarrow> bool" where
  "owned n db v \<longleftrightarrow> lv_status v = RUNNING \<and> lv_attempts v = n \<and> null_gt (lv_lease v) db"

definition claimable :: "int \<Rightarrow> datetime \<Rightarrow> lease_view \<Rightarrow> bool" where
  "claimable m db v \<longleftrightarrow> lv_attempts v < m \<and>
    (lv_status v = PENDING \<or> lv_status v = RUNNING \<and> null_le (lv_lease v) db)"

definition exhausted :: "int \<Rightarrow> datetime \<Rightarrow> lease_view \<Rightarrow> bool" where
  "exhausted m db v \<longleftrightarrow>
    lv_status v = RUNNING \<and> null_le (lv_lease v) db \<and> m \<le> lv_attempts v"

fun lease_step :: "int \<Rightarrow> datetime \<Rightarrow> lease_event \<Rightarrow> lease_view \<Rightarrow> lease_view option" where
  "lease_step m db (Claim e) v =
    (if claimable m db v
     then Some (v\<lparr>lv_status := RUNNING, lv_attempts := lv_attempts v + 1, lv_lease := Some e\<rparr>)
     else None)"
| "lease_step m db (Heartbeat n e) v =
    (if owned n db v then Some (v\<lparr>lv_lease := Some e\<rparr>) else None)"
| "lease_step m db (Release n) v =
    (if owned n db v then Some (v\<lparr>lv_status := PENDING, lv_lease := None\<rparr>) else None)"
| "lease_step m db (Fail n) v =
    (if owned n db v then Some (v\<lparr>lv_status := FAILED, lv_lease := None\<rparr>) else None)"
| "lease_step m db (Complete n) v =
    (if owned n db v then Some (v\<lparr>lv_status := COMPLETED, lv_lease := None\<rparr>) else None)"
| "lease_step m db Reap v =
    (if exhausted m db v then Some (v\<lparr>lv_status := FAILED, lv_lease := None\<rparr>) else None)"

text \<open>A schedule of statements at the database times they run; unmatched ones do nothing.\<close>

primrec run_events ::
  "(int \<Rightarrow> datetime \<Rightarrow> 'ev \<Rightarrow> 'r \<Rightarrow> 'r option) \<Rightarrow> int \<Rightarrow> (datetime \<times> 'ev) list \<Rightarrow> 'r \<Rightarrow> 'r"
where
  "run_events exec m [] r = r"
| "run_events exec m (x # xs) r =
    run_events exec m xs (case exec m (fst x) (snd x) r of None \<Rightarrow> r | Some r' \<Rightarrow> r')"

text \<open>The attempt number a statement presents as its token.\<close>

fun token :: "lease_event \<Rightarrow> int option" where
  "token (Heartbeat n _) = Some n"
| "token (Release n) = Some n"
| "token (Fail n) = Some n"
| "token (Complete n) = Some n"
| "token (Claim _) = None"
| "token Reap = None"

section \<open>The abstract machine\<close>

lemma token_needs_owned: "token e = Some n \<Longrightarrow> lease_step m db e v = Some v' \<Longrightarrow> owned n db v"
  by (cases e) (auto split: if_splits)

lemma lease_step_terminal: "terminal v \<Longrightarrow> lease_step m db e v = None"
  by (cases e) (auto simp: terminal_def owned_def claimable_def exhausted_def)

lemma lease_step_attempts:
  "lease_step m db e v = Some v' \<Longrightarrow>
    lv_attempts v' = (case e of Claim _ \<Rightarrow> lv_attempts v + 1 | _ \<Rightarrow> lv_attempts v)"
  by (cases e) (auto split: if_splits)

lemma lease_step_attempts_mono: "lease_step m db e v = Some v' \<Longrightarrow> lv_attempts v \<le> lv_attempts v'"
  by (drule lease_step_attempts) (cases e; simp)

lemma lease_step_attempts_bound:
  "lease_step m db e v = Some v' \<Longrightarrow> lv_attempts v \<le> m \<Longrightarrow> lv_attempts v' \<le> m"
  by (cases e) (auto simp: claimable_def split: if_splits)

lemma claim_excluded_while_owned: "owned n db v \<Longrightarrow> lease_step m db (Claim e) v = None"
  by (auto simp: owned_def claimable_def dest: null_le_gt)

lemma reap_excluded_while_owned: "owned n db v \<Longrightarrow> lease_step m db Reap v = None"
  by (auto simp: owned_def exhausted_def dest: null_le_gt)

lemma owned_token_unique: "owned n db v \<Longrightarrow> owned n' db' v \<Longrightarrow> n = n'"
  by (simp add: owned_def)

declare lease_step.simps [simp del]

section \<open>The interface of a leased repository\<close>

locale leased_job =
  fixes view :: "'r \<Rightarrow> lease_view"
    and event :: "'ev \<Rightarrow> lease_event"
    and exec :: "int \<Rightarrow> datetime \<Rightarrow> 'ev \<Rightarrow> 'r \<Rightarrow> 'r option"
  assumes simulates: "map_option view (exec m db e r) = lease_step m db (event e) (view r)"
begin

lemma exec_step: "exec m db e r = Some r' \<Longrightarrow> lease_step m db (event e) (view r) = Some (view r')"
  using simulates [of m db e r] by simp

lemma exec_None_iff: "exec m db e r = None \<longleftrightarrow> lease_step m db (event e) (view r) = None"
  using simulates [of m db e r] by (metis option.map_disc_iff)

lemma exec_stale: "token (event e) = Some n \<Longrightarrow> n \<noteq> lv_attempts (view r) \<Longrightarrow> exec m db e r = None"
  by (metis exec_step not_Some_eq owned_def token_needs_owned)

lemma exec_terminal: "terminal (view r) \<Longrightarrow> exec m db e r = None"
  by (simp add: exec_None_iff lease_step_terminal)

text \<open>Every schedule of the repository is a schedule of the abstract machine.\<close>

lemma refines:
  "view (run_events exec m xs r) = run_events lease_step m (map (map_prod id event) xs) (view r)"
proof (induction xs arbitrary: r)
  case (Cons x xs)
  show ?case
  proof (cases "exec m (fst x) (snd x) r")
    case None
    then have "lease_step m (fst x) (event (snd x)) (view r) = None" by (simp add: exec_None_iff)
    with None Cons.IH show ?thesis by simp
  next
    case (Some r')
    then have "lease_step m (fst x) (event (snd x)) (view r) = Some (view r')" by (rule exec_step)
    with Some Cons.IH show ?thesis by simp
  qed
qed simp

lemma attempts_mono: "lv_attempts (view r) \<le> lv_attempts (view (run_events exec m xs r))"
proof (induction xs arbitrary: r)
  case (Cons x xs)
  show ?case
  proof (cases "exec m (fst x) (snd x) r")
    case (Some r')
    then have "lv_attempts (view r) \<le> lv_attempts (view r')"
      by (meson exec_step lease_step_attempts_mono)
    with Some Cons.IH [of r'] show ?thesis by simp
  qed (use Cons.IH in simp)
qed simp

lemma attempts_bounded:
  "lv_attempts (view r) \<le> m \<Longrightarrow> lv_attempts (view (run_events exec m xs r)) \<le> m"
proof (induction xs arbitrary: r)
  case (Cons x xs)
  then show ?case
    by (cases "exec m (fst x) (snd x) r") (auto dest!: exec_step dest: lease_step_attempts_bound)
qed simp

lemma terminal_stable: "terminal (view r) \<Longrightarrow> run_events exec m xs r = r"
  by (induction xs) (simp_all add: exec_terminal)

text \<open>
  Fencing: once the attempt count has passed a worker's token, no statement with that token
  matches the row again, whatever the other workers do in between.
\<close>

lemma fenced:
  assumes "n < lv_attempts (view r)" and "token (event e) = Some n"
  shows "exec m db e (run_events exec m xs r) = None"
  using assms attempts_mono [of r m xs] by (intro exec_stale) auto

lemma claim_fences:
  assumes "lv_attempts (view r) = n" and "event c = Claim x" and "exec m db c r = Some r'"
    and "token (event e) = Some n"
  shows "exec m db' e (run_events exec m xs r') = None"
proof (rule fenced)
  from assms(2) exec_step [OF assms(3)] have "lv_attempts (view r') = lv_attempts (view r) + 1"
    by (auto dest: lease_step_attempts)
  with assms(1) show "n < lv_attempts (view r')" by simp
qed (use assms in simp)

text \<open>While one worker's lease is live, nobody else can claim or reap the row.\<close>

lemma live_lease_excludes:
  "owned n db (view r) \<Longrightarrow> event c = Claim x \<or> event c = Reap \<Longrightarrow> exec m db c r = None"
  by (auto simp: exec_None_iff claim_excluded_while_owned reap_excluded_while_owned)

end

end
