(* ===== verification/PyText.thy ===== *)
theory PyText
  imports Complex_Main Prelude
begin

text \<open>
  The parts of Python's \<open>str\<close> and \<open>json\<close> that the program computes with.

  A \<open>str\<close> is the list of its code points (\<open>pystr\<close>); \<open>lit\<close> writes an ASCII literal.
  White space, line boundaries, \<open>strip\<close>, \<open>rstrip\<close>, \<open>splitlines\<close>, \<open>join\<close> and the
  matches of the pattern \<open>\S+\<close> (\<open>tokens\<close>) follow the language's definition on code
  points, so that the chunking code can be stated on whole Unicode texts. A JSON value is
  the datatype \<open>json\<close>; an object keeps its keys in insertion order, and \<open>get\<close> reads it.
\<close>

section \<open>Text\<close>

type_synonym pystr = "nat list"

definition lit :: "string \<Rightarrow> pystr" where
  "lit s = map of_char s"

definition py_isspace :: "nat \<Rightarrow> bool" where
  "py_isspace c \<longleftrightarrow> 9 \<le> c \<and> c \<le> 13 \<or> 28 \<le> c \<and> c \<le> 32 \<or> c = 133 \<or> c = 160 \<or> c = 5760
    \<or> 8192 \<le> c \<and> c \<le> 8202 \<or> c = 8232 \<or> c = 8233 \<or> c = 8239 \<or> c = 8287 \<or> c = 12288"

definition is_linebreak :: "nat \<Rightarrow> bool" where
  "is_linebreak c \<longleftrightarrow> 10 \<le> c \<and> c \<le> 13 \<or> 28 \<le> c \<and> c \<le> 30 \<or> c = 133 \<or> c = 8232 \<or> c = 8233"

definition lstrip :: "pystr \<Rightarrow> pystr" where
  "lstrip s = dropWhile py_isspace s"

definition rstrip :: "pystr \<Rightarrow> pystr" where
  "rstrip s = rev (dropWhile py_isspace (rev s))"

definition strip :: "pystr \<Rightarrow> pystr" where
  "strip s = rstrip (lstrip s)"

fun join :: "pystr \<Rightarrow> pystr list \<Rightarrow> pystr" where
  "join sep [] = []"
| "join sep [x] = x"
| "join sep (x # y # ys) = x @ sep @ join sep (y # ys)"

text \<open>\<open>splitlines\<close>: the carriage return and line feed pair is one boundary, and a
  boundary at the end does not start another line.\<close>

fun splitlines_from :: "pystr \<Rightarrow> pystr \<Rightarrow> pystr list" where
  "splitlines_from cur [] = (if cur = [] then [] else [cur])"
| "splitlines_from cur (c # cs) =
    (if c = 13 \<and> cs \<noteq> [] \<and> hd cs = 10 then cur # splitlines_from [] (tl cs)
     else if is_linebreak c then cur # splitlines_from [] cs
     else splitlines_from (cur @ [c]) cs)"

definition splitlines :: "pystr \<Rightarrow> pystr list" where
  "splitlines s = splitlines_from [] s"

text \<open>\<open>re.findall(r"\S+", s)\<close>.\<close>

fun tokens_from :: "pystr \<Rightarrow> pystr \<Rightarrow> pystr list" where
  "tokens_from cur [] = (if cur = [] then [] else [cur])"
| "tokens_from cur (c # cs) =
    (if py_isspace c then (if cur = [] then tokens_from [] cs else cur # tokens_from [] cs)
     else tokens_from (cur @ [c]) cs)"

definition tokens :: "pystr \<Rightarrow> pystr list" where
  "tokens s = tokens_from [] s"

definition is_token :: "pystr \<Rightarrow> bool" where
  "is_token w \<longleftrightarrow> w \<noteq> [] \<and> list_all (\<lambda>c. \<not> py_isspace c) w"

section \<open>JSON values\<close>

datatype json =
    JNull
  | JBool bool
  | JInt int
  | JFloat rat
  | JStr pystr
  | JList "json list"
  | JObj "(pystr \<times> json) list"

fun is_mapping :: "json \<Rightarrow> bool" where
  "is_mapping (JObj _) = True"
| "is_mapping _ = False"

fun get :: "json \<Rightarrow> string \<Rightarrow> json option" where
  "get (JObj kvs) k = map_of kvs (lit k)"
| "get _ k = None"

text \<open>\<open>str(uuid)\<close>: 32 hexadecimal digits in groups of 8, 4, 4, 4 and 12.\<close>

fun hex_digits :: "nat \<Rightarrow> nat \<Rightarrow> string" where
  "hex_digits 0 n = []"
| "hex_digits (Suc k) n = hex_digits k (n div 16) @ [''0123456789abcdef'' ! (n mod 16)]"

definition uuid_str :: "uuid \<Rightarrow> pystr" where
  "uuid_str u = (let h = hex_digits 32 u in
    lit (take 8 h @ ''-'' @ take 4 (drop 8 h) @ ''-'' @ take 4 (drop 12 h) @ ''-'' @
      take 4 (drop 16 h) @ ''-'' @ drop 20 h))"

section \<open>Facts about literals and stripping\<close>

lemma lit_inject [simp]: "lit s = lit t \<longleftrightarrow> s = t"
  by (simp add: lit_def inj_map_eq_map inj_def)

lemma lit_Nil [simp]: "lit s = [] \<longleftrightarrow> s = []"
  by (simp add: lit_def)

lemma strip_decomp:
  obtains a b where "s = a @ strip s @ b" and "list_all py_isspace a" and "list_all py_isspace b"
proof
  let ?l = "lstrip s"
  show "s = takeWhile py_isspace s @ strip s @ rev (takeWhile py_isspace (rev ?l))"
    unfolding strip_def rstrip_def
    by (metis append_assoc lstrip_def rev_append rev_rev_ident takeWhile_dropWhile_id)
  show "list_all py_isspace (takeWhile py_isspace s)"
    by (auto simp: list_all_iff dest: set_takeWhileD)
  show "list_all py_isspace (rev (takeWhile py_isspace (rev ?l)))"
    by (auto simp: list_all_iff dest: set_takeWhileD)
qed

lemma strip_blank_iff: "strip s = [] \<longleftrightarrow> list_all py_isspace s"
proof
  assume "strip s = []"
  moreover obtain a b where "s = a @ strip s @ b"
    and "list_all py_isspace a" and "list_all py_isspace b"
    by (rule strip_decomp)
  ultimately show "list_all py_isspace s" by (metis append_Nil list_all_append)
next
  assume "list_all py_isspace s"
  then have "lstrip s = []" by (simp add: lstrip_def list_all_iff dropWhile_eq_Nil_conv)
  then show "strip s = []" by (simp add: strip_def rstrip_def)
qed

lemma rstrip_last: "rstrip s \<noteq> [] \<Longrightarrow> \<not> py_isspace (last (rstrip s))"
  unfolding rstrip_def by (simp add: last_rev hd_dropWhile)

lemma lstrip_hd: "lstrip s \<noteq> [] \<Longrightarrow> \<not> py_isspace (hd (lstrip s))"
  by (simp add: lstrip_def hd_dropWhile)

lemma rstrip_id: "s = [] \<or> \<not> py_isspace (last s) \<Longrightarrow> rstrip s = s"
  by (metis dropWhile_eq_self_iff hd_rev rev_is_Nil_conv rev_rev_ident rstrip_def)

lemma lstrip_id: "s = [] \<or> \<not> py_isspace (hd s) \<Longrightarrow> lstrip s = s"
  by (simp add: lstrip_def dropWhile_eq_self_iff)

lemma rstrip_prefix: "\<exists>t. s = rstrip s @ t"
  unfolding rstrip_def by (metis rev_append rev_rev_ident takeWhile_dropWhile_id)

lemma strip_hd: "strip s \<noteq> [] \<Longrightarrow> \<not> py_isspace (hd (strip s))"
proof -
  assume ne: "strip s \<noteq> []"
  obtain t where t: "lstrip s = strip s @ t"
    using rstrip_prefix [of "lstrip s"] by (auto simp: strip_def)
  with ne have "hd (lstrip s) = hd (strip s)" and "lstrip s \<noteq> []" by auto
  with lstrip_hd [of s] show ?thesis by metis
qed

lemma strip_last: "strip s \<noteq> [] \<Longrightarrow> \<not> py_isspace (last (strip s))"
  by (simp add: strip_def rstrip_last)

lemma strip_strip [simp]: "strip (strip s) = strip s"
  by (cases "strip s = []") (auto simp: strip_def [of "strip s"] lstrip_id rstrip_id strip_hd
      strip_last, simp add: strip_def lstrip_def rstrip_def)

section \<open>Facts about tokens\<close>

lemma tokens_from_space:
  "py_isspace c \<Longrightarrow> tokens_from cur (s @ c # t) = tokens_from cur s @ tokens_from [] t"
  by (induction s arbitrary: cur) auto

lemma tokens_from_blank: "list_all py_isspace s \<Longrightarrow> tokens_from cur s = (if cur = [] then [] else [cur])"
  by (induction s arbitrary: cur) auto

lemma tokens_blank_prefix: "list_all py_isspace a \<Longrightarrow> tokens (a @ s) = tokens s"
  unfolding tokens_def by (induction a) auto

lemma tokens_from_blank_suffix:
  "list_all py_isspace b \<Longrightarrow> tokens_from cur (s @ b) = tokens_from cur s"
proof (induction s arbitrary: cur)
  case Nil
  then show ?case by (simp add: tokens_from_blank)
qed auto

lemma tokens_strip [simp]: "tokens (strip s) = tokens s"
proof -
  obtain a b where "s = a @ strip s @ b" and "list_all py_isspace a" and "list_all py_isspace b"
    by (rule strip_decomp)
  then show ?thesis
    by (metis append_assoc tokens_blank_prefix tokens_def tokens_from_blank_suffix)
qed

lemma tokens_append_sep:
  assumes "sep \<noteq> []" and "list_all py_isspace sep"
  shows "tokens (s @ sep @ t) = tokens s @ tokens t"
proof -
  obtain c r where "sep = c # r" using assms(1) by (cases sep) auto
  with assms have "tokens (s @ sep @ t) = tokens s @ tokens (r @ t)" and "list_all py_isspace r"
    by (simp_all add: tokens_def tokens_from_space)
  then show ?thesis by (simp add: tokens_blank_prefix)
qed

lemma tokens_Nil [simp]: "tokens [] = []"
  by (simp add: tokens_def)

lemma tokens_join:
  assumes "sep \<noteq> []" and "list_all py_isspace sep"
  shows "tokens (join sep xs) = concat (map tokens xs)"
  using assms by (induction sep xs rule: join.induct) (simp_all add: tokens_append_sep)

lemma tokens_from_word: "list_all (\<lambda>c. \<not> py_isspace c) w \<Longrightarrow> tokens_from cur w = (if cur @ w = [] then [] else [cur @ w])"
  by (induction w arbitrary: cur) auto

lemma tokens_token: "is_token w \<Longrightarrow> tokens w = [w]"
  by (auto simp: is_token_def tokens_def tokens_from_word)

lemma tokens_from_wf:
  "list_all (\<lambda>c. \<not> py_isspace c) cur \<Longrightarrow> list_all is_token (tokens_from cur s)"
  by (induction s arbitrary: cur) (auto simp: is_token_def)

lemma tokens_wf: "list_all is_token (tokens s)"
  by (simp add: tokens_def tokens_from_wf)

lemma tokens_join_tokens:
  assumes "list_all is_token ws" and "sep \<noteq> []" and "list_all py_isspace sep"
  shows "tokens (join sep ws) = ws"
  using assms(1) by (simp add: tokens_join [OF assms(2,3)], induction ws)
    (auto simp: tokens_token)

lemma tokens_from_Nil_iff: "tokens_from cur s = [] \<longleftrightarrow> cur = [] \<and> list_all py_isspace s"
  by (induction s arbitrary: cur) auto

lemma tokens_Nil_iff: "tokens s = [] \<longleftrightarrow> strip s = []"
  by (simp add: tokens_def tokens_from_Nil_iff strip_blank_iff)


lemma tokens_from_chars: "w \<in> set (tokens_from cur s) \<Longrightarrow> set w \<subseteq> set cur \<union> set s"
  by (induction s arbitrary: cur) (fastforce split: if_splits)+

lemma tokens_chars: "w \<in> set (tokens s) \<Longrightarrow> set w \<subseteq> set s"
  using tokens_from_chars [of w "[]" s] by (simp add: tokens_def)

lemma join_chars: "set (join sep ws) \<subseteq> set sep \<union> (\<Union>w \<in> set ws. set w)"
  by (induction sep ws rule: join.induct) auto

lemma strip_chars: "set (strip s) \<subseteq> set s"
  by (metis Un_commute Un_upper1 set_append strip_decomp sup_assoc sup_ge1 order_trans)

lemma rstrip_chars: "set (rstrip s) \<subseteq> set s"
  by (metis Un_upper1 rstrip_prefix set_append)

section \<open>Facts about lines\<close>

lemma linebreak_isspace: "is_linebreak c \<Longrightarrow> py_isspace c"
  by (auto simp: is_linebreak_def py_isspace_def)

lemma splitlines_from_tokens: "concat (map tokens (splitlines_from cur s)) = tokens (cur @ s)"
proof (induction cur s rule: splitlines_from.induct)
  case (2 cur c cs)
  show ?case
  proof (cases "c = 13 \<and> cs \<noteq> [] \<and> hd cs = 10")
    case True
    then obtain r where r: "cs = 10 # r" by (cases cs) auto
    have "tokens (cur @ [13, 10] @ r) = tokens cur @ tokens r"
      by (rule tokens_append_sep) (simp_all add: py_isspace_def)
    with True 2 r show ?thesis by simp
  next
    case notcr: False
    show ?thesis
    proof (cases "is_linebreak c")
      case True
      then have "tokens (cur @ [c] @ cs) = tokens cur @ tokens cs"
        by (intro tokens_append_sep) (simp_all add: linebreak_isspace)
      with True notcr 2 show ?thesis by auto
    qed (use notcr 2 in auto)
  qed
qed simp

lemma splitlines_tokens: "concat (map tokens (splitlines s)) = tokens s"
  by (simp add: splitlines_def splitlines_from_tokens)

lemma splitlines_from_chars: "l \<in> set (splitlines_from cur s) \<Longrightarrow> set l \<subseteq> set cur \<union> set s"
proof (induction cur s rule: splitlines_from.induct)
  case (2 cur c cs)
  then show ?case
    by (auto split: if_splits dest!: subsetD intro: list.set_sel(2)) 
qed (auto split: if_splits)

lemma splitlines_chars: "l \<in> set (splitlines s) \<Longrightarrow> set l \<subseteq> set s"
  using splitlines_from_chars [of l "[]" s] by (simp add: splitlines_def)

lemma tokens_rstrip [simp]: "tokens (rstrip s) = tokens s"
proof -
  have "s = rstrip s @ rev (takeWhile py_isspace (rev s))"
    unfolding rstrip_def by (metis rev_append rev_rev_ident takeWhile_dropWhile_id)
  moreover have "list_all py_isspace (rev (takeWhile py_isspace (rev s)))"
    by (auto simp: list_all_iff dest: set_takeWhileD)
  ultimately show ?thesis by (metis tokens_def tokens_from_blank_suffix)
qed

section \<open>Identifiers as text\<close>

lemma length_hex_digits [simp]: "length (hex_digits k n) = k"
  by (induction k arbitrary: n) simp_all

lemma hex_digit_inj:
  assumes "''0123456789abcdef'' ! i = ''0123456789abcdef'' ! j" and "i < 16" and "j < 16"
  shows "i = j"
proof -
  have "distinct ''0123456789abcdef''" by simp
  with assms show ?thesis by (auto simp: nth_eq_iff_index_eq)
qed

lemma hex_digits_inj:
  "hex_digits k m = hex_digits k n \<Longrightarrow> m < 16 ^ k \<Longrightarrow> n < 16 ^ k \<Longrightarrow> m = n"
proof (induction k arbitrary: m n)
  case (Suc k)
  from Suc.prems(1) have "hex_digits k (m div 16) = hex_digits k (n div 16)" and "m mod 16 = n mod 16"
    using hex_digit_inj [of "m mod 16" "n mod 16"] by auto
  moreover have "m div 16 < 16 ^ k" "n div 16 < 16 ^ k"
    using Suc.prems(2,3) by (simp_all add: less_mult_imp_div_less mult.commute)
  ultimately have "m div 16 = n div 16" using Suc.IH by blast
  with \<open>m mod 16 = n mod 16\<close> show ?case by (metis div_mult_mod_eq)
qed simp

lemma length_uuid_str [simp]: "length (uuid_str u) = 36"
  by (simp add: uuid_str_def Let_def lit_def)

lemma uuid_str_inj:
  assumes "uuid_str u = uuid_str v" and "u < 2 ^ 128" and "v < 2 ^ 128"
  shows "u = v"
proof -
  let ?h = "hex_digits 32 u" and ?g = "hex_digits 32 v"
  have split: "h = take 8 h @ take 4 (drop 8 h) @ take 4 (drop 12 h) @ take 4 (drop 16 h) @ drop 20 h"
    for h :: string
    using append_take_drop_id [of 8 h] append_take_drop_id [of 4 "drop 8 h"]
      append_take_drop_id [of 4 "drop 12 h"] append_take_drop_id [of 4 "drop 16 h"] by simp
  have "take 8 ?h = take 8 ?g" "take 4 (drop 8 ?h) = take 4 (drop 8 ?g)"
    "take 4 (drop 12 ?h) = take 4 (drop 12 ?g)" "take 4 (drop 16 ?h) = take 4 (drop 16 ?g)"
    "drop 20 ?h = drop 20 ?g"
    using assms(1) by (simp_all add: uuid_str_def Let_def)
  then have "?h = ?g" using split [of ?h] split [of ?g] by argo
  then show ?thesis using assms(2,3) by (intro hex_digits_inj [of 32]) simp_all
qed

end
