(* ===== verification/Outbox.thy ===== *)
theory Outbox
  imports PyText "HOL-Library.Product_Lexorder"
begin

text \<open>
  The transactional outbox: \<open>platform/jobs/models/job_outbox.py\<close> (the table and its
  constraints), \<open>platform/jobs/repositories/outbox.py\<close> (the statements) and
  \<open>platform/jobs/publisher.py\<close> (the publisher loop).

  A row waits until a publisher claims it for the length of a lease, hands it to the broker
  and marks it published; a failed hand-over releases the claim, an unknown job type fails
  it. The attempt count is the publisher's token, as in the lease protocol of the workers.
  The publisher runs several transactions, and other processes commit in between: the
  environment \<open>publish_env\<close> gives, for the transaction of the i-th job, the clock readings,
  the broker's answer and what the others did to the table.
\<close>

section \<open>The table\<close>

record job_outbox =
  ob_id :: uuid
  ob_job_type :: string
  ob_aggregate_id :: uuid
  ob_payload :: json
  ob_created_at :: datetime
  ob_published_at :: "datetime option"
  ob_failed_at :: "datetime option"
  ob_failure_code :: "string option"
  ob_attempt_count :: int
  ob_last_error :: "string option"
  ob_claimed_at :: "datetime option"
  ob_lease_expires_at :: "datetime option"

definition attempt_count_non_negative :: "job_outbox \<Rightarrow> bool" where
  "attempt_count_non_negative r \<longleftrightarrow> 0 \<le> ob_attempt_count r"

definition valid_publish_lease :: "job_outbox \<Rightarrow> bool" where
  "valid_publish_lease r \<longleftrightarrow> (case ob_lease_expires_at r of None \<Rightarrow> True
    | Some e \<Rightarrow> (case ob_claimed_at r of None \<Rightarrow> False | Some c \<Rightarrow> c < e))"

definition published_job_has_no_lease :: "job_outbox \<Rightarrow> bool" where
  "published_job_has_no_lease r \<longleftrightarrow> ob_published_at r = None \<or> ob_lease_expires_at r = None"

definition failed_job_has_no_lease :: "job_outbox \<Rightarrow> bool" where
  "failed_job_has_no_lease r \<longleftrightarrow> ob_failed_at r = None \<or> ob_lease_expires_at r = None"

definition published_or_failed :: "job_outbox \<Rightarrow> bool" where
  "published_or_failed r \<longleftrightarrow> \<not> (ob_published_at r \<noteq> None \<and> ob_failed_at r \<noteq> None)"

definition btrim_nonempty :: "string \<Rightarrow> bool" where
  "btrim_nonempty s \<longleftrightarrow> list_ex (\<lambda>c. c \<noteq> CHR '' '') s"

definition terminal_failure_complete :: "job_outbox \<Rightarrow> bool" where
  "terminal_failure_complete r \<longleftrightarrow>
    (case ob_failed_at r of
       None \<Rightarrow> ob_failure_code r = None
     | Some _ \<Rightarrow> (case ob_failure_code r of None \<Rightarrow> False | Some c \<Rightarrow> btrim_nonempty c))"

definition outbox_constraints :: "job_outbox constraint list" where
  "outbox_constraints =
    [check ''ck_job_outbox_attempt_count_non_negative'' attempt_count_non_negative,
     check ''ck_job_outbox_valid_publish_lease'' valid_publish_lease,
     check ''ck_job_outbox_published_job_has_no_lease'' published_job_has_no_lease,
     check ''ck_job_outbox_failed_job_has_no_lease'' failed_job_has_no_lease,
     check ''ck_job_outbox_published_or_failed'' published_or_failed,
     check ''ck_job_outbox_terminal_failure_complete'' terminal_failure_complete,
     unique_index ''pk_job_outbox'' (\<lambda>_. True) ob_id]"

definition open_job :: "job_outbox \<Rightarrow> bool" where
  "open_job r \<longleftrightarrow> ob_published_at r = None \<and> ob_failed_at r = None"

section \<open>The repository\<close>

definition PROCESS_INGESTION_ITEM :: string where
  "PROCESS_INGESTION_ITEM = ''ingestion.process''"

definition new_job :: "uuid \<Rightarrow> string \<Rightarrow> uuid \<Rightarrow> json \<Rightarrow> datetime \<Rightarrow> job_outbox" where
  "new_job job_id job_type aggregate_id payload db =
    \<lparr>ob_id = job_id, ob_job_type = job_type, ob_aggregate_id = aggregate_id,
     ob_payload = payload, ob_created_at = db, ob_published_at = None, ob_failed_at = None,
     ob_failure_code = None, ob_attempt_count = 0, ob_last_error = None,
     ob_claimed_at = None, ob_lease_expires_at = None\<rparr>"

definition enqueue ::
  "uuid \<Rightarrow> string \<Rightarrow> uuid \<Rightarrow> json \<Rightarrow> datetime \<Rightarrow> job_outbox list \<Rightarrow> db_error + job_outbox list"
where
  "enqueue job_id job_type aggregate_id payload db t =
    insert_stmt outbox_constraints [new_job job_id job_type aggregate_id payload db] t"

definition pending_for :: "string \<Rightarrow> uuid \<Rightarrow> job_outbox \<Rightarrow> bool" where
  "pending_for job_type aggregate_id r \<longleftrightarrow>
    ob_job_type r = job_type \<and> ob_aggregate_id r = aggregate_id \<and>
    ob_published_at r = None \<and> ob_failed_at r = None"

definition discard_pending_for_aggregate ::
  "string \<Rightarrow> uuid \<Rightarrow> datetime \<Rightarrow> string \<Rightarrow> job_outbox list \<Rightarrow> db_error + nat \<times> job_outbox list"
where
  "discard_pending_for_aggregate job_type aggregate_id failed_at failure_code t =
    update_stmt outbox_constraints (pending_for job_type aggregate_id)
      (\<lambda>r. r\<lparr>ob_failed_at := Some failed_at, ob_failure_code := Some failure_code\<rparr>) t"

record claimed_outbox_job =
  cj_id :: uuid
  cj_job_type :: string
  cj_aggregate_id :: uuid
  cj_payload :: json
  cj_attempt_number :: int
  cj_lease_expires_at :: "datetime option"

definition to_claimed_job :: "job_outbox \<Rightarrow> claimed_outbox_job" where
  "to_claimed_job r =
    \<lparr>cj_id = ob_id r, cj_job_type = ob_job_type r, cj_aggregate_id = ob_aggregate_id r,
     cj_payload = ob_payload r, cj_attempt_number = ob_attempt_count r,
     cj_lease_expires_at = ob_lease_expires_at r\<rparr>"

definition publishable :: "datetime \<Rightarrow> job_outbox \<Rightarrow> bool" where
  "publishable db r \<longleftrightarrow> ob_published_at r = None \<and> ob_failed_at r = None \<and>
    (ob_lease_expires_at r = None \<or> null_le (ob_lease_expires_at r) db)"

text \<open>The candidates, oldest first; rows that another transaction has locked are skipped.\<close>

definition candidate_ids :: "uuid list \<Rightarrow> nat \<Rightarrow> datetime \<Rightarrow> job_outbox list \<Rightarrow> uuid list" where
  "candidate_ids locked limit db t =
    take limit (map ob_id (sort_key (\<lambda>r. (ob_created_at r, ob_id r))
      (sql_select (\<lambda>r. publishable db r \<and> ob_id r \<notin> set locked) t)))"

definition claim_publish :: "datetime \<Rightarrow> datetime \<Rightarrow> job_outbox \<Rightarrow> job_outbox" where
  "claim_publish now lease r =
    r\<lparr>ob_attempt_count := ob_attempt_count r + 1, ob_claimed_at := Some now,
      ob_lease_expires_at := Some lease\<rparr>"

definition claim_unpublished_batch ::
  "uuid list \<Rightarrow> nat \<Rightarrow> datetime \<Rightarrow> datetime \<Rightarrow> datetime \<Rightarrow> job_outbox list \<Rightarrow>
    db_error + claimed_outbox_job list \<times> job_outbox list"
where
  "claim_unpublished_batch locked limit now lease db t =
    (let ids = candidate_ids locked limit db t in
     and_then (update_returning outbox_constraints (\<lambda>r. ob_id r \<in> set ids)
         (claim_publish now lease) t)
       (\<lambda>(rows, t'). Inr (map to_claimed_job rows, t')))"

definition publish_owned_by :: "uuid \<Rightarrow> int \<Rightarrow> datetime \<Rightarrow> job_outbox \<Rightarrow> bool" where
  "publish_owned_by job_id n db r \<longleftrightarrow> ob_id r = job_id \<and> ob_published_at r = None \<and>
    ob_failed_at r = None \<and> ob_attempt_count r = n \<and> null_gt (ob_lease_expires_at r) db"

definition mark_published ::
  "uuid \<Rightarrow> int \<Rightarrow> datetime \<Rightarrow> datetime \<Rightarrow> job_outbox list \<Rightarrow> db_error + bool \<times> job_outbox list"
where
  "mark_published job_id n published_at db t =
    and_then (update_stmt outbox_constraints (publish_owned_by job_id n db)
        (\<lambda>r. r\<lparr>ob_published_at := Some published_at, ob_claimed_at := None,
               ob_lease_expires_at := None, ob_last_error := None\<rparr>) t)
      (\<lambda>(c, t'). Inr (c = 1, t'))"

definition mark_job_failed ::
  "uuid \<Rightarrow> int \<Rightarrow> datetime \<Rightarrow> string \<Rightarrow> datetime \<Rightarrow> job_outbox list \<Rightarrow>
    db_error + bool \<times> job_outbox list"
where
  "mark_job_failed job_id n failed_at failure_code db t =
    and_then (update_stmt outbox_constraints (publish_owned_by job_id n db)
        (\<lambda>r. r\<lparr>ob_failed_at := Some failed_at, ob_failure_code := Some failure_code,
               ob_claimed_at := None, ob_lease_expires_at := None, ob_last_error := None\<rparr>) t)
      (\<lambda>(c, t'). Inr (c = 1, t'))"

definition release_publish_claim ::
  "uuid \<Rightarrow> int \<Rightarrow> string \<Rightarrow> datetime \<Rightarrow> job_outbox list \<Rightarrow> db_error + bool \<times> job_outbox list"
where
  "release_publish_claim job_id n error_code db t =
    and_then (update_stmt outbox_constraints (publish_owned_by job_id n db)
        (\<lambda>r. r\<lparr>ob_claimed_at := None, ob_lease_expires_at := None,
               ob_last_error := Some error_code\<rparr>) t)
      (\<lambda>(c, t'). Inr (c = 1, t'))"

section \<open>The publisher\<close>

definition PROCESS_INGESTION_TASK :: string where
  "PROCESS_INGESTION_TASK = ''atlasrag.ingestion.process''"

definition task_by_job_type :: "string \<Rightarrow> string option" where
  "task_by_job_type = map_of
    [(PROCESS_INGESTION_ITEM, PROCESS_INGESTION_TASK),
     (''ingestion.process_item'', PROCESS_INGESTION_TASK)]"

definition UNKNOWN_JOB_TYPE :: string where
  "UNKNOWN_JOB_TYPE = ''unknown_job_type''"

record publish_report =
  rp_claimed :: nat
  rp_published :: nat
  rp_dispatch_failures :: nat
  rp_unknown_job_types :: nat
  rp_unconfirmed_publications :: nat
  rp_unconfirmed_terminal_failures :: nat

record publish_env =
  pe_clock :: "nat \<Rightarrow> datetime"
  pe_db_clock :: "nat \<Rightarrow> datetime"
  pe_dispatch :: "nat \<Rightarrow> string \<Rightarrow> json \<Rightarrow> string option"
  pe_others :: "nat \<Rightarrow> job_outbox list \<Rightarrow> job_outbox list"

text \<open>
  One transaction of the publisher: a raised error rolls back, and the unit of work is
  committed only when the statement found the row still owned.
\<close>

definition owned_transaction ::
  "job_outbox list \<Rightarrow> db_error + bool \<times> job_outbox list \<Rightarrow> (db_error + bool) \<times> job_outbox list"
where
  "owned_transaction t r = (case r of
      Inl e \<Rightarrow> (Inl e, t)
    | Inr (marked, t') \<Rightarrow> (Inr marked, if marked then t' else t))"

definition publish_claim ::
  "publish_env \<Rightarrow> uuid list \<Rightarrow> timedelta \<Rightarrow> nat \<Rightarrow> job_outbox list \<Rightarrow>
    db_error + claimed_outbox_job list \<times> job_outbox list"
where
  "publish_claim env locked lease_duration limit t =
    (let now = pe_clock env 0 in
     and_then (claim_unpublished_batch locked limit now (now + lease_duration)
         (pe_db_clock env 0) t)
       (\<lambda>(jobs, t'). Inr (jobs, if jobs \<noteq> [] then t' else t)))"

definition publish_one ::
  "publish_env \<Rightarrow> nat \<Rightarrow> claimed_outbox_job \<Rightarrow> publish_report \<Rightarrow> job_outbox list \<Rightarrow>
    (db_error + publish_report) \<times> job_outbox list"
where
  "publish_one env i job rep t =
    (case task_by_job_type (cj_job_type job) of
       None \<Rightarrow>
         (case owned_transaction t (mark_job_failed (cj_id job) (cj_attempt_number job)
             (pe_clock env i) UNKNOWN_JOB_TYPE (pe_db_clock env i) t) of
            (Inl e, t') \<Rightarrow> (Inl e, t')
          | (Inr marked, t') \<Rightarrow>
             (Inr (rep\<lparr>rp_unknown_job_types := rp_unknown_job_types rep + 1,
                rp_unconfirmed_terminal_failures :=
                  rp_unconfirmed_terminal_failures rep + (if marked then 0 else 1)\<rparr>), t'))
     | Some task \<Rightarrow>
         (case pe_dispatch env i task (cj_payload job) of
            Some err \<Rightarrow>
              (case owned_transaction t (release_publish_claim (cj_id job)
                  (cj_attempt_number job) (''dispatch_failed:'' @ err) (pe_db_clock env i) t) of
                 (Inl e, t') \<Rightarrow> (Inl e, t')
               | (Inr _, t') \<Rightarrow>
                  (Inr (rep\<lparr>rp_dispatch_failures := rp_dispatch_failures rep + 1\<rparr>), t'))
          | None \<Rightarrow>
              (case owned_transaction t (mark_published (cj_id job) (cj_attempt_number job)
                  (pe_clock env i) (pe_db_clock env i) t) of
                 (Inl e, t') \<Rightarrow> (Inl e, t')
               | (Inr marked, t') \<Rightarrow>
                  (Inr (if marked
                    then rep\<lparr>rp_published := rp_published rep + 1\<rparr>
                    else rep\<lparr>rp_unconfirmed_publications :=
                      rp_unconfirmed_publications rep + 1\<rparr>), t'))))"

fun publish_jobs ::
  "publish_env \<Rightarrow> nat \<Rightarrow> claimed_outbox_job list \<Rightarrow> publish_report \<Rightarrow> job_outbox list \<Rightarrow>
    (db_error + publish_report) \<times> job_outbox list"
where
  "publish_jobs env i [] rep t = (Inr rep, t)"
| "publish_jobs env i (job # jobs) rep t =
    (case publish_one env i job rep (pe_others env i t) of
       (Inl e, t') \<Rightarrow> (Inl e, t')
     | (Inr rep', t') \<Rightarrow> publish_jobs env (Suc i) jobs rep' t')"

definition empty_report :: "nat \<Rightarrow> publish_report" where
  "empty_report n = \<lparr>rp_claimed = n, rp_published = 0, rp_dispatch_failures = 0,
    rp_unknown_job_types = 0, rp_unconfirmed_publications = 0,
    rp_unconfirmed_terminal_failures = 0\<rparr>"

definition publish_pending ::
  "publish_env \<Rightarrow> uuid list \<Rightarrow> timedelta \<Rightarrow> nat \<Rightarrow> job_outbox list \<Rightarrow>
    (db_error + publish_report) \<times> job_outbox list"
where
  "publish_pending env locked lease_duration limit t =
    (case publish_claim env locked lease_duration limit t of
       Inl e \<Rightarrow> (Inl e, t)
     | Inr (jobs, t') \<Rightarrow> publish_jobs env 1 jobs (empty_report (length jobs)) t')"

text \<open>Any interleaving of the repository's statements; a statement that raises changes nothing.\<close>

datatype outbox_op =
    Enqueue uuid string uuid json datetime
  | Discard string uuid datetime string
  | ClaimBatch "uuid list" nat datetime datetime datetime
  | MarkPublished uuid int datetime datetime
  | MarkFailed uuid int datetime string datetime
  | ReleaseClaim uuid int string datetime

fun outbox_exec :: "outbox_op \<Rightarrow> job_outbox list \<Rightarrow> job_outbox list" where
  "outbox_exec (Enqueue j ty agg payload db) t =
    (case enqueue j ty agg payload db t of Inl _ \<Rightarrow> t | Inr t' \<Rightarrow> t')"
| "outbox_exec (Discard ty agg failed_at code) t =
    db_after t (discard_pending_for_aggregate ty agg failed_at code t)"
| "outbox_exec (ClaimBatch locked limit now lease db) t =
    db_after t (claim_unpublished_batch locked limit now lease db t)"
| "outbox_exec (MarkPublished j n when db) t = db_after t (mark_published j n when db t)"
| "outbox_exec (MarkFailed j n when code db) t = db_after t (mark_job_failed j n when code db t)"
| "outbox_exec (ReleaseClaim j n err db) t = db_after t (release_publish_claim j n err db t)"

section \<open>Constraints are kept\<close>

lemmas outbox_checks =
  attempt_count_non_negative_def valid_publish_lease_def published_job_has_no_lease_def
  failed_job_has_no_lease_def published_or_failed_def terminal_failure_complete_def

definition outbox_row_ok :: "job_outbox \<Rightarrow> bool" where
  "outbox_row_ok r \<longleftrightarrow> attempt_count_non_negative r \<and> valid_publish_lease r \<and>
    published_job_has_no_lease r \<and> failed_job_has_no_lease r \<and> published_or_failed r \<and>
    terminal_failure_complete r"

definition outbox_ok :: "job_outbox list \<Rightarrow> bool" where
  "outbox_ok t \<longleftrightarrow> list_all outbox_row_ok t \<and> distinct (map ob_id t)"

lemma satisfies_outbox: "satisfies outbox_constraints t \<longleftrightarrow> outbox_ok t"
  by (auto simp: outbox_constraints_def outbox_ok_def outbox_row_ok_def list_all_iff)

lemma outbox_okI_update:
  assumes "outbox_ok t" and "\<And>r. p r \<Longrightarrow> ob_id (f r) = ob_id r"
    and "\<And>r. r \<in> set t \<Longrightarrow> p r \<Longrightarrow> outbox_row_ok r \<Longrightarrow> outbox_row_ok (f r)"
  shows "outbox_ok (sql_update p f t)"
  using assms by (auto simp: outbox_ok_def map_sql_update intro: list_all_sql_update)

lemma enqueue_ok:
  "outbox_ok t \<Longrightarrow> job_id \<notin> ob_id ` set t \<Longrightarrow>
    enqueue job_id ty agg payload db t = Inr (t @ [new_job job_id ty agg payload db])"
  by (auto simp: enqueue_def insert_stmt_Inr satisfies_outbox outbox_ok_def new_job_def
      outbox_row_ok_def outbox_checks)

lemma update_outbox_ok:
  assumes "outbox_ok t" and "\<And>r. p r \<Longrightarrow> ob_id (f r) = ob_id r"
    and "\<And>r. r \<in> set t \<Longrightarrow> p r \<Longrightarrow> outbox_row_ok r \<Longrightarrow> outbox_row_ok (f r)"
  shows "update_stmt outbox_constraints p f t = Inr (rowcount p t, sql_update p f t)"
  using outbox_okI_update [OF assms] by (simp add: update_stmt_Inr satisfies_outbox)

lemma publish_owned_rowcount:
  "outbox_ok t \<Longrightarrow> rowcount (publish_owned_by job_id n db) t \<le> 1"
  using rowcount_key [of ob_id t job_id "\<lambda>r. ob_published_at r = None \<and> ob_failed_at r = None \<and>
    ob_attempt_count r = n \<and> null_gt (ob_lease_expires_at r) db"]
  by (auto simp: outbox_ok_def publish_owned_by_def [abs_def] split: option.splits if_splits)

text \<open>The three closing statements of the publisher, on a table that meets its constraints.\<close>

lemma mark_published_eq:
  "outbox_ok t \<Longrightarrow> mark_published job_id n when db t =
    Inr (rowcount (publish_owned_by job_id n db) t = 1,
      sql_update (publish_owned_by job_id n db)
        (\<lambda>r. r\<lparr>ob_published_at := Some when, ob_claimed_at := None,
               ob_lease_expires_at := None, ob_last_error := None\<rparr>) t)"
  unfolding mark_published_def
  by (subst update_outbox_ok) (auto simp: publish_owned_by_def outbox_row_ok_def outbox_checks
      split: option.splits)

lemma mark_job_failed_eq:
  "outbox_ok t \<Longrightarrow> btrim_nonempty code \<Longrightarrow> mark_job_failed job_id n when code db t =
    Inr (rowcount (publish_owned_by job_id n db) t = 1,
      sql_update (publish_owned_by job_id n db)
        (\<lambda>r. r\<lparr>ob_failed_at := Some when, ob_failure_code := Some code,
               ob_claimed_at := None, ob_lease_expires_at := None, ob_last_error := None\<rparr>) t)"
  unfolding mark_job_failed_def
  by (subst update_outbox_ok) (auto simp: publish_owned_by_def outbox_row_ok_def outbox_checks
      split: option.splits)

lemma release_publish_claim_eq:
  "outbox_ok t \<Longrightarrow> release_publish_claim job_id n err db t =
    Inr (rowcount (publish_owned_by job_id n db) t = 1,
      sql_update (publish_owned_by job_id n db)
        (\<lambda>r. r\<lparr>ob_claimed_at := None, ob_lease_expires_at := None,
               ob_last_error := Some err\<rparr>) t)"
  unfolding release_publish_claim_def
  by (subst update_outbox_ok) (auto simp: publish_owned_by_def outbox_row_ok_def outbox_checks
      split: option.splits)


definition keeps_outbox :: "(job_outbox list \<Rightarrow> job_outbox list) \<Rightarrow> bool" where
  "keeps_outbox g \<longleftrightarrow> (\<forall>t. outbox_ok t \<longrightarrow> outbox_ok (g t))"

lemma owned_update_ok:
  assumes "outbox_ok t" and "\<And>r. ob_id (f r) = ob_id r"
    and "\<And>r. publish_owned_by job_id n db r \<Longrightarrow> outbox_row_ok r \<Longrightarrow> outbox_row_ok (f r)"
  shows "outbox_ok (snd (owned_transaction t (Inr (b, sql_update (publish_owned_by job_id n db) f t))))"
  using assms outbox_okI_update [of t "publish_owned_by job_id n db" f]
  by (simp add: owned_transaction_def)

lemma unknown_code_nonempty: "btrim_nonempty UNKNOWN_JOB_TYPE"
  by (simp add: btrim_nonempty_def UNKNOWN_JOB_TYPE_def)

text \<open>One job: no error is raised, the constraints survive, and exactly one counter moves.\<close>

definition handled :: "publish_report \<Rightarrow> nat" where
  "handled rep = rp_published rep + rp_dispatch_failures rep + rp_unknown_job_types rep
    + rp_unconfirmed_publications rep"

lemma publish_one_total:
  assumes "outbox_ok t"
  obtains rep' t' where "publish_one env i job rep t = (Inr rep', t')" and "outbox_ok t'"
    and "handled rep' = Suc (handled rep)" and "rp_claimed rep' = rp_claimed rep"
    and "rp_unconfirmed_terminal_failures rep \<le> rp_unknown_job_types rep \<Longrightarrow>
      rp_unconfirmed_terminal_failures rep' \<le> rp_unknown_job_types rep'"
proof -
  have "\<exists>rep' t'. publish_one env i job rep t = (Inr rep', t') \<and> outbox_ok t' \<and>
      handled rep' = Suc (handled rep) \<and> rp_claimed rep' = rp_claimed rep \<and>
      (rp_unconfirmed_terminal_failures rep \<le> rp_unknown_job_types rep \<longrightarrow>
        rp_unconfirmed_terminal_failures rep' \<le> rp_unknown_job_types rep')"
    using assms unfolding publish_one_def mark_published_eq [OF assms]
      release_publish_claim_eq [OF assms] mark_job_failed_eq [OF assms unknown_code_nonempty]
    by (auto simp: owned_transaction_def handled_def publish_owned_by_def outbox_row_ok_def
        outbox_checks unknown_code_nonempty intro!: outbox_okI_update
        split: option.splits)
  with that show ?thesis by blast
qed

lemma publish_jobs_total:
  assumes "outbox_ok t" and "\<And>i. keeps_outbox (pe_others env i)"
    and "rp_unconfirmed_terminal_failures rep \<le> rp_unknown_job_types rep"
  shows "\<exists>rep' t'. publish_jobs env i jobs rep t = (Inr rep', t') \<and> outbox_ok t' \<and>
    handled rep' = handled rep + length jobs \<and> rp_claimed rep' = rp_claimed rep \<and>
    rp_unconfirmed_terminal_failures rep' \<le> rp_unknown_job_types rep'"
  using assms(1,3)
proof (induction jobs arbitrary: i rep t)
  case (Cons job jobs)
  from assms(2) Cons.prems(1) have "outbox_ok (pe_others env i t)"
    by (simp add: keeps_outbox_def)
  then obtain rep' t' where one: "publish_one env i job rep (pe_others env i t) = (Inr rep', t')"
    "outbox_ok t'" "handled rep' = Suc (handled rep)" "rp_claimed rep' = rp_claimed rep"
    "rp_unconfirmed_terminal_failures rep' \<le> rp_unknown_job_types rep'"
    using publish_one_total [of "pe_others env i t" env i job rep] Cons.prems(2) by metis
  from Cons.IH [OF this(2,5), of "Suc i"] one show ?case by auto
qed simp

section \<open>Claiming a batch\<close>

lemma claim_publish_id [simp]: "ob_id (claim_publish now lease r) = ob_id r"
  by (simp add: claim_publish_def)

lemma claim_publish_row_ok:
  "now < lease \<Longrightarrow> publishable db r \<Longrightarrow> outbox_row_ok r \<Longrightarrow> outbox_row_ok (claim_publish now lease r)"
  by (auto simp: claim_publish_def publishable_def outbox_row_ok_def outbox_checks)

lemma candidate_ids_publishable:
  "x \<in> set (candidate_ids locked limit db t) \<Longrightarrow>
    \<exists>r \<in> set t. ob_id r = x \<and> publishable db r \<and> x \<notin> set locked"
  by (auto simp: candidate_ids_def dest!: in_set_takeD)

lemma candidate_row:
  "outbox_ok t \<Longrightarrow> r \<in> set t \<Longrightarrow> ob_id r \<in> set (candidate_ids locked limit db t) \<Longrightarrow>
    publishable db r"
  using candidate_ids_publishable [of "ob_id r" locked limit db t]
  by (auto simp: outbox_ok_def distinct_map inj_on_def)

lemma claim_batch_eq:
  assumes "outbox_ok t" and "now < lease"
  shows "claim_unpublished_batch locked limit now lease db t =
    (let p = (\<lambda>r. ob_id r \<in> set (candidate_ids locked limit db t)) in
     Inr (map (to_claimed_job \<circ> claim_publish now lease) (filter p t),
      sql_update p (claim_publish now lease) t))"
proof -
  let ?p = "\<lambda>r. ob_id r \<in> set (candidate_ids locked limit db t)"
  have "outbox_ok (sql_update ?p (claim_publish now lease) t)"
    using assms by (intro outbox_okI_update)
      (auto intro: claim_publish_row_ok candidate_row)
  then have "update_returning outbox_constraints ?p (claim_publish now lease) t =
      Inr (map (claim_publish now lease) (filter ?p t), sql_update ?p (claim_publish now lease) t)"
    by (simp add: update_returning_Inr satisfies_outbox)
  then show ?thesis by (simp add: claim_unpublished_batch_def Let_def)
qed

lemma distinct_candidate_ids: "outbox_ok t \<Longrightarrow> distinct (candidate_ids locked limit db t)"
  unfolding candidate_ids_def outbox_ok_def
  by (intro distinct_take) (simp add: distinct_map sql_select_def inj_on_def)

lemma length_claimed:
  assumes "outbox_ok t"
  shows "length (filter (\<lambda>r. ob_id r \<in> set (candidate_ids locked limit db t)) t) =
    min limit (length (filter (\<lambda>r. publishable db r \<and> ob_id r \<notin> set locked) t))"
proof -
  let ?ids = "candidate_ids locked limit db t"
  have inj: "inj_on ob_id (set t)" and dist: "distinct t"
    using assms by (auto simp: outbox_ok_def distinct_map)
  have sub: "set ?ids \<subseteq> ob_id ` set t"
    using candidate_ids_publishable by fastforce
  have "length (filter (\<lambda>r. ob_id r \<in> set ?ids) t) = card (set (filter (\<lambda>r. ob_id r \<in> set ?ids) t))"
    by (metis dist distinct_card distinct_filter)
  also have "\<dots> = card (ob_id ` set (filter (\<lambda>r. ob_id r \<in> set ?ids) t))"
    by (rule card_image [symmetric]) (auto intro: inj_on_subset [OF inj])
  also have "ob_id ` set (filter (\<lambda>r. ob_id r \<in> set ?ids) t) = set ?ids"
    using sub by auto
  also have "card (set ?ids) = length ?ids"
    by (rule distinct_card) (rule distinct_candidate_ids [OF assms])
  finally show ?thesis by (simp add: candidate_ids_def sql_select_def min.commute)
qed


lemma sort_key_take_drop:
  assumes "x \<in> set (take n (sort_key key xs))" and "y \<in> set (drop n (sort_key key xs))"
  shows "key x \<le> key y"
proof -
  have "sorted (map key (take n (sort_key key xs) @ drop n (sort_key key xs)))"
    by simp
  with assms show ?thesis by (auto simp only: map_append sorted_append set_map)
qed

lemma oldest_claimed:
  assumes ok: "outbox_ok t" and r: "r \<in> set t" "ob_id r \<in> set (candidate_ids locked limit db t)"
    and s: "s \<in> set t" "publishable db s" "ob_id s \<notin> set locked"
      "ob_id s \<notin> set (candidate_ids locked limit db t)"
  shows "(ob_created_at r, ob_id r) \<le> (ob_created_at s, ob_id s)"
proof -
  let ?key = "\<lambda>r. (ob_created_at r, ob_id r)"
  let ?c = "sort_key ?key (sql_select (\<lambda>r. publishable db r \<and> ob_id r \<notin> set locked) t)"
  have inj: "inj_on ob_id (set t)" using ok by (auto simp: outbox_ok_def distinct_map)
  have ids: "candidate_ids locked limit db t = map ob_id (take limit ?c)"
    by (simp add: candidate_ids_def take_map)
  from r(2) obtain r' where r': "r' \<in> set (take limit ?c)" "ob_id r' = ob_id r"
    by (auto simp: ids)
  moreover from r'(1) have "r' \<in> set t" by (auto dest: in_set_takeD)
  ultimately have "r' = r" using inj r(1) by (auto dest: inj_onD)
  have "s \<in> set ?c" using s by simp
  then have "s \<in> set (take limit ?c) \<or> s \<in> set (drop limit ?c)"
    by (metis Un_iff append_take_drop_id set_append)
  with s(4) have "s \<in> set (drop limit ?c)" by (auto simp: ids)
  from sort_key_take_drop [OF r'(1) this] show ?thesis by (simp only: \<open>r' = r\<close>)
qed

section \<open>Closed jobs\<close>

definition closed_kept :: "(job_outbox list \<Rightarrow> job_outbox list) \<Rightarrow> bool" where
  "closed_kept g \<longleftrightarrow> (\<forall>t j r. outbox_ok t \<longrightarrow> lookup ob_id j t = Some r \<longrightarrow> \<not> open_job r \<longrightarrow>
    lookup ob_id j (g t) = Some r \<and> outbox_ok (g t))"

lemma closed_kept_update:
  assumes "lookup ob_id j t = Some r" and "\<not> open_job r"
    and "\<And>r. p r \<Longrightarrow> ob_id (f r) = ob_id r" and "r \<in> set t \<Longrightarrow> p r \<Longrightarrow> open_job r"
  shows "lookup ob_id j (sql_update p f t) = Some r"
  using assms lookup_SomeD [OF assms(1)] by (subst lookup_sql_update) auto

lemma outbox_exec_ok: "outbox_ok t \<Longrightarrow> outbox_ok (outbox_exec op t)"
  by (cases op) (auto simp: enqueue_def discard_pending_for_aggregate_def
      claim_unpublished_batch_def mark_published_def mark_job_failed_def
      release_publish_claim_def Let_def db_after_def and_then_Inr_iff stmt_iffs satisfies_outbox
      split: sum.splits)

lemma outbox_exec_closed:
  assumes "outbox_ok t" and "lookup ob_id j t = Some r" and "\<not> open_job r"
  shows "lookup ob_id j (outbox_exec op t) = Some r"
proof -
  have cand: "open_job r" if "ob_id r \<in> set (candidate_ids locked limit db t)" for locked limit db
    using candidate_row [OF assms(1) _ that] lookup_SomeD [OF assms(2)]
    by (auto simp: publishable_def open_job_def)
  show ?thesis
    using assms(2,3) cand
    by (cases op) (auto simp: enqueue_def discard_pending_for_aggregate_def
        claim_unpublished_batch_def mark_published_def mark_job_failed_def
        release_publish_claim_def Let_def db_after_def and_then_Inr_iff stmt_iffs lookup_append
        pending_for_def publish_owned_by_def open_job_def split: sum.splits
        intro!: closed_kept_update)
qed

lemma run_outbox_closed:
  "outbox_ok t \<Longrightarrow> lookup ob_id j t = Some r \<Longrightarrow> \<not> open_job r \<Longrightarrow>
    lookup ob_id j (fold outbox_exec ops t) = Some r \<and> outbox_ok (fold outbox_exec ops t)"
  by (induction ops arbitrary: t) (simp_all add: outbox_exec_ok outbox_exec_closed)

section \<open>Properties\<close>

definition sample_job :: "uuid \<Rightarrow> datetime \<Rightarrow> job_outbox" where
  "sample_job j created = new_job j PROCESS_INGESTION_ITEM 7 (JObj []) created"

text \<open>
  C7. The publisher accounts for every job it claims. On a table that meets its constraints,
  with a positive lease and other processes that keep the constraints, \<open>publish_pending\<close>
  raises no error whatever the broker answers, leaves the constraints intact, and its report
  adds up: claimed = published + dispatch failures + unknown types + unconfirmed publications.
\<close>

theorem publish_pending_accounts:
  assumes "outbox_ok t" and "0 < lease_duration" and "\<And>i. keeps_outbox (pe_others env i)"
  shows "\<exists>rep t'. publish_pending env locked lease_duration limit t = (Inr rep, t') \<and> outbox_ok t' \<and>
    rp_claimed rep = rp_published rep + rp_dispatch_failures rep + rp_unknown_job_types rep
      + rp_unconfirmed_publications rep \<and>
    rp_claimed rep = min limit (rowcount (\<lambda>r. publishable (pe_db_clock env 0) r \<and> ob_id r \<notin> set locked) t) \<and>
    rp_unconfirmed_terminal_failures rep \<le> rp_unknown_job_types rep"
proof -
  let ?db = "pe_db_clock env 0" and ?now = "pe_clock env 0"
  let ?p = "\<lambda>r. ob_id r \<in> set (candidate_ids locked limit ?db t)"
  let ?f = "claim_publish ?now (?now + lease_duration)"
  define jobs where "jobs = map (to_claimed_job \<circ> ?f) (filter ?p t)"
  define t1 where "t1 = (if jobs \<noteq> [] then sql_update ?p ?f t else t)"
  have claim: "publish_claim env locked lease_duration limit t = Inr (jobs, t1)"
    using assms(2) by (simp add: publish_claim_def claim_batch_eq [OF assms(1)] jobs_def t1_def Let_def)
  have "outbox_ok (sql_update ?p ?f t)"
    using assms(1,2) by (intro outbox_okI_update) (auto intro: claim_publish_row_ok candidate_row)
  with assms(1) have "outbox_ok t1" by (simp add: t1_def)
  from publish_jobs_total [OF this assms(3), of "empty_report (length jobs)" 1 jobs]
  obtain rep t' where "publish_jobs env 1 jobs (empty_report (length jobs)) t1 = (Inr rep, t')"
    "outbox_ok t'" "handled rep = length jobs" "rp_claimed rep = length jobs"
    "rp_unconfirmed_terminal_failures rep \<le> rp_unknown_job_types rep"
    by (auto simp: empty_report_def handled_def)
  moreover have "length jobs = min limit (rowcount (\<lambda>r. publishable ?db r \<and> ob_id r \<notin> set locked) t)"
    by (simp add: jobs_def length_claimed [OF assms(1)] rowcount_def)
  ultimately show ?thesis by (simp add: publish_pending_def claim handled_def)
qed

definition sample_env :: publish_env where
  "sample_env = \<lparr>pe_clock = (\<lambda>i. 100 + int i), pe_db_clock = (\<lambda>i. 100 + int i),
    pe_dispatch = (\<lambda>i _ _. if i = 1 then Some ''OperationalError'' else None),
    pe_others = (\<lambda>_ t. t)\<rparr>"

theorem publish_pending_accounts_witness:
  "\<exists>rep t'. publish_pending sample_env [] 30 1 [sample_job 1 10, sample_job 2 5] = (Inr rep, t') \<and>
    rp_claimed rep = 1"
proof -
  have ok: "outbox_ok [sample_job 1 10, sample_job 2 5]"
    by (simp add: outbox_ok_def outbox_row_ok_def outbox_checks sample_job_def new_job_def)
  have env: "keeps_outbox (pe_others sample_env i)" for i
    by (simp add: keeps_outbox_def sample_env_def)
  from publish_pending_accounts [OF ok, of 30 sample_env "[]" 1] env
  show ?thesis
    by (auto simp: rowcount_def publishable_def sample_job_def new_job_def)
qed

text \<open>
  C8. Claiming a batch takes the oldest publishable jobs, as many as the limit allows, and
  gives each of them to this publisher alone: no claimed job is publishable again before its
  lease has expired on the database clock, and its token is the attempt count now stored.
\<close>

theorem claim_batch_exclusive:
  assumes ok: "outbox_ok t" and lease: "now < lease"
  shows "\<exists>jobs t'. claim_unpublished_batch locked limit now lease db t = Inr (jobs, t') \<and>
    length jobs = min limit (rowcount (\<lambda>r. publishable db r \<and> ob_id r \<notin> set locked) t) \<and>
    (\<forall>r \<in> set t. \<forall>s \<in> set t. ob_id r \<in> cj_id ` set jobs \<longrightarrow> publishable db s \<longrightarrow>
      ob_id s \<notin> set locked \<longrightarrow> ob_id s \<notin> cj_id ` set jobs \<longrightarrow>
      (ob_created_at r, ob_id r) \<le> (ob_created_at s, ob_id s)) \<and>
    (\<forall>job \<in> set jobs. \<exists>r. lookup ob_id (cj_id job) t' = Some r \<and>
      ob_attempt_count r = cj_attempt_number job \<and>
      (\<forall>db'. db' < lease \<longrightarrow> \<not> publishable db' r \<and> publish_owned_by (cj_id job) (cj_attempt_number job) db' r))"
proof -
  let ?ids = "set (candidate_ids locked limit db t)"
  let ?p = "\<lambda>r. ob_id r \<in> ?ids" and ?f = "claim_publish now lease"
  define jobs where "jobs = map (to_claimed_job \<circ> ?f) (filter ?p t)"
  have eq: "claim_unpublished_batch locked limit now lease db t = Inr (jobs, sql_update ?p ?f t)"
    by (simp add: claim_batch_eq [OF ok lease] jobs_def Let_def)
  have len: "length jobs = min limit (rowcount (\<lambda>r. publishable db r \<and> ob_id r \<notin> set locked) t)"
    by (simp add: jobs_def length_claimed [OF ok] rowcount_def)
  have sub: "?ids \<subseteq> ob_id ` set t" using candidate_ids_publishable by fastforce
  have "cj_id ` set jobs = ob_id ` {r \<in> set t. ?p r}"
    by (auto simp: jobs_def to_claimed_job_def image_iff)
  also from sub have "\<dots> = ?ids" by blast
  finally have ids: "cj_id ` set jobs = ?ids" .
  have fifo: "\<forall>r \<in> set t. \<forall>s \<in> set t. ob_id r \<in> cj_id ` set jobs \<longrightarrow> publishable db s \<longrightarrow>
      ob_id s \<notin> set locked \<longrightarrow> ob_id s \<notin> cj_id ` set jobs \<longrightarrow>
      (ob_created_at r, ob_id r) \<le> (ob_created_at s, ob_id s)"
    unfolding ids using oldest_claimed [OF ok] by blast
  have mine: "\<exists>r. lookup ob_id (cj_id job) (sql_update ?p ?f t) = Some r \<and>
      ob_attempt_count r = cj_attempt_number job \<and>
      (\<forall>db'. db' < lease \<longrightarrow> \<not> publishable db' r \<and> publish_owned_by (cj_id job) (cj_attempt_number job) db' r)"
    if "job \<in> set jobs" for job
  proof -
    from that obtain r where r: "r \<in> set t" "?p r" "job = to_claimed_job (?f r)"
      by (auto simp: jobs_def)
    from ok have "distinct (map ob_id t)" by (simp add: outbox_ok_def)
    from lookup_in_set [OF this r(1)] r(2)
    have "lookup ob_id (ob_id r) (sql_update ?p ?f t) = Some (?f r)"
      by (simp add: lookup_sql_update)
    with candidate_row [OF ok r(1,2)] show ?thesis
      by (auto simp: r(3) to_claimed_job_def claim_publish_def publishable_def publish_owned_by_def)
  qed
  from eq len fifo mine show ?thesis by blast
qed

theorem claim_batch_exclusive_witness:
  "\<exists>jobs t'. claim_unpublished_batch [] 1 100 130 100 [sample_job 1 10, sample_job 2 5] = Inr (jobs, t') \<and>
    length jobs = 1"
proof -
  have ok: "outbox_ok [sample_job 1 10, sample_job 2 5]"
    by (simp add: outbox_ok_def outbox_row_ok_def outbox_checks sample_job_def new_job_def)
  from claim_batch_exclusive [OF ok, of 100 130 "[]" 1 100] show ?thesis
    by (auto simp: rowcount_def publishable_def sample_job_def new_job_def)
qed

text \<open>
  A closed job is final: once a job is published or failed, no interleaving of the
  repository's statements changes its row, so it is never a candidate for publishing again.
\<close>

theorem closed_job_is_final:
  assumes "outbox_ok t" and "lookup ob_id j t = Some r" and "\<not> open_job r"
  shows "lookup ob_id j (fold outbox_exec ops t) = Some r \<and>
    j \<notin> set (candidate_ids locked limit db (fold outbox_exec ops t))"
proof -
  from run_outbox_closed [OF assms] have run: "lookup ob_id j (fold outbox_exec ops t) = Some r"
    and ok: "outbox_ok (fold outbox_exec ops t)" by simp_all
  from lookup_SomeD [OF run] have "r \<in> set (fold outbox_exec ops t)" and "ob_id r = j"
    by simp_all
  with candidate_row [OF ok this(1)] assms(3) run show ?thesis
    by (auto simp: publishable_def open_job_def)
qed

theorem closed_job_is_final_witness:
  "lookup ob_id 1 (fold outbox_exec [ClaimBatch [] 5 200 300 200, MarkPublished 1 1 210 210]
      [(sample_job 1 10)\<lparr>ob_published_at := Some 20\<rparr>]) =
    Some ((sample_job 1 10)\<lparr>ob_published_at := Some 20\<rparr>)"
proof -
  let ?r = "(sample_job 1 10)\<lparr>ob_published_at := Some 20\<rparr>"
  have "outbox_ok [?r]"
    by (simp add: outbox_ok_def outbox_row_ok_def outbox_checks sample_job_def new_job_def)
  moreover have "lookup ob_id 1 [?r] = Some ?r" and "\<not> open_job ?r"
    by (simp_all add: open_job_def sample_job_def new_job_def)
  ultimately show ?thesis using closed_job_is_final by blast
qed

text \<open>
  Discarding the waiting jobs of an aggregate while one of them is claimed by a publisher
  always raises: the statement sets \<open>failed_at\<close> but leaves the lease, which
  \<open>failed_job_has_no_lease\<close> forbids, so the retry that asked for it is rolled back.
\<close>

theorem discard_of_claimed_job_raises:
  assumes "r \<in> set t" and "pending_for ty agg r" and "ob_lease_expires_at r = Some e"
  shows "\<exists>c. discard_pending_for_aggregate ty agg failed_at code t = Inl (IntegrityError c)"
proof -
  let ?f = "\<lambda>r. r\<lparr>ob_failed_at := Some failed_at, ob_failure_code := Some code\<rparr>"
  let ?t' = "sql_update (pending_for ty agg) ?f t"
  from assms(1,2) have "?f r \<in> set ?t'" by (force simp: set_sql_update)
  moreover from assms(3) have "\<not> outbox_row_ok (?f r)"
    by (simp add: outbox_row_ok_def failed_job_has_no_lease_def)
  ultimately have bad: "\<not> satisfies outbox_constraints ?t'"
    by (auto simp: satisfies_outbox outbox_ok_def list_all_iff)
  show ?thesis
  proof (cases "sql_write outbox_constraints ?t'")
    case (Inl e)
    with sql_write_Inl [OF Inl] show ?thesis
      by (auto simp: discard_pending_for_aggregate_def update_stmt_def)
  qed (use bad in \<open>simp add: sql_write_Inr\<close>)
qed

theorem discard_of_claimed_job_raises_witness:
  "\<exists>c. discard_pending_for_aggregate PROCESS_INGESTION_ITEM 7 150 ''superseded_by_retry''
    (db_after [sample_job 1 10] (claim_unpublished_batch [] 5 100 130 100 [sample_job 1 10])) =
    Inl (IntegrityError c)"
proof -
  have ok: "outbox_ok [sample_job 1 10]"
    by (simp add: outbox_ok_def outbox_row_ok_def outbox_checks sample_job_def new_job_def)
  have "db_after [sample_job 1 10] (claim_unpublished_batch [] 5 100 130 100 [sample_job 1 10]) =
      [claim_publish 100 130 (sample_job 1 10)]"
    by (subst claim_batch_eq [OF ok])
      (simp_all add: Let_def candidate_ids_def sql_select_def sql_update_def
        publishable_def sample_job_def new_job_def)
  then show ?thesis
    by (simp only:) (rule discard_of_claimed_job_raises [where e = 130 and
        r = "claim_publish 100 130 (sample_job 1 10)"],
      simp_all add: claim_publish_def pending_for_def sample_job_def new_job_def)
qed

end
