(* ===== verification/Chunking.thy ===== *)
theory Chunking
  imports PyText
begin

text \<open>
  The chunking component: \<open>modules/ingestion/chunking\<close> (configuration, reference tokenizer,
  content hash, the two chunkers and their resolver) on the data of
  \<open>contracts/types/extraction.py\<close> and \<open>contracts/types/chunking.py\<close>.

  A tokenizer is a record of its two operations, as in \<open>contracts/chunking.py\<close>; the program
  registers one, the whitespace tokenizer. The locale \<open>emission\<close> states what an invariant of
  the drafts needs of a tokenizer and of \<open>add\<close> to be carried through both chunkers; it is
  interpreted for each invariant. SHA-256 is a parameter: nothing is assumed of it. \<open>str.encode("utf-8")\<close> raises on a lone surrogate, so the content hash,
  and with it every \<open>add\<close> of the draft builder, may raise \<open>ValueError\<close>.
\<close>

section \<open>Data\<close>

datatype value_error = ValueError string

datatype block_type = HEADING | PARAGRAPH | TABLE | LIST | CODE | OTHER

record extracted_block =
  blk_text :: pystr
  blk_type :: block_type
  blk_page :: "int option"
  blk_metadata :: json

record extracted_document =
  doc_blocks :: "extracted_block list"
  doc_metadata :: json

datatype chunk_content_type = CT_TEXT | CT_TABLE | CT_CODE | CT_MIXED

record chunk_draft =
  cd_chunk_index :: nat
  cd_content :: pystr
  cd_content_type :: chunk_content_type
  cd_section_title :: "pystr option"
  cd_section_path :: "pystr list"
  cd_page_start :: "int option"
  cd_page_end :: "int option"
  cd_language_code :: "pystr option"
  cd_token_count :: int
  cd_content_hash :: string
  cd_metadata :: json

section \<open>Configuration\<close>

datatype chunking_strategy = FIXED_TOKEN_V1 | HEADING_AWARE_V1

fun strategy_value :: "chunking_strategy \<Rightarrow> pystr" where
  "strategy_value FIXED_TOKEN_V1 = lit ''fixed_token_v1''"
| "strategy_value HEADING_AWARE_V1 = lit ''heading_aware_v1''"

definition strategy_of :: "pystr \<Rightarrow> value_error + chunking_strategy" where
  "strategy_of s =
    (if s = strategy_value FIXED_TOKEN_V1 then Inr FIXED_TOKEN_V1
     else if s = strategy_value HEADING_AWARE_V1 then Inr HEADING_AWARE_V1
     else Inl (ValueError ''not a valid ChunkingStrategy''))"

record chunking_config =
  cc_strategy :: chunking_strategy
  cc_reference_tokenizer :: pystr
  cc_reference_tokenizer_version :: pystr
  cc_max_tokens :: int
  cc_overlap_tokens :: int
  cc_preserve_tables :: bool

definition config_post_init :: "chunking_config \<Rightarrow> value_error + chunking_config" where
  "config_post_init c =
    (if cc_max_tokens c \<le> 0 then Inl (ValueError ''max_tokens must be positive'')
     else if cc_overlap_tokens c < 0 \<or> cc_max_tokens c \<le> cc_overlap_tokens c
       then Inl (ValueError ''overlap_tokens must be non-negative and less than max_tokens'')
     else if strip (cc_reference_tokenizer c) = [] \<or> strip (cc_reference_tokenizer_version c) = []
       then Inl (ValueError ''reference tokenizer identity and version are required'')
     else Inr c)"

definition required_string :: "json \<Rightarrow> string \<Rightarrow> value_error + pystr" where
  "required_string values name = (case get values name of
      Some (JStr s) \<Rightarrow>
        if strip s = [] then Inl (ValueError (name @ '' must be a non-empty string'')) else Inr s
    | _ \<Rightarrow> Inl (ValueError (name @ '' must be a non-empty string'')))"

definition required_int :: "json \<Rightarrow> string \<Rightarrow> value_error + int" where
  "required_int values name = (case get values name of
      Some (JInt i) \<Rightarrow> Inr i
    | _ \<Rightarrow> Inl (ValueError (name @ '' must be an integer'')))"

definition required_bool :: "json \<Rightarrow> string \<Rightarrow> value_error + bool" where
  "required_bool values name = (case get values name of
      Some (JBool b) \<Rightarrow> Inr b
    | _ \<Rightarrow> Inl (ValueError (name @ '' must be a boolean'')))"

definition config_from_run_configuration :: "json \<Rightarrow> value_error + chunking_config" where
  "config_from_run_configuration configuration = (case get configuration ''chunking'' of
      Some (JObj kvs) \<Rightarrow>
        (let raw = JObj kvs in
         and_then (required_string raw ''strategy'') (\<lambda>s.
         and_then (strategy_of s) (\<lambda>strategy.
         and_then (required_int raw ''max_tokens'') (\<lambda>max_tokens.
         and_then (required_int raw ''overlap_tokens'') (\<lambda>overlap_tokens.
         and_then (required_bool raw ''preserve_tables'') (\<lambda>preserve_tables.
         and_then (required_string raw ''reference_tokenizer'') (\<lambda>tokenizer.
         and_then (required_string raw ''reference_tokenizer_version'') (\<lambda>version.
         config_post_init
           \<lparr>cc_strategy = strategy, cc_reference_tokenizer = tokenizer,
            cc_reference_tokenizer_version = version, cc_max_tokens = max_tokens,
            cc_overlap_tokens = overlap_tokens, cc_preserve_tables = preserve_tables\<rparr>))))))))
    | _ \<Rightarrow> Inl (ValueError ''ingestion run configuration must contain a chunking object''))"

definition config_as_mapping :: "chunking_config \<Rightarrow> json" where
  "config_as_mapping c = JObj
    [(lit ''strategy'', JStr (strategy_value (cc_strategy c))),
     (lit ''reference_tokenizer'', JStr (cc_reference_tokenizer c)),
     (lit ''reference_tokenizer_version'', JStr (cc_reference_tokenizer_version c)),
     (lit ''max_tokens'', JInt (cc_max_tokens c)),
     (lit ''overlap_tokens'', JInt (cc_overlap_tokens c)),
     (lit ''preserve_tables'', JBool (cc_preserve_tables c))]"

definition default_chunking_config :: chunking_config where
  "default_chunking_config =
    \<lparr>cc_strategy = HEADING_AWARE_V1, cc_reference_tokenizer = lit ''whitespace'',
     cc_reference_tokenizer_version = lit ''v1'', cc_max_tokens = 512,
     cc_overlap_tokens = 64, cc_preserve_tables = True\<rparr>"

section \<open>The reference tokenizer\<close>

record reference_tokenizer =
  tok_count :: "pystr \<Rightarrow> int"
  tok_split :: "pystr \<Rightarrow> int \<Rightarrow> int \<Rightarrow> value_error + pystr list"

definition whitespace_count :: "pystr \<Rightarrow> int" where
  "whitespace_count text = int (length (tokens text))"

text \<open>
  The loop of \<open>split\<close>: a window of \<open>m\<close> tokens that advances by \<open>step\<close>. The caller has
  checked that the step is positive; the guard \<open>0 < step\<close> only serves the termination proof
  (\<open>split_loop_unfold\<close> is the loop as the code has it).
\<close>

function split_loop :: "nat \<Rightarrow> nat \<Rightarrow> pystr list \<Rightarrow> nat \<Rightarrow> pystr list" where
  "split_loop m step ts i =
    (if i < length ts \<and> 0 < step then
       (let e = min (i + m) (length ts); piece = join [32] (take (e - i) (drop i ts)) in
        if e = length ts then [piece] else piece # split_loop m step ts (i + step))
     else [])"
  by pat_completeness auto
termination
  by (relation "measure (\<lambda>(m, step, ts, i). length ts - i)") auto

definition whitespace_split :: "pystr \<Rightarrow> int \<Rightarrow> int \<Rightarrow> value_error + pystr list" where
  "whitespace_split text max_tokens overlap_tokens =
    (if max_tokens \<le> 0 then Inl (ValueError ''max_tokens must be positive'')
     else if overlap_tokens < 0 \<or> max_tokens \<le> overlap_tokens
       then Inl (ValueError ''overlap_tokens must be non-negative and less than max_tokens'')
     else (let ts = tokens text in
       if ts = [] then Inr []
       else Inr (split_loop (nat max_tokens) (nat (max_tokens - overlap_tokens)) ts 0)))"

definition whitespace_tokenizer :: reference_tokenizer where
  "whitespace_tokenizer = \<lparr>tok_count = whitespace_count, tok_split = whitespace_split\<rparr>"

section \<open>Content hash and draft builder\<close>

definition utf8_encodable :: "pystr \<Rightarrow> bool" where
  "utf8_encodable s \<longleftrightarrow> list_all (\<lambda>c. \<not> (55296 \<le> c \<and> c \<le> 57343)) s"

definition normalize_content :: "pystr \<Rightarrow> pystr" where
  "normalize_content content = join [10] (map rstrip (splitlines (strip content)))"

definition normalized_content_hash :: "(pystr \<Rightarrow> string) \<Rightarrow> pystr \<Rightarrow> value_error + string" where
  "normalized_content_hash sha256 content =
    (if utf8_encodable (normalize_content content) then Inr (sha256 (normalize_content content))
     else Inl (ValueError ''surrogates not allowed''))"

definition content_type_of :: "extracted_block list \<Rightarrow> chunk_content_type" where
  "content_type_of blocks = (let types = set (map blk_type blocks) in
    if types = {TABLE} then CT_TABLE
    else if types = {CODE} then CT_CODE
    else if TABLE \<in> types \<or> CODE \<in> types then CT_MIXED
    else CT_TEXT)"

definition block_pages :: "extracted_block list \<Rightarrow> int list" where
  "block_pages blocks = List.map_filter blk_page blocks"

record builder =
  bd_tokenizer :: reference_tokenizer
  bd_sha256 :: "pystr \<Rightarrow> string"
  bd_language_code :: "pystr option"

definition builder_add ::
  "builder \<Rightarrow> pystr \<Rightarrow> extracted_block list \<Rightarrow> pystr option \<Rightarrow> pystr list \<Rightarrow>
    chunk_content_type \<Rightarrow> chunk_draft list \<Rightarrow> value_error + chunk_draft list"
where
  "builder_add b content blocks title path ctype drafts =
    (let clean = strip content; pages = block_pages blocks in
     if clean = [] then Inr drafts
     else and_then (normalized_content_hash (bd_sha256 b) clean) (\<lambda>h.
       Inr (drafts @
         [\<lparr>cd_chunk_index = length drafts, cd_content = clean, cd_content_type = ctype,
           cd_section_title = title, cd_section_path = path,
           cd_page_start = (if pages = [] then None else Some (Min (set pages))),
           cd_page_end = (if pages = [] then None else Some (Max (set pages))),
           cd_language_code = bd_language_code b,
           cd_token_count = tok_count (bd_tokenizer b) clean, cd_content_hash = h,
           cd_metadata = JObj []\<rparr>])))"

section \<open>The chunkers\<close>

definition nonblank :: "extracted_block \<Rightarrow> bool" where
  "nonblank blk \<longleftrightarrow> strip (blk_text blk) \<noteq> []"

definition blocks_content :: "extracted_block list \<Rightarrow> pystr" where
  "blocks_content blocks = join [10, 10] (map (\<lambda>blk. strip (blk_text blk)) blocks)"

definition fixed_chunk ::
  "builder \<Rightarrow> chunking_config \<Rightarrow> extracted_document \<Rightarrow> value_error + chunk_draft list"
where
  "fixed_chunk b c doc =
    (let blocks = filter nonblank (doc_blocks doc) in
     if blocks = [] then Inr []
     else and_then (tok_split (bd_tokenizer b) (blocks_content blocks)
         (cc_max_tokens c) (cc_overlap_tokens c)) (\<lambda>pieces.
       foldM (\<lambda>piece. builder_add b piece blocks None [] (content_type_of blocks)) pieces []))"

definition emit_text_blocks ::
  "builder \<Rightarrow> chunking_config \<Rightarrow> pystr option \<Rightarrow> pystr list \<Rightarrow> extracted_block list \<Rightarrow>
    chunk_draft list \<Rightarrow> value_error + chunk_draft list"
where
  "emit_text_blocks b c title path blocks drafts =
    (if blocks = [] then Inr drafts
     else and_then (tok_split (bd_tokenizer b) (blocks_content blocks)
         (cc_max_tokens c) (cc_overlap_tokens c)) (\<lambda>pieces.
       foldM (\<lambda>piece. builder_add b piece blocks title path (content_type_of blocks))
         pieces drafts))"

definition table_lines :: "pystr \<Rightarrow> pystr list" where
  "table_lines text = map rstrip (filter (\<lambda>l. strip l \<noteq> []) (splitlines text))"

definition is_markdown_table :: "pystr list \<Rightarrow> bool" where
  "is_markdown_table ls \<longleftrightarrow> 124 \<in> set (ls ! 0) \<and> 45 \<in> set (ls ! 1) \<and> 124 \<in> set (ls ! 1)"

text \<open>The loop over the rows of a table: \<open>rows\<close> are the rows collected so far.\<close>

fun emit_rows ::
  "builder \<Rightarrow> chunking_config \<Rightarrow> (pystr \<Rightarrow> chunk_draft list \<Rightarrow> value_error + chunk_draft list) \<Rightarrow>
    pystr list \<Rightarrow> pystr list \<Rightarrow> pystr list \<Rightarrow> chunk_draft list \<Rightarrow> value_error + chunk_draft list"
where
  "emit_rows b c add header [] rows drafts =
    (if rows = [] then Inr drafts else add (join [10] (header @ rows)) drafts)"
| "emit_rows b c add header (row # rest) rows drafts =
    (let candidate = join [10] (header @ rows @ [row]) in
     if rows = [] \<and> cc_max_tokens c < tok_count (bd_tokenizer b) candidate then
       and_then (tok_split (bd_tokenizer b) candidate (cc_max_tokens c) 0) (\<lambda>pieces.
       and_then (foldM add pieces drafts) (\<lambda>drafts'.
         emit_rows b c add header rest rows drafts'))
     else if rows \<noteq> [] \<and> cc_max_tokens c < tok_count (bd_tokenizer b) candidate then
       and_then (add (join [10] (header @ rows)) drafts) (\<lambda>drafts'.
         emit_rows b c add header rest [row] drafts')
     else emit_rows b c add header rest (rows @ [row]) drafts)"

definition emit_table ::
  "builder \<Rightarrow> chunking_config \<Rightarrow> pystr option \<Rightarrow> pystr list \<Rightarrow> extracted_block \<Rightarrow>
    chunk_draft list \<Rightarrow> value_error + chunk_draft list"
where
  "emit_table b c title path blk drafts =
    (let ls = table_lines (blk_text blk) in
     if length ls < 3 \<or> \<not> is_markdown_table ls then
       emit_text_blocks b c title path [blk] drafts
     else emit_rows b c (\<lambda>piece. builder_add b piece [blk] title path CT_TABLE)
       (take 2 ls) (drop 2 ls) [] drafts)"

fun emit_pending ::
  "builder \<Rightarrow> chunking_config \<Rightarrow> pystr option \<Rightarrow> pystr list \<Rightarrow> extracted_block list \<Rightarrow>
    extracted_block list \<Rightarrow> chunk_draft list \<Rightarrow> value_error + chunk_draft list"
where
  "emit_pending b c title path [] pending drafts =
    emit_text_blocks b c title path pending drafts"
| "emit_pending b c title path (blk # blocks) pending drafts =
    (if cc_preserve_tables c \<and> blk_type blk = TABLE then
       and_then (emit_text_blocks b c title path pending drafts) (\<lambda>drafts'.
       and_then (emit_table b c title path blk drafts') (\<lambda>drafts''.
         emit_pending b c title path blocks [] drafts''))
     else emit_pending b c title path blocks (pending @ [blk]) drafts)"

definition emit_section ::
  "builder \<Rightarrow> chunking_config \<Rightarrow> pystr option \<Rightarrow> pystr list \<Rightarrow> extracted_block list \<Rightarrow>
    chunk_draft list \<Rightarrow> value_error + chunk_draft list"
where
  "emit_section b c title path blocks drafts =
    (if blocks = [] then Inr drafts
     else (let content = blocks_content blocks in
       if tok_count (bd_tokenizer b) content \<le> cc_max_tokens c
       then builder_add b content blocks title path (content_type_of blocks) drafts
       else emit_pending b c title path blocks [] drafts))"

definition heading_title :: "extracted_block \<Rightarrow> pystr option" where
  "heading_title blk = (let s = strip (blk_text blk) in if s = [] then None else Some s)"

definition title_path :: "pystr option \<Rightarrow> pystr list" where
  "title_path title = (case title of None \<Rightarrow> [] | Some t \<Rightarrow> [t])"

fun emit_blocks ::
  "builder \<Rightarrow> chunking_config \<Rightarrow> extracted_block list \<Rightarrow> extracted_block list \<Rightarrow> pystr option \<Rightarrow>
    chunk_draft list \<Rightarrow> value_error + chunk_draft list"
where
  "emit_blocks b c [] section title drafts =
    emit_section b c title (title_path title) section drafts"
| "emit_blocks b c (blk # blocks) section title drafts =
    (if blk_type blk = HEADING then
       and_then (emit_section b c title (title_path title) section drafts) (\<lambda>drafts'.
         emit_blocks b c blocks [] (heading_title blk) drafts')
     else if strip (blk_text blk) \<noteq> [] then
       emit_blocks b c blocks (section @ [blk]) title drafts
     else emit_blocks b c blocks section title drafts)"

definition heading_chunk ::
  "builder \<Rightarrow> chunking_config \<Rightarrow> extracted_document \<Rightarrow> value_error + chunk_draft list"
where
  "heading_chunk b c doc = emit_blocks b c (doc_blocks doc) [] None []"

text \<open>The resolver: a registered tokenizer by name and version, then the strategy's chunker.\<close>

definition resolve_chunker ::
  "(pystr \<times> pystr \<Rightarrow> reference_tokenizer option) \<Rightarrow> chunking_config \<Rightarrow>
    value_error + ((pystr \<Rightarrow> string) \<Rightarrow> pystr option \<Rightarrow> extracted_document \<Rightarrow>
      value_error + chunk_draft list)"
where
  "resolve_chunker tokenizers c =
    (case tokenizers (cc_reference_tokenizer c, cc_reference_tokenizer_version c) of
       None \<Rightarrow> Inl (ValueError ''configured reference tokenizer is unavailable'')
     | Some tok \<Rightarrow> Inr (\<lambda>sha256 lang doc.
         let b = \<lparr>bd_tokenizer = tok, bd_sha256 = sha256, bd_language_code = lang\<rparr> in
         (case cc_strategy c of
            FIXED_TOKEN_V1 \<Rightarrow> fixed_chunk b c doc
          | HEADING_AWARE_V1 \<Rightarrow> heading_chunk b c doc)))"

definition registered_tokenizers :: "pystr \<times> pystr \<Rightarrow> reference_tokenizer option" where
  "registered_tokenizers =
    [(lit ''whitespace'', lit ''v1'') \<mapsto> whitespace_tokenizer]"


section \<open>The windows of the tokenizer\<close>

declare split_loop.simps [simp del]

lemma split_loop_unfold:
  "0 < step \<Longrightarrow> i < length ts \<Longrightarrow> split_loop m step ts i =
    (let e = min (i + m) (length ts); piece = join [32] (take (e - i) (drop i ts)) in
     if e = length ts then [piece] else piece # split_loop m step ts (i + step))"
  by (subst split_loop.simps) simp

lemma blank_chars [simp]: "py_isspace 32" "py_isspace 10"
  by (simp_all add: py_isspace_def)

lemma tokens_window: "list_all is_token ts \<Longrightarrow> tokens (join [32] (take k (drop i ts))) = take k (drop i ts)"
  by (rule tokens_join_tokens)
    (auto simp: list_all_iff dest!: in_set_takeD in_set_dropD)

lemma split_loop_windows:
  assumes "list_all is_token ts" and "0 < step" and "i < length ts" and "step \<le> m"
  shows "split_loop m step ts i \<noteq> [] \<and>
    (\<forall>k < length (split_loop m step ts i). i + k * step < length ts \<and>
      tokens (split_loop m step ts i ! k) = take m (drop (i + k * step) ts)) \<and>
    length ts \<le> i + (length (split_loop m step ts i) - 1) * step + m"
    (is "?P i")
  using assms(3)
proof (induction "length ts - i" arbitrary: i rule: less_induct)
  case less
  note unfold = split_loop_unfold [OF assms(2) less.prems, of m]
  show ?case
  proof (cases "min (i + m) (length ts) = length ts")
    case True
    then have "take m (drop i ts) = drop i ts" and "length ts \<le> i + m" by auto
    with True less.prems tokens_window [OF assms(1), of "length ts" i] show ?thesis
      by (simp add: unfold Let_def)
  next
    case False
    then have e: "min (i + m) (length ts) = i + m" and lt: "i + m < length ts" by auto
    with assms(4) have "i + step < length ts" by simp
    with assms(2) less.prems have IH: "?P (i + step)" by (intro less.hyps) auto
    let ?r = "split_loop m step ts (i + step)"
    have eq: "split_loop m step ts i = join [32] (take m (drop i ts)) # ?r"
      using lt by (simp add: unfold e)
    from IH obtain n where n: "length ?r = Suc n" by (cases ?r) auto
    from IH n lt show ?thesis
      by (auto simp: eq nth_Cons tokens_window [OF assms(1)] algebra_simps split: nat.split)
  qed
qed


lemma split_loop_chars:
  "p \<in> set (split_loop m step ts i) \<Longrightarrow> set p \<subseteq> {32} \<union> (\<Union>w \<in> set ts. set w)"
proof (induction m step ts i rule: split_loop.induct)
  case (1 m step ts i)
  have window: "set (join [32] (take k (drop i ts))) \<subseteq> {32} \<union> (\<Union>w \<in> set ts. set w)" for k
    using join_chars [of "[32]" "take k (drop i ts)"] by (fastforce dest: in_set_dropD in_set_takeD)
  show ?case
  proof (cases "i < length ts \<and> 0 < step")
    case True
    let ?e = "min (i + m) (length ts)"
    from True 1(2) have "p = join [32] (take (?e - i) (drop i ts)) \<or>
        ?e \<noteq> length ts \<and> p \<in> set (split_loop m step ts (i + step))"
      by (subst (asm) split_loop.simps) (auto simp: Let_def split: if_splits)
    then show ?thesis using 1(1) [OF True refl refl] window by blast
  next
    case False
    with 1(2) show ?thesis by (subst (asm) split_loop.simps) auto
  qed
qed

lemma whitespace_split_chars:
  "whitespace_split s m ov = Inr ps \<Longrightarrow> p \<in> set ps \<Longrightarrow> set p \<subseteq> {32} \<union> set s"
  using split_loop_chars [of p "nat m" "nat (m - ov)" "tokens s" 0]
  by (auto simp: whitespace_split_def Let_def dest!: tokens_chars split: if_splits)

text \<open>The windows of \<open>whitespace_split\<close>, in the terms of its arguments.\<close>

lemma whitespace_split_windows:
  assumes "whitespace_split s m ov = Inr ps"
  shows "\<forall>k < length ps. k * nat (m - ov) < length (tokens s) \<and>
      tokens (ps ! k) = take (nat m) (drop (k * nat (m - ov)) (tokens s))"
    and "ps \<noteq> [] \<longleftrightarrow> tokens s \<noteq> []"
    and "length (tokens s) \<le> (length ps - 1) * nat (m - ov) + nat m"
    and "0 < m" and "0 \<le> ov" and "ov < m"
proof -
  from assms have m: "0 < m" "0 \<le> ov" "ov < m"
    by (auto simp: whitespace_split_def split: if_splits)
  have "(\<forall>k < length ps. k * nat (m - ov) < length (tokens s) \<and>
      tokens (ps ! k) = take (nat m) (drop (k * nat (m - ov)) (tokens s))) \<and>
    (ps \<noteq> [] \<longleftrightarrow> tokens s \<noteq> []) \<and> length (tokens s) \<le> (length ps - 1) * nat (m - ov) + nat m"
  proof (cases "tokens s = []")
    case True
    with assms m show ?thesis by (simp add: whitespace_split_def)
  next
    case False
    with assms m have "ps = split_loop (nat m) (nat (m - ov)) (tokens s) 0"
      by (simp add: whitespace_split_def Let_def)
    moreover have "nat (m - ov) \<le> nat m" "0 < nat (m - ov)" using m by auto
    ultimately show ?thesis
      using split_loop_windows [OF tokens_wf, of "nat (m - ov)" 0 s "nat m"] False by simp
  qed
  with m show "\<forall>k < length ps. k * nat (m - ov) < length (tokens s) \<and>
      tokens (ps ! k) = take (nat m) (drop (k * nat (m - ov)) (tokens s))"
    and "ps \<noteq> [] \<longleftrightarrow> tokens s \<noteq> []"
    and "length (tokens s) \<le> (length ps - 1) * nat (m - ov) + nat m"
    and "0 < m" and "0 \<le> ov" and "ov < m" by simp_all
qed

lemma whitespace_split_covers:
  assumes "whitespace_split s m ov = Inr ps"
  shows "(\<Union>p \<in> set ps. set (tokens p)) = set (tokens s)"
proof
  note w = whitespace_split_windows [OF assms]
  show "(\<Union>p \<in> set ps. set (tokens p)) \<subseteq> set (tokens s)"
  proof
    fix t assume "t \<in> (\<Union>p \<in> set ps. set (tokens p))"
    then obtain k where "k < length ps" "t \<in> set (tokens (ps ! k))"
      by (metis UN_E in_set_conv_nth)
    with w(1) show "t \<in> set (tokens s)" by (auto dest: in_set_takeD in_set_dropD)
  qed
  show "set (tokens s) \<subseteq> (\<Union>p \<in> set ps. set (tokens p))"
  proof
    fix t assume "t \<in> set (tokens s)"
    then obtain i where i: "i < length (tokens s)" "tokens s ! i = t" by (auto simp: in_set_conv_nth)
    define step where "step = nat (m - ov)"
    define n where "n = length ps - 1"
    from i w(2) have ps: "ps \<noteq> []" by auto
    have step: "0 < step" "step \<le> nat m" using w by (auto simp: step_def)
    define k where "k = min n (i div step)"
    have k: "k < length ps"
      using ps by (cases ps) (simp_all add: k_def n_def less_Suc_eq_le min.coboundedI1)
    have lo: "k * step \<le> i"
      by (metis div_times_less_eq_dividend k_def min.cobounded2 mult_le_mono1 order_trans)
    have hi: "i < k * step + nat m"
    proof (cases "n \<le> i div step")
      case True
      with w(3) i show ?thesis by (simp add: k_def n_def step_def)
    next
      case False
      then have "k = i div step" by (simp add: k_def)
      moreover have "i < i div step * step + step"
        using step(1) by (metis add.commute dividend_less_div_times)
      ultimately show ?thesis using step(2) by simp
    qed
    from w(1) k have "tokens (ps ! k) = take (nat m) (drop (k * step) (tokens s))"
      by (simp add: step_def)
    moreover have "take (nat m) (drop (k * step) (tokens s)) ! (i - k * step) = t"
      using lo hi i by (simp add: nth_take)
    moreover have "i - k * step < length (take (nat m) (drop (k * step) (tokens s)))"
      using lo hi i by auto
    ultimately have "t \<in> set (tokens (ps ! k))" by (metis nth_mem)
    with k show "t \<in> (\<Union>p \<in> set ps. set (tokens p))" by auto
  qed
qed


section \<open>What every emission keeps\<close>

text \<open>
  A table is safe when each of its rows, with the header, is an admissible piece: the row loop
  does not look at a row on its own once it has started a group.
\<close>

definition rows_ok :: "(pystr \<Rightarrow> bool) \<Rightarrow> pystr list \<Rightarrow> pystr list \<Rightarrow> bool" where
  "rows_ok A header rows \<longleftrightarrow> list_all (\<lambda>row. A (join [10] (header @ [row]))) rows"

definition table_ok :: "(pystr \<Rightarrow> bool) \<Rightarrow> chunking_config \<Rightarrow> extracted_block \<Rightarrow> bool" where
  "table_ok A c blk \<longleftrightarrow> (cc_preserve_tables c \<and> blk_type blk = TABLE \<longrightarrow>
    rows_ok A (take 2 (table_lines (blk_text blk))) (drop 2 (table_lines (blk_text blk))))"

lemma rows_ok_simps [simp]:
  "rows_ok A header []"
  "rows_ok A header (row # rows) \<longleftrightarrow> A (join [10] (header @ [row])) \<and> rows_ok A header rows"
  by (simp_all add: rows_ok_def)

text \<open>
  The chunkers only add drafts. The locale states an invariant \<open>I\<close> of the draft list that
  \<open>add\<close> keeps for admissible pieces (\<open>A\<close>) of admissible blocks (\<open>B\<close>), when the pieces that the tokenizer splits off, and
  whole texts within the limit, are admissible; its lemmas carry \<open>I\<close> through both chunkers.
\<close>

locale emission =
  fixes b :: builder and c :: chunking_config
    and A :: "pystr \<Rightarrow> bool" and I :: "chunk_draft list \<Rightarrow> bool" and B :: "extracted_block \<Rightarrow> bool"
  assumes add: "A p \<Longrightarrow> list_all B blks \<Longrightarrow> I ds \<Longrightarrow> builder_add b p blks title path ty ds = Inr ds' \<Longrightarrow> I ds'"
    and pieces: "tok_split (bd_tokenizer b) s (cc_max_tokens c) ov = Inr ps \<Longrightarrow> p \<in> set ps \<Longrightarrow> A p"
    and whole: "tok_count (bd_tokenizer b) s \<le> cc_max_tokens c \<Longrightarrow> A s"
begin

lemma adds:
  assumes "foldM (\<lambda>p. builder_add b p blks title path ty) ps ds = Inr ds'"
    and "list_all B blks" and "\<forall>p \<in> set ps. A p" and "I ds"
  shows "I ds'"
  by (rule foldM_invariant [OF assms(1), of I]) (use assms(2-4) add in blast)+

lemma split_adds:
  "tok_split (bd_tokenizer b) s (cc_max_tokens c) ov = Inr ps \<Longrightarrow>
    foldM (\<lambda>p. builder_add b p blks title path ty) ps ds = Inr ds' \<Longrightarrow> list_all B blks \<Longrightarrow> I ds \<Longrightarrow> I ds'"
  using adds pieces by blast

lemma fixed: "fixed_chunk b c doc = Inr ds \<Longrightarrow> list_all B (doc_blocks doc) \<Longrightarrow> I [] \<Longrightarrow> I ds"
  by (auto simp: fixed_chunk_def Let_def and_then_Inr_iff list_all_iff elim!: split_adds split: if_splits)

lemma text_blocks: "emit_text_blocks b c title path blks ds = Inr ds' \<Longrightarrow> list_all B blks \<Longrightarrow> I ds \<Longrightarrow> I ds'"
  by (auto simp: emit_text_blocks_def and_then_Inr_iff dest: split_adds split: if_splits)

lemma rows_step:
  assumes "emit_rows b c (\<lambda>p. builder_add b p blks title path ty) header todo rows ds = Inr ds'"
    and "list_all B blks"
    and "rows_ok A header todo" and "rows \<noteq> [] \<Longrightarrow> A (join [10] (header @ rows))" and "I ds"
  shows "I ds'"
  using assms
proof (induction todo arbitrary: rows ds)
  case Nil
  then show ?case by (auto dest: add split: if_splits)
next
  case (Cons row todo)
  let ?cand = "join [10] (header @ rows @ [row])"
  consider "tok_count (bd_tokenizer b) ?cand \<le> cc_max_tokens c"
    | "rows = []" "cc_max_tokens c < tok_count (bd_tokenizer b) ?cand"
    | "rows \<noteq> []" "cc_max_tokens c < tok_count (bd_tokenizer b) ?cand" by linarith
  then show ?case
  proof cases
    case 1
    then show ?thesis using Cons.prems whole [of ?cand] by (intro Cons.IH [of "rows @ [row]" ds]) auto
  next
    case 2
    with Cons.prems show ?thesis
      by (auto simp: Let_def and_then_Inr_iff dest: split_adds Cons.IH [of "[]"])
  next
    case 3
    with Cons.prems show ?thesis
      by (auto simp: Let_def and_then_Inr_iff dest: add Cons.IH [of "[row]"])
  qed
qed

lemma table: "emit_table b c title path blk ds = Inr ds' \<Longrightarrow>
    cc_preserve_tables c \<Longrightarrow> blk_type blk = TABLE \<Longrightarrow> table_ok A c blk \<Longrightarrow> B blk \<Longrightarrow> I ds \<Longrightarrow> I ds'"
  by (auto simp: emit_table_def table_ok_def Let_def dest: text_blocks rows_step split: if_splits)

lemma pending:
  "emit_pending b c title path blks pend ds = Inr ds' \<Longrightarrow> list_all (table_ok A c) blks \<Longrightarrow>
    list_all B blks \<Longrightarrow> list_all B pend \<Longrightarrow> I ds \<Longrightarrow> I ds'"
proof (induction blks arbitrary: pend ds)
  case (Cons blk blks)
  then show ?case
    by (auto simp: and_then_Inr_iff dest: text_blocks table split: if_splits)
qed (auto dest: text_blocks)

lemma sections:
  "emit_section b c title path blks ds = Inr ds' \<Longrightarrow> list_all (table_ok A c) blks \<Longrightarrow> list_all B blks \<Longrightarrow>
    I ds \<Longrightarrow> I ds'"
  by (auto simp: emit_section_def Let_def dest: pending add whole split: if_splits)

lemma blocks:
  "emit_blocks b c blks sec title ds = Inr ds' \<Longrightarrow> list_all (table_ok A c) blks \<Longrightarrow>
    list_all (table_ok A c) sec \<Longrightarrow> list_all B blks \<Longrightarrow> list_all B sec \<Longrightarrow> I ds \<Longrightarrow> I ds'"
proof (induction blks arbitrary: sec title ds)
  case (Cons blk blks)
  then show ?case
    by (auto simp: and_then_Inr_iff dest: sections split: if_splits)
qed (auto dest: sections)

lemma heading:
  "heading_chunk b c doc = Inr ds \<Longrightarrow> list_all (table_ok A c) (doc_blocks doc) \<Longrightarrow> list_all B (doc_blocks doc) \<Longrightarrow>
    I [] \<Longrightarrow> I ds"
  by (auto simp: heading_chunk_def dest: blocks)

end


section \<open>The drafts of a chunker\<close>

definition draft_wf :: "builder \<Rightarrow> chunk_draft \<Rightarrow> bool" where
  "draft_wf b d \<longleftrightarrow> cd_content d \<noteq> [] \<and> strip (cd_content d) = cd_content d \<and>
    cd_token_count d = tok_count (bd_tokenizer b) (cd_content d) \<and>
    normalized_content_hash (bd_sha256 b) (cd_content d) = Inr (cd_content_hash d) \<and>
    cd_language_code d = bd_language_code b \<and>
    (case (cd_page_start d, cd_page_end d) of
       (None, None) \<Rightarrow> True | (Some p, Some q) \<Rightarrow> p \<le> q | _ \<Rightarrow> False)"

definition drafts_wf :: "builder \<Rightarrow> chunk_draft list \<Rightarrow> bool" where
  "drafts_wf b ds \<longleftrightarrow> map cd_chunk_index ds = [0..<length ds] \<and> list_all (draft_wf b) ds"

lemma builder_add_wf:
  "drafts_wf b ds \<Longrightarrow> builder_add b p blks title path ty ds = Inr ds' \<Longrightarrow> drafts_wf b ds'"
  by (auto simp: builder_add_def drafts_wf_def draft_wf_def Let_def and_then_Inr_iff split: if_splits)

lemma builder_add_contents:
  "builder_add b p blks title path ty ds = Inr ds' \<Longrightarrow>
    map cd_content ds' = map cd_content ds @ (if strip p = [] then [] else [strip p])"
  by (auto simp: builder_add_def Let_def and_then_Inr_iff split: if_splits)

interpretation wf: emission b c "\<lambda>_. True" "drafts_wf b" "\<lambda>_. True" for b c
  by unfold_locales (auto intro: builder_add_wf)

definition whitespace_builder :: "(pystr \<Rightarrow> string) \<Rightarrow> pystr option \<Rightarrow> builder" where
  "whitespace_builder sha256 lang =
    \<lparr>bd_tokenizer = whitespace_tokenizer, bd_sha256 = sha256, bd_language_code = lang\<rparr>"

lemma whitespace_builder_simps [simp]:
  "tok_count (bd_tokenizer (whitespace_builder sha256 lang)) = whitespace_count"
  "tok_split (bd_tokenizer (whitespace_builder sha256 lang)) = whitespace_split"
  "bd_sha256 (whitespace_builder sha256 lang) = sha256"
  "bd_language_code (whitespace_builder sha256 lang) = lang"
  by (simp_all add: whitespace_builder_def whitespace_tokenizer_def)

definition fits :: "int \<Rightarrow> pystr \<Rightarrow> bool" where
  "fits m p \<longleftrightarrow> whitespace_count p \<le> m"

lemma whitespace_split_fits:
  assumes "whitespace_split s m ov = Inr ps" and "p \<in> set ps"
  shows "fits m p"
proof -
  from assms(2) obtain k where "k < length ps" "p = ps ! k" by (metis in_set_conv_nth)
  with whitespace_split_windows(1,4) [OF assms(1)] show ?thesis
    by (simp add: fits_def whitespace_count_def)
qed

interpretation limit: emission "whitespace_builder sha256 lang" c "fits (cc_max_tokens c)"
  "list_all (\<lambda>d. cd_token_count d \<le> cc_max_tokens c)" "\<lambda>_. True" for sha256 lang c
proof unfold_locales
  fix p blks title path ty and ds ds' :: "chunk_draft list"
  let ?I = "list_all (\<lambda>d. cd_token_count d \<le> cc_max_tokens c)"
  assume "fits (cc_max_tokens c) p" and "?I ds"
    and "builder_add (whitespace_builder sha256 lang) p blks title path ty ds = Inr ds'"
  then show "?I ds'"
    by (auto simp: builder_add_def Let_def and_then_Inr_iff fits_def whitespace_count_def
        split: if_splits)
qed (auto dest: whitespace_split_fits, auto simp: fits_def)


text \<open>Page numbers of drafts come from blocks: positive ones from positive ones.\<close>

definition positive_pages :: "chunk_draft \<Rightarrow> bool" where
  "positive_pages d \<longleftrightarrow> (\<forall>p. cd_page_start d = Some p \<longrightarrow> 0 < p) \<and> (\<forall>p. cd_page_end d = Some p \<longrightarrow> 0 < p)"

definition block_page_positive :: "extracted_block \<Rightarrow> bool" where
  "block_page_positive blk \<longleftrightarrow> (case blk_page blk of None \<Rightarrow> True | Some p \<Rightarrow> 0 < p)"

lemma block_pages_positive: "list_all block_page_positive blks \<Longrightarrow> p \<in> set (block_pages blks) \<Longrightarrow> 0 < p"
  by (induction blks) (auto simp: block_pages_def List.map_filter_def block_page_positive_def split: option.splits)

interpretation pages: emission b c "\<lambda>_. True" "list_all positive_pages" block_page_positive for b c
proof unfold_locales
  fix p blks title path ty and ds ds' :: "chunk_draft list"
  assume pos: "list_all block_page_positive blks" and "list_all positive_pages ds"
    and add: "builder_add b p blks title path ty ds = Inr ds'"
  moreover have "0 < Min (set (block_pages blks))" "0 < Max (set (block_pages blks))" if "block_pages blks \<noteq> []"
    using block_pages_positive [OF pos] that by simp_all
  ultimately show "list_all positive_pages ds'"
    by (auto simp: builder_add_def Let_def and_then_Inr_iff positive_pages_def split: if_splits)
qed auto

section \<open>No word is lost\<close>

definition words :: "chunk_draft list \<Rightarrow> pystr set" where
  "words ds = (\<Union>d \<in> set ds. set (tokens (cd_content d)))"

definition block_words :: "extracted_block list \<Rightarrow> pystr set" where
  "block_words blks = (\<Union>blk \<in> set blks. set (tokens (blk_text blk)))"

lemma words_Nil [simp]: "words [] = {}" "block_words [] = {}"
  by (simp_all add: words_def block_words_def)

lemma block_words_simps [simp]:
  "block_words (blk # blks) = set (tokens (blk_text blk)) \<union> block_words blks"
  "block_words (blks @ blks') = block_words blks \<union> block_words blks'"
  by (auto simp: block_words_def)

lemma words_add:
  "builder_add b p blks title path ty ds = Inr ds' \<Longrightarrow> words ds' = words ds \<union> set (tokens p)"
proof (cases "strip p = []")
  case True
  moreover assume "builder_add b p blks title path ty ds = Inr ds'"
  moreover from True have "tokens p = []" by (simp add: tokens_Nil_iff)
  ultimately show ?thesis by (simp add: builder_add_def)
next
  case False
  moreover assume "builder_add b p blks title path ty ds = Inr ds'"
  ultimately show ?thesis
    by (auto simp: builder_add_def Let_def and_then_Inr_iff words_def)
qed

lemma words_adds:
  "foldM (\<lambda>p. builder_add b p blks title path ty) ps ds = Inr ds' \<Longrightarrow>
    words ds' = words ds \<union> (\<Union>p \<in> set ps. set (tokens p))"
  by (induction ps arbitrary: ds) (auto simp: and_then_Inr_iff dest!: words_add)

lemma tokens_blocks_content: "tokens (blocks_content blks) = concat (map (\<lambda>blk. tokens (blk_text blk)) blks)"
  by (simp add: blocks_content_def tokens_join comp_def)

lemma words_blocks_content: "set (tokens (blocks_content blks)) = block_words blks"
  by (auto simp: tokens_blocks_content block_words_def)

lemma words_split_adds:
  assumes "whitespace_split s m ov = Inr ps"
    and "foldM (\<lambda>p. builder_add b p blks title path ty) ps ds = Inr ds'"
  shows "words ds' = words ds \<union> set (tokens s)"
  by (simp add: words_adds [OF assms(2)] whitespace_split_covers [OF assms(1)])

lemma words_text_blocks:
  "emit_text_blocks (whitespace_builder sha256 lang) c title path blks ds = Inr ds' \<Longrightarrow>
    words ds' = words ds \<union> block_words blks"
  by (clarsimp simp: emit_text_blocks_def and_then_Inr_iff split: if_splits)
    (simp add: words_split_adds words_blocks_content)

lemma tokens_lines: "set (tokens (join [10] ls)) = (\<Union>l \<in> set ls. set (tokens l))"
  by (simp add: tokens_join)

lemma words_rows:
  "emit_rows (whitespace_builder sha256 lang) c
      (\<lambda>p. builder_add (whitespace_builder sha256 lang) p blks title path ty) header todo rows ds =
      Inr ds' \<Longrightarrow> rows @ todo \<noteq> [] \<Longrightarrow>
    words ds' = words ds \<union> (\<Union>l \<in> set (header @ rows @ todo). set (tokens l))"
proof (induction todo arbitrary: rows ds)
  case Nil
  then show ?case by (simp add: words_add tokens_lines)
next
  case (Cons row todo)
  show ?case
  proof (cases "whitespace_count (join [10] (header @ rows @ [row])) \<le> cc_max_tokens c")
    case True
    with Cons.prems Cons.IH [of "rows @ [row]" ds] show ?thesis by (auto simp: Let_def)
  next
    case big: False
    show ?thesis
    proof (cases "rows = []")
      case True
      with big Cons.prems obtain ps ds1
        where "whitespace_split (join [10] (header @ [row])) (cc_max_tokens c) 0 = Inr ps"
          and "foldM (\<lambda>p. builder_add (whitespace_builder sha256 lang) p blks title path ty) ps ds = Inr ds1"
          and rest: "emit_rows (whitespace_builder sha256 lang) c
            (\<lambda>p. builder_add (whitespace_builder sha256 lang) p blks title path ty) header todo [] ds1 = Inr ds'"
        by (auto simp: Let_def and_then_Inr_iff)
      from words_split_adds [OF this(1,2)]
      have "words ds1 = words ds \<union> (\<Union>l \<in> set (header @ [row]). set (tokens l))"
        by (simp only: tokens_lines)
      with Cons.IH [OF rest] rest True show ?thesis
        by (cases todo) auto
    next
      case False
      with big Cons.prems obtain ds1
        where add: "builder_add (whitespace_builder sha256 lang) (join [10] (header @ rows)) blks title path ty ds = Inr ds1"
          and rest: "emit_rows (whitespace_builder sha256 lang) c
            (\<lambda>p. builder_add (whitespace_builder sha256 lang) p blks title path ty) header todo [row] ds1 = Inr ds'"
        by (auto simp: Let_def and_then_Inr_iff)
      from Cons.IH [OF rest] show ?thesis by (simp add: words_add [OF add] tokens_lines) blast
    qed
  qed
qed

lemma table_lines_tokens: "(\<Union>l \<in> set (table_lines t). set (tokens l)) = set (tokens t)"
proof -
  have "(\<Union>l \<in> set (table_lines t). set (tokens l)) = (\<Union>l \<in> set (splitlines t). set (tokens l))"
    by (auto simp: table_lines_def) (metis empty_iff list.set(1) tokens_Nil_iff)
  also have "\<dots> = set (concat (map tokens (splitlines t)))" by simp
  also have "\<dots> = set (tokens t)" by (simp only: splitlines_tokens)
  finally show ?thesis .
qed

lemma words_table:
  assumes "emit_table (whitespace_builder sha256 lang) c title path blk ds = Inr ds'"
  shows "words ds' = words ds \<union> set (tokens (blk_text blk))"
proof -
  let ?ls = "table_lines (blk_text blk)"
  show ?thesis
  proof (cases "length ?ls < 3 \<or> \<not> is_markdown_table ?ls")
    case True
    with assms show ?thesis by (simp add: emit_table_def Let_def words_text_blocks)
  next
    case False
    then have rows: "[] @ drop 2 ?ls \<noteq> []" by simp
    from False assms have "emit_rows (whitespace_builder sha256 lang) c
        (\<lambda>p. builder_add (whitespace_builder sha256 lang) p [blk] title path CT_TABLE)
        (take 2 ?ls) (drop 2 ?ls) [] ds = Inr ds'"
      by (simp add: emit_table_def Let_def)
    from words_rows [OF this rows] show ?thesis
      by (simp only: append_Nil append_take_drop_id table_lines_tokens)
  qed
qed

lemma words_pending:
  "emit_pending (whitespace_builder sha256 lang) c title path blks pend ds = Inr ds' \<Longrightarrow>
    words ds' = words ds \<union> block_words pend \<union> block_words blks"
proof (induction blks arbitrary: pend ds)
  case (Cons blk blks)
  then show ?case
    by (clarsimp simp: and_then_Inr_iff words_text_blocks words_table Un_assoc split: if_splits)
qed (simp add: words_text_blocks)

lemma words_section:
  "emit_section (whitespace_builder sha256 lang) c title path blks ds = Inr ds' \<Longrightarrow>
    words ds' = words ds \<union> block_words blks"
  by (simp add: emit_section_def Let_def words_blocks_content words_pending words_add
      split: if_splits)

lemma words_blocks:
  "emit_blocks (whitespace_builder sha256 lang) c blks sec title ds = Inr ds' \<Longrightarrow>
    words ds' = words ds \<union> block_words sec \<union>
      block_words (filter (\<lambda>blk. blk_type blk \<noteq> HEADING) blks)"
proof (induction blks arbitrary: sec title ds)
  case (Cons blk blks)
  have "set (tokens (blk_text blk)) = {}" if "strip (blk_text blk) = []"
    using that by (simp add: tokens_Nil_iff)
  with Cons show ?case
    by (clarsimp simp: and_then_Inr_iff words_section Un_assoc split: if_splits) blast?
qed (simp add: words_section)


section \<open>Encodable documents are chunked\<close>

lemma utf8_encodable_iff: "utf8_encodable s \<longleftrightarrow> (\<forall>c \<in> set s. \<not> (55296 \<le> c \<and> c \<le> 57343))"
  by (auto simp: utf8_encodable_def list_all_iff)

lemma utf8_encodable_subset:
  "set s \<subseteq> {10, 32} \<union> (\<Union>t \<in> T. set t) \<Longrightarrow> (\<And>t. t \<in> T \<Longrightarrow> utf8_encodable t) \<Longrightarrow> utf8_encodable s"
  by (fastforce simp: utf8_encodable_iff)

lemma normalize_encodable: "utf8_encodable s \<Longrightarrow> utf8_encodable (normalize_content s)"
proof (rule utf8_encodable_subset [where T = "{s}"])
  have "set (rstrip l) \<subseteq> set s" if "l \<in> set (splitlines (strip s))" for l
    using rstrip_chars splitlines_chars [OF that] strip_chars by blast
  then show "set (normalize_content s) \<subseteq> {10, 32} \<union> (\<Union>t \<in> {s}. set t)"
    using join_chars [of "[10]" "map rstrip (splitlines (strip s))"]
    by (fastforce simp: normalize_content_def)
qed simp

lemma builder_add_total:
  assumes "utf8_encodable p"
  shows "\<exists>ds'. builder_add b p blks title path ty ds = Inr ds'"
proof -
  from assms have "utf8_encodable (strip p)"
    using strip_chars by (fastforce simp: utf8_encodable_iff)
  then have "\<exists>h. normalized_content_hash (bd_sha256 b) (strip p) = Inr h"
    by (simp add: normalized_content_hash_def normalize_encodable)
  then show ?thesis by (auto simp: builder_add_def Let_def)
qed

definition limits_ok :: "chunking_config \<Rightarrow> bool" where
  "limits_ok c \<longleftrightarrow> 0 < cc_max_tokens c \<and> 0 \<le> cc_overlap_tokens c \<and> cc_overlap_tokens c < cc_max_tokens c"

lemma config_post_init_limits: "config_post_init c = Inr c' \<Longrightarrow> limits_ok c \<and> c' = c"
  by (auto simp: config_post_init_def limits_ok_def split: if_splits)

lemma split_adds_total:
  assumes "utf8_encodable s" and "0 < m" and "0 \<le> ov" and "ov < m"
  shows "\<exists>ps ds'. whitespace_split s m ov = Inr ps \<and>
    foldM (\<lambda>p. builder_add b p blks title path ty) ps ds = Inr ds'"
proof -
  from assms have "\<exists>ps. whitespace_split s m ov = Inr ps"
    by (simp add: whitespace_split_def Let_def)
  then obtain ps where ps: "whitespace_split s m ov = Inr ps" by blast
  have "\<exists>ds'. builder_add b p blks title path ty ds = Inr ds'" if "p \<in> set ps" for p ds
    using utf8_encodable_subset [of p "{s}"] whitespace_split_chars [OF ps that] assms(1)
    by (intro builder_add_total) auto
  from foldM_total [of "\<lambda>_. True" ds ps "\<lambda>p. builder_add b p blks title path ty"] this ps
  show ?thesis by auto
qed

lemma blocks_content_encodable:
  assumes "\<forall>blk \<in> set blks. utf8_encodable (blk_text blk)"
  shows "utf8_encodable (blocks_content blks)"
proof (rule utf8_encodable_subset [where T = "blk_text ` set blks"])
  show "set (blocks_content blks) \<subseteq> {10, 32} \<union> (\<Union>t \<in> blk_text ` set blks. set t)"
    using join_chars [of "[10, 10]" "map (\<lambda>blk. strip (blk_text blk)) blks"] strip_chars
    by (fastforce simp: blocks_content_def)
qed (use assms in auto)

lemma text_blocks_total:
  assumes "limits_ok c" and "\<forall>blk \<in> set blks. utf8_encodable (blk_text blk)"
  shows "\<exists>ds'. emit_text_blocks (whitespace_builder sha256 lang) c title path blks ds = Inr ds'"
proof -
  from split_adds_total [OF blocks_content_encodable [OF assms(2)], of "cc_max_tokens c"
      "cc_overlap_tokens c" "whitespace_builder sha256 lang" blks title path "content_type_of blks" ds]
    assms(1)
  show ?thesis by (auto simp: emit_text_blocks_def limits_ok_def)
qed

lemma lines_encodable: "\<forall>l \<in> set ls. utf8_encodable l \<Longrightarrow> utf8_encodable (join [10] ls)"
  by (rule utf8_encodable_subset [where T = "set ls"]) (use join_chars [of "[10]" ls] in auto)

lemma rows_total:
  assumes "limits_ok c" and "\<forall>l \<in> set (header @ rows @ todo). utf8_encodable l"
  shows "\<exists>ds'. emit_rows (whitespace_builder sha256 lang) c
      (\<lambda>p. builder_add b p blks title path ty) header todo rows ds = Inr ds'"
  using assms(2)
proof (induction todo arbitrary: rows ds)
  case Nil
  then show ?case by (auto intro!: builder_add_total lines_encodable)
next
  case (Cons row todo)
  have enc: "utf8_encodable (join [10] (header @ rows @ [row]))" "utf8_encodable (join [10] (header @ rows))"
    using Cons.prems by (auto intro!: lines_encodable)
  from split_adds_total [OF enc(1), of "cc_max_tokens c" 0 b blks title path ty ds] assms(1)
  have split: "\<exists>ps ds'. whitespace_split (join [10] (header @ rows @ [row])) (cc_max_tokens c) 0 = Inr ps \<and>
      foldM (\<lambda>p. builder_add b p blks title path ty) ps ds = Inr ds'"
    by (simp add: limits_ok_def)
  from builder_add_total [OF enc(2)]
  have add: "\<exists>ds'. builder_add b (join [10] (header @ rows)) blks title path ty ds = Inr ds'" .
  have IH: "\<exists>ds'. emit_rows (whitespace_builder sha256 lang) c
      (\<lambda>p. builder_add b p blks title path ty) header todo rows' ds1 = Inr ds'"
    if "set rows' \<subseteq> set (rows @ [row])" for rows' ds1
    using that Cons.prems by (intro Cons.IH) auto
  from split add show ?case using IH by (auto simp: Let_def and_then_Inr_iff) 
qed


lemma table_lines_chars: "l \<in> set (table_lines t) \<Longrightarrow> set l \<subseteq> set t"
  by (auto simp: table_lines_def dest!: rstrip_chars [THEN subsetD] splitlines_chars)

lemma table_lines_encodable:
  "utf8_encodable t \<Longrightarrow> l \<in> set (table_lines t) \<Longrightarrow> utf8_encodable l"
  using table_lines_chars by (fastforce simp: utf8_encodable_iff)

lemma table_total:
  assumes "limits_ok c" and "utf8_encodable (blk_text blk)"
  shows "\<exists>ds'. emit_table (whitespace_builder sha256 lang) c title path blk ds = Inr ds'"
proof -
  let ?ls = "table_lines (blk_text blk)"
  have "\<forall>l \<in> set (take 2 ?ls @ [] @ drop 2 ?ls). utf8_encodable l"
    using table_lines_encodable [OF assms(2)] by simp
  from rows_total [OF assms(1) this] text_blocks_total [OF assms(1), of "[blk]"] assms(2)
  show ?thesis by (auto simp: emit_table_def Let_def)
qed

lemma pending_total:
  assumes "limits_ok c" and "\<forall>blk \<in> set (pend @ blks). utf8_encodable (blk_text blk)"
  shows "\<exists>ds'. emit_pending (whitespace_builder sha256 lang) c title path blks pend ds = Inr ds'"
  using assms(2)
proof (induction blks arbitrary: pend ds)
  case (Cons blk blks)
  from Cons.prems text_blocks_total [OF assms(1), of pend sha256 lang title path ds]
  obtain ds1 where "emit_text_blocks (whitespace_builder sha256 lang) c title path pend ds = Inr ds1"
    by auto
  moreover from Cons.prems table_total [OF assms(1), of blk sha256 lang title path ds1]
  obtain ds2 where "emit_table (whitespace_builder sha256 lang) c title path blk ds1 = Inr ds2" by auto
  ultimately show ?case using Cons.prems Cons.IH [of "pend @ [blk]" ds] Cons.IH [of "[]" ds2] by simp
qed (use text_blocks_total [OF assms(1)] in simp)

lemma section_total:
  assumes "limits_ok c" and "\<forall>blk \<in> set blks. utf8_encodable (blk_text blk)"
  shows "\<exists>ds'. emit_section (whitespace_builder sha256 lang) c title path blks ds = Inr ds'"
  using pending_total [OF assms(1), of "[]" blks] assms(2)
    builder_add_total [OF blocks_content_encodable [OF assms(2)]]
  by (simp add: emit_section_def Let_def)

lemma blocks_total:
  assumes "limits_ok c" and "\<forall>blk \<in> set (sec @ blks). utf8_encodable (blk_text blk)"
  shows "\<exists>ds'. emit_blocks (whitespace_builder sha256 lang) c blks sec title ds = Inr ds'"
  using assms(2)
proof (induction blks arbitrary: sec title ds)
  case (Cons blk blks)
  from Cons.prems section_total [OF assms(1), of sec sha256 lang title "title_path title" ds]
  obtain ds1 where "emit_section (whitespace_builder sha256 lang) c title (title_path title) sec ds = Inr ds1"
    by auto
  with Cons.prems Cons.IH [of "[]" "heading_title blk" ds1] Cons.IH [of "sec @ [blk]" title ds]
    Cons.IH [of sec title ds]
  show ?case by simp
qed (use section_total [OF assms(1)] in simp)

lemma fixed_total:
  assumes "limits_ok c" and "\<forall>blk \<in> set (doc_blocks doc). utf8_encodable (blk_text blk)"
  shows "\<exists>ds. fixed_chunk (whitespace_builder sha256 lang) c doc = Inr ds"
proof -
  let ?bs = "filter nonblank (doc_blocks doc)"
  from assms(2) have "\<forall>blk \<in> set ?bs. utf8_encodable (blk_text blk)" by simp
  from split_adds_total [OF blocks_content_encodable [OF this], of "cc_max_tokens c"
      "cc_overlap_tokens c" "whitespace_builder sha256 lang" ?bs None "[]" "content_type_of ?bs" "[]"]
    assms(1)
  show ?thesis by (auto simp: fixed_chunk_def Let_def limits_ok_def)
qed


section \<open>The registered chunkers\<close>

lemma resolve_registered:
  assumes "resolve_chunker registered_tokenizers c = Inr chunk"
  shows "chunk sha256 lang doc =
    (case cc_strategy c of FIXED_TOKEN_V1 \<Rightarrow> fixed_chunk (whitespace_builder sha256 lang) c doc
     | HEADING_AWARE_V1 \<Rightarrow> heading_chunk (whitespace_builder sha256 lang) c doc)"
  using assms
  by (auto simp: resolve_chunker_def registered_tokenizers_def whitespace_builder_def Let_def
      split: option.splits if_splits chunking_strategy.split)

text \<open>The blocks whose text goes into chunks: a heading only names its section.\<close>

definition body_blocks :: "chunking_config \<Rightarrow> extracted_document \<Rightarrow> extracted_block list" where
  "body_blocks c doc = (case cc_strategy c of
      FIXED_TOKEN_V1 \<Rightarrow> doc_blocks doc
    | HEADING_AWARE_V1 \<Rightarrow> filter (\<lambda>blk. blk_type blk \<noteq> HEADING) (doc_blocks doc))"

lemma fixed_words:
  assumes "fixed_chunk (whitespace_builder sha256 lang) c doc = Inr ds"
  shows "words ds = block_words (doc_blocks doc)"
proof -
  let ?bs = "filter nonblank (doc_blocks doc)"
  have "block_words (doc_blocks doc) = block_words ?bs"
    by (auto simp: block_words_def nonblank_def) (metis empty_iff list.set(1) tokens_Nil_iff)
  moreover have "words ds = block_words ?bs"
  proof (cases "?bs = []")
    case False
    with assms obtain ps where "whitespace_split (blocks_content ?bs) (cc_max_tokens c) (cc_overlap_tokens c) = Inr ps"
      and "foldM (\<lambda>p. builder_add (whitespace_builder sha256 lang) p ?bs None [] (content_type_of ?bs)) ps [] = Inr ds"
      by (auto simp: fixed_chunk_def Let_def and_then_Inr_iff)
    from words_split_adds [OF this] show ?thesis by (simp add: words_blocks_content)
  qed (use assms in \<open>simp add: fixed_chunk_def\<close>)
  ultimately show ?thesis by simp
qed

lemma adds_contents:
  "foldM (\<lambda>p. builder_add b p blks title path ty) ps ds = Inr ds' \<Longrightarrow>
    \<forall>p \<in> set ps. strip p \<noteq> [] \<Longrightarrow> map cd_content ds' = map cd_content ds @ map strip ps"
  by (induction ps arbitrary: ds) (auto simp: and_then_Inr_iff dest!: builder_add_contents)

definition document_tokens :: "extracted_document \<Rightarrow> pystr list" where
  "document_tokens doc = concat (map (\<lambda>blk. tokens (blk_text blk)) (doc_blocks doc))"

lemma nonblank_tokens:
  "concat (map (\<lambda>blk. tokens (blk_text blk)) (filter nonblank blks)) =
    concat (map (\<lambda>blk. tokens (blk_text blk)) blks)"
  by (induction blks) (auto simp: nonblank_def tokens_Nil_iff [symmetric])

lemma fixed_windows:
  assumes "fixed_chunk (whitespace_builder sha256 lang) c doc = Inr ds"
  shows "\<exists>ps. map cd_content ds = map strip ps \<and>
    (\<forall>k < length ps. tokens (ps ! k) =
      take (nat (cc_max_tokens c)) (drop (k * nat (cc_max_tokens c - cc_overlap_tokens c)) (document_tokens doc))) \<and>
    length (document_tokens doc) \<le>
      (length ps - 1) * nat (cc_max_tokens c - cc_overlap_tokens c) + nat (cc_max_tokens c)"
proof (cases "filter nonblank (doc_blocks doc) = []")
  case True
  then have "document_tokens doc = []" by (simp add: document_tokens_def flip: nonblank_tokens)
  with assms True show ?thesis by (auto simp: fixed_chunk_def intro!: exI [of _ "[]"])
next
  case False
  let ?bs = "filter nonblank (doc_blocks doc)"
  from False assms obtain ps
    where ps: "whitespace_split (blocks_content ?bs) (cc_max_tokens c) (cc_overlap_tokens c) = Inr ps"
      and adds: "foldM (\<lambda>p. builder_add (whitespace_builder sha256 lang) p ?bs None []
        (content_type_of ?bs)) ps [] = Inr ds"
    by (auto simp: fixed_chunk_def Let_def and_then_Inr_iff)
  note w = whitespace_split_windows [OF ps]
  have toks: "tokens (blocks_content ?bs) = document_tokens doc"
    by (simp add: tokens_blocks_content nonblank_tokens document_tokens_def)
  have "strip p \<noteq> []" if "p \<in> set ps" for p
  proof -
    from that obtain k where "k < length ps" "p = ps ! k" by (metis in_set_conv_nth)
    with w(1,4) have "tokens p \<noteq> []" by (simp add: not_le)
    then show ?thesis by (simp add: tokens_Nil_iff)
  qed
  with adds_contents [OF adds] w show ?thesis
    unfolding toks by (intro exI [of _ ps]) auto
qed

lemma count_table_lines: "whitespace_count (join [10] (table_lines t)) = whitespace_count t"
proof -
  have "concat (map tokens (map rstrip (filter (\<lambda>l. strip l \<noteq> []) ls))) = concat (map tokens ls)" for ls
    by (induction ls) (auto simp: tokens_Nil_iff [symmetric])
  then show ?thesis
    by (simp add: whitespace_count_def tokens_join table_lines_def splitlines_tokens del: map_map)
qed

lemma builder_add_one:
  assumes "utf8_encodable p" and "strip p \<noteq> []"
  shows "\<exists>d. builder_add (whitespace_builder sha256 lang) p blks title path ty ds = Inr (ds @ [d]) \<and>
    cd_content d = strip p \<and> cd_token_count d = whitespace_count p"
  using builder_add_total [OF assms(1), of "whitespace_builder sha256 lang" blks title path ty ds] assms(2)
  by (auto simp: builder_add_def Let_def and_then_Inr_iff whitespace_count_def)

lemma strip_not_blank: "c \<in> set s \<Longrightarrow> \<not> py_isspace c \<Longrightarrow> strip s \<noteq> []"
  by (auto simp: strip_blank_iff list_all_iff)

section \<open>Properties\<close>

definition sample_block :: "block_type \<Rightarrow> pystr \<Rightarrow> extracted_block" where
  "sample_block ty t = \<lparr>blk_text = t, blk_type = ty, blk_page = Some 1, blk_metadata = JObj []\<rparr>"

definition sample_document :: extracted_document where
  "sample_document = \<lparr>doc_blocks = [sample_block HEADING [72], sample_block PARAGRAPH [97, 32, 98, 32, 99]],
    doc_metadata = JObj []\<rparr>"

definition sample_config :: "chunking_strategy \<Rightarrow> chunking_config" where
  "sample_config strategy = default_chunking_config
    \<lparr>cc_strategy := strategy, cc_max_tokens := 2, cc_overlap_tokens := 1\<rparr>"

lemma sample_resolves: "\<exists>chunk. resolve_chunker registered_tokenizers (sample_config st) = Inr chunk"
  by (simp add: resolve_chunker_def registered_tokenizers_def sample_config_def default_chunking_config_def)

lemma sample_limits: "limits_ok (sample_config st)"
  by (simp add: limits_ok_def sample_config_def)

lemma sample_encodable: "list_all (\<lambda>blk. utf8_encodable (blk_text blk)) (doc_blocks sample_document)"
  by (simp add: sample_document_def sample_block_def utf8_encodable_def)

lemma sample_words: "block_words (body_blocks (sample_config st) sample_document) \<noteq> {}"
  by (cases st) (simp_all add: body_blocks_def sample_config_def sample_document_def sample_block_def
      tokens_def py_isspace_def)

lemma sample_chunked:
  "\<exists>chunk ds. resolve_chunker registered_tokenizers (sample_config st) = Inr chunk \<and>
    chunk sha256 lang sample_document = Inr ds"
proof -
  obtain chunk where chunk: "resolve_chunker registered_tokenizers (sample_config st) = Inr chunk"
    using sample_resolves by blast
  have enc: "\<forall>blk \<in> set (doc_blocks sample_document). utf8_encodable (blk_text blk)"
    using sample_encodable by (simp add: list_all_iff)
  then have enc': "\<forall>blk \<in> set ([] @ doc_blocks sample_document). utf8_encodable (blk_text blk)"
    by simp
  have "\<exists>ds. chunk sha256 lang sample_document = Inr ds"
    using fixed_total [OF sample_limits [of st] enc, of sha256 lang]
      blocks_total [OF sample_limits [of st] enc', of sha256 lang None "[]"]
    by (cases st) (simp_all add: resolve_registered [OF chunk] heading_chunk_def sample_config_def)
  with chunk show ?thesis by blast
qed

lemma resolved_total:
  assumes "config_post_init c = Inr c" and "resolve_chunker registered_tokenizers c = Inr chunk"
    and "list_all (\<lambda>blk. utf8_encodable (blk_text blk)) (doc_blocks doc)"
  shows "\<exists>ds. chunk sha256 lang doc = Inr ds"
proof -
  from assms(1) have limits: "limits_ok c" by (simp add: config_post_init_limits)
  from assms(3) have enc: "\<forall>blk \<in> set (doc_blocks doc). utf8_encodable (blk_text blk)"
    by (simp add: list_all_iff)
  show ?thesis
    using fixed_total [OF limits enc, of sha256 lang]
      blocks_total [OF limits, of "[]" "doc_blocks doc" sha256 lang None "[]"] enc
    by (cases "cc_strategy c") (simp_all add: resolve_registered [OF assms(2)] heading_chunk_def)
qed


text \<open>
  C11. Chunking is total: with a configuration that validation accepts and a registered
  tokenizer, a document whose text can be encoded in UTF-8 is always chunked, by either
  strategy; no input makes the splitter or the draft builder raise.
\<close>

theorem chunking_total:
  assumes "config_post_init c = Inr c" and "resolve_chunker registered_tokenizers c = Inr chunk"
    and "list_all (\<lambda>blk. utf8_encodable (blk_text blk)) (doc_blocks doc)"
  shows "\<exists>ds. chunk sha256 lang doc = Inr ds"
  using assms by (rule resolved_total)

theorem chunking_total_witness:
  "\<exists>chunk ds. resolve_chunker registered_tokenizers (sample_config HEADING_AWARE_V1) = Inr chunk \<and>
    chunk (\<lambda>_. ''h'') None sample_document = Inr ds"
proof -
  have "config_post_init (sample_config HEADING_AWARE_V1) = Inr (sample_config HEADING_AWARE_V1)"
    by (simp add: config_post_init_def sample_config_def default_chunking_config_def strip_blank_iff
        lit_def py_isspace_def)
  with chunking_total sample_encodable sample_resolves show ?thesis by blast
qed

lemma resolved_wf:
  assumes "resolve_chunker registered_tokenizers c = Inr chunk" and "chunk sha256 lang doc = Inr ds"
  shows "drafts_wf (whitespace_builder sha256 lang) ds"
proof -
  have nil: "drafts_wf b []" for b by (simp add: drafts_wf_def)
  have tab: "list_all (table_ok (\<lambda>_. True) c) blks" for blks
    by (auto simp: list_all_iff table_ok_def rows_ok_def)
  from assms(2) show ?thesis
    using wf.fixed [OF _ _ nil] wf.heading [OF _ tab _ nil]
    by (auto simp: resolve_registered [OF assms(1)] split: chunking_strategy.splits)
qed


lemma resolved_pages:
  assumes "resolve_chunker registered_tokenizers c = Inr chunk" and "chunk sha256 lang doc = Inr ds"
    and "list_all block_page_positive (doc_blocks doc)"
  shows "list_all positive_pages ds"
proof -
  have tab: "list_all (table_ok (\<lambda>_. True) c) blks" for blks
    by (auto simp: list_all_iff table_ok_def rows_ok_def)
  from assms(2) show ?thesis
    using pages.fixed [OF _ assms(3)] pages.heading [OF _ tab assms(3)]
    by (auto simp: resolve_registered [OF assms(1)] split: chunking_strategy.splits)
qed

text \<open>
  Chunk drafts are well formed. Whatever the registered chunker returns, the drafts are
  numbered 0, 1, 2, ... without gaps; each has non-blank stripped content, the token count and
  the content hash of exactly that content, the run's language, and a page range in order.
\<close>

theorem chunk_drafts_wf:
  assumes "resolve_chunker registered_tokenizers c = Inr chunk" and "chunk sha256 lang doc = Inr ds"
  shows "drafts_wf (whitespace_builder sha256 lang) ds"
  using assms by (rule resolved_wf)

theorem chunk_drafts_wf_witness:
  "\<exists>chunk ds. resolve_chunker registered_tokenizers (sample_config HEADING_AWARE_V1) = Inr chunk \<and>
    chunk (\<lambda>_. ''h'') None sample_document = Inr ds \<and>
    drafts_wf (whitespace_builder (\<lambda>_. ''h'') None) ds"
  using sample_chunked chunk_drafts_wf by blast

lemma resolved_words:
  assumes "resolve_chunker registered_tokenizers c = Inr chunk" and "chunk sha256 lang doc = Inr ds"
  shows "words ds = block_words (body_blocks c doc)"
  using assms(2) fixed_words words_blocks [of sha256 lang c "doc_blocks doc" "[]" None "[]" ds]
  by (auto simp: resolve_registered [OF assms(1)] body_blocks_def heading_chunk_def
      split: chunking_strategy.splits)


text \<open>
  C9. No word is lost and none is invented: the words of the chunks are exactly the words of
  the document's blocks (headings apart, which the heading-aware chunker keeps as section
  titles), for every limit, overlap and table layout.
\<close>

theorem chunk_words:
  assumes "resolve_chunker registered_tokenizers c = Inr chunk" and "chunk sha256 lang doc = Inr ds"
  shows "words ds = block_words (body_blocks c doc)"
  using assms by (rule resolved_words)

theorem chunk_words_witness:
  "\<exists>chunk ds. resolve_chunker registered_tokenizers (sample_config FIXED_TOKEN_V1) = Inr chunk \<and>
    chunk (\<lambda>_. ''h'') None sample_document = Inr ds \<and> words ds \<noteq> {}"
  using sample_chunked [of FIXED_TOKEN_V1] chunk_words sample_words [of FIXED_TOKEN_V1] by metis

text \<open>
  C10. Chunks respect the token limit: every chunk of the fixed-token chunker counts at most
  \<open>max_tokens\<close> tokens, and so does every chunk of the heading-aware chunker when each row of
  each preserved table fits the limit together with the table's header.
\<close>

theorem chunk_token_limit:
  assumes "resolve_chunker registered_tokenizers c = Inr chunk" and "chunk sha256 lang doc = Inr ds"
    and "cc_strategy c = HEADING_AWARE_V1 \<Longrightarrow>
      list_all (table_ok (fits (cc_max_tokens c)) c) (doc_blocks doc)"
  shows "list_all (\<lambda>d. cd_token_count d \<le> cc_max_tokens c) ds"
proof (cases "cc_strategy c")
  case FIXED_TOKEN_V1
  with assms(2) limit.fixed show ?thesis by (auto simp: resolve_registered [OF assms(1)])
next
  case HEADING_AWARE_V1
  with assms(2,3) limit.heading show ?thesis by (auto simp: resolve_registered [OF assms(1)])
qed

theorem chunk_token_limit_witness:
  "\<exists>chunk ds. resolve_chunker registered_tokenizers (sample_config HEADING_AWARE_V1) = Inr chunk \<and>
    chunk (\<lambda>_. ''h'') None sample_document = Inr ds \<and>
    list_all (\<lambda>d. cd_token_count d \<le> cc_max_tokens (sample_config HEADING_AWARE_V1)) ds"
proof -
  have "list_all (table_ok A c) (doc_blocks sample_document)" for A c
    by (simp add: sample_document_def sample_block_def table_ok_def)
  with sample_chunked [of HEADING_AWARE_V1] chunk_token_limit show ?thesis by metis
qed


text \<open>
  C12. The fixed-token chunker slides a window: chunk k holds exactly the document's tokens
  from k * (max - overlap) on, \<open>max_tokens\<close> of them (fewer only where the text ends), and the
  last window reaches the end of the document, so consecutive chunks share the overlap.
\<close>

theorem fixed_chunks_are_windows:
  assumes "resolve_chunker registered_tokenizers c = Inr chunk" and "chunk sha256 lang doc = Inr ds"
    and "cc_strategy c = FIXED_TOKEN_V1"
  shows "(\<forall>k < length ds. tokens (cd_content (ds ! k)) =
      take (nat (cc_max_tokens c)) (drop (k * nat (cc_max_tokens c - cc_overlap_tokens c)) (document_tokens doc))) \<and>
    length (document_tokens doc) \<le>
      (length ds - 1) * nat (cc_max_tokens c - cc_overlap_tokens c) + nat (cc_max_tokens c)"
proof -
  from assms(2,3) have "fixed_chunk (whitespace_builder sha256 lang) c doc = Inr ds"
    by (simp add: resolve_registered [OF assms(1)])
  from fixed_windows [OF this] obtain ps where ps: "map cd_content ds = map strip ps"
    and w: "\<forall>k < length ps. tokens (ps ! k) = take (nat (cc_max_tokens c))
      (drop (k * nat (cc_max_tokens c - cc_overlap_tokens c)) (document_tokens doc))"
    and all: "length (document_tokens doc) \<le>
      (length ps - 1) * nat (cc_max_tokens c - cc_overlap_tokens c) + nat (cc_max_tokens c)"
    by blast
  from ps have len: "length ds = length ps" by (metis length_map)
  have "cd_content (ds ! k) = strip (ps ! k)" if "k < length ds" for k
    using that len arg_cong [OF ps, of "\<lambda>xs. xs ! k"] by simp
  with w all len show ?thesis by simp
qed

theorem fixed_chunks_are_windows_witness:
  "\<exists>chunk ds. resolve_chunker registered_tokenizers (sample_config FIXED_TOKEN_V1) = Inr chunk \<and>
    chunk (\<lambda>_. ''h'') None sample_document = Inr ds \<and>
    (\<forall>k < length ds. tokens (cd_content (ds ! k)) = take 2 (drop k (document_tokens sample_document)))"
proof -
  have "cc_strategy (sample_config FIXED_TOKEN_V1) = FIXED_TOKEN_V1"
    and m: "nat (cc_max_tokens (sample_config FIXED_TOKEN_V1)) = 2"
    and step: "nat (cc_max_tokens (sample_config FIXED_TOKEN_V1) - cc_overlap_tokens (sample_config FIXED_TOKEN_V1)) = 1"
    by (simp_all add: sample_config_def)
  with sample_chunked [of FIXED_TOKEN_V1] fixed_chunks_are_windows show ?thesis
    by (metis (no_types, lifting) mult.right_neutral)
qed

lemma read_config_valid:
  assumes "config_from_run_configuration j = Inr c'"
  shows "config_post_init c' = Inr c'"
proof -
  from assms obtain c where "config_post_init c = Inr c'"
    by (auto simp: config_from_run_configuration_def Let_def and_then_Inr_iff
        split: option.splits json.splits)
  with config_post_init_limits [OF this] show ?thesis by simp
qed

lemma written_config_reads:
  assumes "config_post_init c = Inr c"
  shows "config_from_run_configuration (JObj [(lit ''chunking'', config_as_mapping c)]) = Inr c"
proof -
  from assms have "strip (cc_reference_tokenizer c) \<noteq> []" "strip (cc_reference_tokenizer_version c) \<noteq> []"
    by (auto simp: config_post_init_def split: if_splits)
  moreover have "strip (strategy_value st) \<noteq> []" for st
    by (cases st) (simp_all add: strip_blank_iff lit_def py_isspace_def)
  moreover have "strategy_of (strategy_value st) = Inr st" for st
    by (cases st) (simp_all add: strategy_of_def)
  ultimately show ?thesis
    using assms by (cases c) (simp add: config_from_run_configuration_def config_as_mapping_def required_string_def
        required_int_def required_bool_def Let_def)
qed

text \<open>
  C13. The run configuration round-trips: a configuration that validation accepts is read back
  unchanged from the mapping stored in the ingestion run, and whatever is read from a stored
  mapping, of any shape, is a configuration that validation accepts.
\<close>

theorem chunking_config_roundtrip:
  "(config_post_init c = Inr c \<longrightarrow>
      config_from_run_configuration (JObj [(lit ''chunking'', config_as_mapping c)]) = Inr c) \<and>
    (config_from_run_configuration j = Inr c' \<longrightarrow> config_post_init c' = Inr c')"
by (intro conjI impI) (erule written_config_reads read_config_valid)+

theorem chunking_config_roundtrip_witness:
  "config_from_run_configuration (JObj [(lit ''chunking'', config_as_mapping default_chunking_config)]) =
    Inr default_chunking_config"
proof -
  have "config_post_init default_chunking_config = Inr default_chunking_config"
    by (simp add: config_post_init_def default_chunking_config_def strip_blank_iff lit_def py_isspace_def)
  with chunking_config_roundtrip [of default_chunking_config] show ?thesis by blast
qed

text \<open>
  The token limit does not hold for every table: when a row starts a new group after a
  full one, the chunker never checks the row itself, so the last chunk of a table with two
  body rows is the header with the whole second row, however many tokens that row has.
\<close>

theorem oversize_row_is_not_split:
  assumes "table_lines (blk_text blk) = [h1, h2, r1, r2]" and "is_markdown_table [h1, h2]"
    and "blk_type blk = TABLE" and "cc_preserve_tables c" and "utf8_encodable (blk_text blk)"
    and "fits (cc_max_tokens c) (join [10] [h1, h2, r1])"
    and "cc_max_tokens c < whitespace_count (blk_text blk)"
  shows "\<exists>d1 d2. heading_chunk (whitespace_builder sha256 lang) c
      \<lparr>doc_blocks = [blk], doc_metadata = meta\<rparr> = Inr [d1, d2] \<and>
    cd_content d2 = strip (join [10] [h1, h2, r2]) \<and>
    cd_token_count d2 = whitespace_count (join [10] [h1, h2, r2])"
proof -
  let ?b = "whitespace_builder sha256 lang"
  have all: "whitespace_count (join [10] [h1, h2, r1, r2]) = whitespace_count (blk_text blk)"
    using count_table_lines [of "blk_text blk"] by (simp only: assms(1))
  have enc: "utf8_encodable l" if "l \<in> {h1, h2, r1, r2}" for l
    using that table_lines_encodable [OF assms(5)] by (auto simp: assms(1))
  have bar: "124 \<in> set h1" using assms(2) by (simp add: is_markdown_table_def)
  have "strip (join [10] [h1, h2, r]) \<noteq> []" for r
    using bar by (intro strip_not_blank [of 124]) (simp_all add: py_isspace_def)
  then have adds: "\<exists>d. builder_add ?b (join [10] [h1, h2, r]) [blk] None [] CT_TABLE ds = Inr (ds @ [d]) \<and>
      cd_content d = strip (join [10] [h1, h2, r]) \<and>
      cd_token_count d = whitespace_count (join [10] [h1, h2, r])" if "r \<in> {r1, r2}" for r ds
    using enc that by (intro builder_add_one lines_encodable) auto
  from adds [of r1 "[]"] obtain d1 where d1:
    "builder_add ?b (join [10] [h1, h2, r1]) [blk] None [] CT_TABLE [] = Inr [d1]" by auto
  from adds [of r2 "[d1]"] obtain d2 where d2:
    "builder_add ?b (join [10] [h1, h2, r2]) [blk] None [] CT_TABLE [d1] = Inr [d1, d2]"
    "cd_content d2 = strip (join [10] [h1, h2, r2])"
    "cd_token_count d2 = whitespace_count (join [10] [h1, h2, r2])" by auto
  have md: "is_markdown_table [h1, h2, r1, r2]"
    using assms(2) by (simp add: is_markdown_table_def)
  have "emit_table ?b c None [] blk [] = Inr [d1, d2]"
    using d1 d2(1) all assms(6,7) md
    by (simp add: emit_table_def assms(1) Let_def fits_def numeral_2_eq_2 del: join.simps)
  moreover have "whitespace_count (blocks_content [blk]) = whitespace_count (blk_text blk)"
    by (simp add: whitespace_count_def tokens_blocks_content)
  moreover have "strip (blk_text blk) \<noteq> []"
    using table_lines_chars [of h1 "blk_text blk"] bar
    by (intro strip_not_blank [of 124]) (auto simp: assms(1) py_isspace_def)
  ultimately have "heading_chunk ?b c \<lparr>doc_blocks = [blk], doc_metadata = meta\<rparr> = Inr [d1, d2]"
    using assms(3,4,7)
    by (simp add: heading_chunk_def emit_section_def emit_text_blocks_def title_path_def Let_def)
  with d2 show ?thesis by blast
qed

definition sample_table :: extracted_block where
  "sample_table = sample_block TABLE
    ([124] @ [10] @ [124, 45] @ [10] @ [97, 124] @ [10] @ [98, 124, 32, 99, 32, 100, 32, 101])"

theorem oversize_row_is_not_split_witness:
  "\<exists>d1 d2. heading_chunk (whitespace_builder (\<lambda>_. ''h'') None)
      (default_chunking_config \<lparr>cc_max_tokens := 3, cc_overlap_tokens := 0\<rparr>)
      \<lparr>doc_blocks = [sample_table], doc_metadata = JObj []\<rparr> = Inr [d1, d2] \<and> cd_token_count d2 = 6"
proof -
  have lines: "table_lines (blk_text sample_table) =
      [[124], [124, 45], [97, 124], [98, 124, 32, 99, 32, 100, 32, 101]]"
    by (simp add: table_lines_def sample_table_def sample_block_def splitlines_def is_linebreak_def
        strip_blank_iff py_isspace_def rstrip_def)
  have "utf8_encodable (blk_text sample_table)"
    by (simp add: utf8_encodable_def sample_table_def sample_block_def)
  moreover have "is_markdown_table [[124], [124, 45]]" by (simp add: is_markdown_table_def)
  moreover have "fits 3 (join [10] [[124], [124, 45], [97, 124]])"
    by (simp add: fits_def whitespace_count_def tokens_def py_isspace_def)
  moreover have "3 < whitespace_count (blk_text sample_table)"
    by (simp add: whitespace_count_def tokens_def py_isspace_def sample_table_def sample_block_def)
  moreover have "whitespace_count (join [10] [[124], [124, 45], [98, 124, 32, 99, 32, 100, 32, 101]]) = 6"
    by (simp add: whitespace_count_def tokens_def py_isspace_def)
  ultimately show ?thesis
    using oversize_row_is_not_split [OF lines,
        of "default_chunking_config \<lparr>cc_max_tokens := 3, cc_overlap_tokens := 0\<rparr>" "\<lambda>_. ''h''" None "JObj []"]
    by (auto simp: sample_table_def sample_block_def default_chunking_config_def)
qed

end
