(* ===== verification/Ingestion.thy ===== *)
theory Ingestion
  imports Lease Outbox Chunking
begin

text \<open>
  The ingestion store and its lifecycle service: the tables of \<open>modules/ingestion/models\<close>
  with their constraints, the statements of \<open>repositories/ingestion.py\<close>,
  \<open>repositories/chunk.py\<close> and \<open>repositories/embeddable_chunk.py\<close>, and the transactions of
  \<open>services/ingestion_lifecycle.py\<close>.

  A statement takes the application clock \<open>now\<close> and the database clock \<open>db\<close> separately, as
  the code does. \<open>item_exec\<close> collects the WHERE and SET clauses of the statements on one row;
  it is the model's instance of the lease protocol (\<open>leased_job\<close>). The last section runs any
  interleaving of the service's transactions, of any number of workers, together with the
  publisher's statements on the shared outbox table.
\<close>

section \<open>Tables\<close>

type_synonym ingestion_status = job_status

record ingestion_run =
  run_id :: uuid
  run_configuration :: json
  run_configuration_hash :: string
  run_created_by :: "uuid option"
  run_created_at :: datetime

record ingestion_item =
  it_id :: uuid
  it_run_id :: uuid
  it_artifact_id :: uuid
  it_status :: ingestion_status
  it_attempt_count :: int
  it_claimed_at :: "datetime option"
  it_lease_expires_at :: "datetime option"
  it_observed_file_hash :: "string option"
  it_execution_metadata :: json
  it_error_code :: "string option"
  it_error_message :: "pystr option"
  it_started_at :: "datetime option"
  it_completed_at :: "datetime option"
  it_activated_at :: "datetime option"
  it_deactivated_at :: "datetime option"
  it_created_at :: datetime

record chunk_row =
  ck_id :: uuid
  ck_item_id :: uuid
  ck_draft :: chunk_draft
  ck_created_at :: datetime

definition running_requires_claim :: "ingestion_item \<Rightarrow> bool" where
  "running_requires_claim r \<longleftrightarrow> it_status r \<noteq> RUNNING \<or>
    it_started_at r \<noteq> None \<and> it_claimed_at r \<noteq> None \<and> it_lease_expires_at r \<noteq> None"

definition lease_only_while_running :: "ingestion_item \<Rightarrow> bool" where
  "lease_only_while_running r \<longleftrightarrow> it_status r = RUNNING \<or> it_lease_expires_at r = None"

definition valid_lease :: "ingestion_item \<Rightarrow> bool" where
  "valid_lease r \<longleftrightarrow> (case it_lease_expires_at r of None \<Rightarrow> True
    | Some e \<Rightarrow> (case it_claimed_at r of None \<Rightarrow> False | Some c \<Rightarrow> c < e))"

definition terminal_requires_completed_at :: "ingestion_item \<Rightarrow> bool" where
  "terminal_requires_completed_at r \<longleftrightarrow>
    it_status r \<notin> {COMPLETED, FAILED} \<or> it_completed_at r \<noteq> None"

definition completed_not_before_started :: "ingestion_item \<Rightarrow> bool" where
  "completed_not_before_started r \<longleftrightarrow> (case it_completed_at r of None \<Rightarrow> True
    | Some c \<Rightarrow> (case it_started_at r of None \<Rightarrow> False | Some s \<Rightarrow> s \<le> c))"

definition activation_requires_completion :: "ingestion_item \<Rightarrow> bool" where
  "activation_requires_completion r \<longleftrightarrow> it_activated_at r = None \<or> it_status r = COMPLETED"

definition deactivation_after_activation :: "ingestion_item \<Rightarrow> bool" where
  "deactivation_after_activation r \<longleftrightarrow> (case it_deactivated_at r of None \<Rightarrow> True
    | Some d \<Rightarrow> (case it_activated_at r of None \<Rightarrow> False | Some a \<Rightarrow> a \<le> d))"

definition item_constraints :: "uuid list \<Rightarrow> uuid list \<Rightarrow> ingestion_item constraint list" where
  "item_constraints run_ids artifact_ids =
    [check ''ck_ingestion_items_attempt_count_non_negative'' (\<lambda>r. 0 \<le> it_attempt_count r),
     check ''ck_ingestion_items_running_requires_claim'' running_requires_claim,
     check ''ck_ingestion_items_lease_only_while_running'' lease_only_while_running,
     check ''ck_ingestion_items_valid_lease'' valid_lease,
     check ''ck_ingestion_items_terminal_requires_completed_at'' terminal_requires_completed_at,
     check ''ck_ingestion_items_completed_not_before_started'' completed_not_before_started,
     check ''ck_ingestion_items_activation_requires_completion'' activation_requires_completion,
     check ''ck_ingestion_items_deactivation_after_activation'' deactivation_after_activation,
     unique_index ''uq_ingestion_items_run_artifact'' (\<lambda>_. True)
       (\<lambda>r. (it_run_id r, it_artifact_id r)),
     unique_index ''uq_ingestion_items_active_artifact''
       (\<lambda>r. it_activated_at r \<noteq> None \<and> it_deactivated_at r = None) it_artifact_id,
     unique_index ''pk_ingestion_items'' (\<lambda>_. True) it_id,
     check ''fk_ingestion_items_ingestion_run_id_ingestion_runs'' (\<lambda>r. it_run_id r \<in> set run_ids),
     check ''fk_ingestion_items_document_artifact_id_document_artifacts'' (\<lambda>r. it_artifact_id r \<in> set artifact_ids)]"

definition run_constraints :: "uuid list \<Rightarrow> ingestion_run constraint list" where
  "run_constraints principal_ids =
    [unique_index ''pk_ingestion_runs'' (\<lambda>_. True) run_id,
     check ''fk_ingestion_runs_created_by_principal_id_principals''
       (\<lambda>r. case run_created_by r of None \<Rightarrow> True | Some p \<Rightarrow> p \<in> set principal_ids)]"

definition positive_page :: "int option \<Rightarrow> bool" where
  "positive_page p \<longleftrightarrow> (case p of None \<Rightarrow> True | Some n \<Rightarrow> 0 < n)"

definition valid_page_range :: "chunk_draft \<Rightarrow> bool" where
  "valid_page_range d \<longleftrightarrow> (case (cd_page_start d, cd_page_end d) of
      (Some p, Some q) \<Rightarrow> p \<le> q | _ \<Rightarrow> True)"

definition content_non_empty :: "chunk_draft \<Rightarrow> bool" where
  "content_non_empty d \<longleftrightarrow> list_ex (\<lambda>c. c \<noteq> 32) (cd_content d)"

definition chunk_constraints :: "uuid list \<Rightarrow> chunk_row constraint list" where
  "chunk_constraints item_ids =
    [check ''ck_chunks_content_non_empty'' (\<lambda>r. content_non_empty (ck_draft r)),
     check ''ck_chunks_token_count_non_negative'' (\<lambda>r. 0 \<le> cd_token_count (ck_draft r)),
     check ''ck_chunks_page_start_positive'' (\<lambda>r. positive_page (cd_page_start (ck_draft r))),
     check ''ck_chunks_page_end_positive'' (\<lambda>r. positive_page (cd_page_end (ck_draft r))),
     check ''ck_chunks_valid_page_range'' (\<lambda>r. valid_page_range (ck_draft r)),
     unique_index ''uq_chunks_item_index'' (\<lambda>_. True)
       (\<lambda>r. (ck_item_id r, cd_chunk_index (ck_draft r))),
     unique_index ''pk_chunks'' (\<lambda>_. True) ck_id,
     check ''fk_chunks_ingestion_item_id_ingestion_items'' (\<lambda>r. ck_item_id r \<in> set item_ids)]"

text \<open>
  The rows of one database that the service reads and writes; the identifiers of artifacts and
  principals stand for the tables of other components that the foreign keys refer to.
\<close>

record ingestion_db =
  idb_runs :: "ingestion_run list"
  idb_items :: "ingestion_item list"
  idb_chunks :: "chunk_row list"
  idb_outbox :: "job_outbox list"
  idb_artifact_ids :: "uuid list"
  idb_principal_ids :: "uuid list"

definition item_cs :: "ingestion_db \<Rightarrow> ingestion_item constraint list" where
  "item_cs d = item_constraints (map run_id (idb_runs d)) (idb_artifact_ids d)"

definition chunk_cs :: "ingestion_db \<Rightarrow> chunk_row constraint list" where
  "chunk_cs d = chunk_constraints (map it_id (idb_items d))"

section \<open>Statements on one item\<close>

definition MAX_ATTEMPTS_EXCEEDED :: string where
  "MAX_ATTEMPTS_EXCEEDED = ''max_attempts_exceeded''"

datatype item_event =
    ItemClaim datetime datetime
  | ItemHeartbeat int datetime
  | ItemRelease int "string option" "pystr option"
  | ItemFail int datetime string "pystr option" "json option"
  | ItemComplete int datetime string json
  | ItemReap datetime

definition owned_by :: "int \<Rightarrow> datetime \<Rightarrow> ingestion_item \<Rightarrow> bool" where
  "owned_by n db r \<longleftrightarrow>
    it_status r = RUNNING \<and> it_attempt_count r = n \<and> null_gt (it_lease_expires_at r) db"

fun item_where :: "int \<Rightarrow> datetime \<Rightarrow> item_event \<Rightarrow> ingestion_item \<Rightarrow> bool" where
  "item_where max_attempts db (ItemClaim now lease) r \<longleftrightarrow> it_attempt_count r < max_attempts \<and>
    (it_status r = PENDING \<or> it_status r = RUNNING \<and> null_le (it_lease_expires_at r) db)"
| "item_where max_attempts db (ItemHeartbeat n lease) r \<longleftrightarrow> owned_by n db r"
| "item_where max_attempts db (ItemRelease n code message) r \<longleftrightarrow> owned_by n db r"
| "item_where max_attempts db (ItemFail n now code message meta) r \<longleftrightarrow> owned_by n db r"
| "item_where max_attempts db (ItemComplete n now h meta) r \<longleftrightarrow> owned_by n db r"
| "item_where max_attempts db (ItemReap now) r \<longleftrightarrow> it_status r = RUNNING \<and>
    null_le (it_lease_expires_at r) db \<and> max_attempts \<le> it_attempt_count r"

fun item_set :: "item_event \<Rightarrow> ingestion_item \<Rightarrow> ingestion_item" where
  "item_set (ItemClaim now lease) r =
    r\<lparr>it_status := RUNNING, it_attempt_count := it_attempt_count r + 1,
      it_claimed_at := Some now, it_lease_expires_at := Some lease,
      it_started_at := Some (coalesce (it_started_at r) now)\<rparr>"
| "item_set (ItemHeartbeat n lease) r = r\<lparr>it_lease_expires_at := Some lease\<rparr>"
| "item_set (ItemRelease n code message) r =
    r\<lparr>it_status := PENDING, it_claimed_at := None, it_lease_expires_at := None,
      it_error_code := code, it_error_message := message\<rparr>"
| "item_set (ItemFail n now code message meta) r =
    r\<lparr>it_status := FAILED, it_completed_at := Some now, it_claimed_at := None,
      it_lease_expires_at := None, it_error_code := Some code, it_error_message := message,
      it_execution_metadata := coalesce meta (it_execution_metadata r)\<rparr>"
| "item_set (ItemComplete n now h meta) r =
    r\<lparr>it_status := COMPLETED, it_completed_at := Some now, it_claimed_at := None,
      it_lease_expires_at := None, it_observed_file_hash := Some h,
      it_execution_metadata := meta, it_error_code := None, it_error_message := None\<rparr>"
| "item_set (ItemReap now) r =
    r\<lparr>it_status := FAILED, it_completed_at := Some now, it_claimed_at := None,
      it_lease_expires_at := None, it_error_code := Some MAX_ATTEMPTS_EXCEEDED\<rparr>"

definition item_exec :: "int \<Rightarrow> datetime \<Rightarrow> item_event \<Rightarrow> ingestion_item \<Rightarrow> ingestion_item option" where
  "item_exec max_attempts db e r =
    (if item_where max_attempts db e r then Some (item_set e r) else None)"

definition item_view :: "ingestion_item \<Rightarrow> lease_view" where
  "item_view r = \<lparr>lv_status = it_status r, lv_attempts = it_attempt_count r,
    lv_lease = it_lease_expires_at r\<rparr>"

fun item_lease_event :: "item_event \<Rightarrow> lease_event" where
  "item_lease_event (ItemClaim now lease) = Claim lease"
| "item_lease_event (ItemHeartbeat n lease) = Heartbeat n lease"
| "item_lease_event (ItemRelease n code message) = Release n"
| "item_lease_event (ItemFail n now code message meta) = Fail n"
| "item_lease_event (ItemComplete n now h meta) = Complete n"
| "item_lease_event (ItemReap now) = Reap"

interpretation items: leased_job item_view item_lease_event item_exec
proof
  fix m db e r
  show "map_option item_view (item_exec m db e r) = lease_step m db (item_lease_event e) (item_view r)"
    by (cases e) (simp_all add: item_exec_def item_view_def lease_step.simps owned_by_def
        owned_def claimable_def exhausted_def)
qed

section \<open>The repositories\<close>

text \<open>An UPDATE of one item by its identifier, and of all items (the reaper).\<close>

definition update_item ::
  "int \<Rightarrow> uuid \<Rightarrow> item_event \<Rightarrow> datetime \<Rightarrow> ingestion_db \<Rightarrow> db_error + nat \<times> ingestion_db"
where
  "update_item max_attempts item_id e db d =
    and_then (update_stmt (item_cs d) (\<lambda>r. it_id r = item_id \<and> item_where max_attempts db e r)
        (item_set e) (idb_items d))
      (\<lambda>(c, t). Inr (c, d\<lparr>idb_items := t\<rparr>))"

definition add_run ::
  "uuid \<Rightarrow> json \<Rightarrow> string \<Rightarrow> uuid option \<Rightarrow> datetime \<Rightarrow> ingestion_db \<Rightarrow> db_error + ingestion_db"
where
  "add_run rid configuration configuration_hash created_by db d =
    and_then (insert_stmt (run_constraints (idb_principal_ids d))
        [\<lparr>run_id = rid, run_configuration = configuration,
          run_configuration_hash = configuration_hash, run_created_by = created_by,
          run_created_at = db\<rparr>] (idb_runs d))
      (\<lambda>t. Inr (d\<lparr>idb_runs := t\<rparr>))"

definition new_item :: "uuid \<Rightarrow> uuid \<Rightarrow> uuid \<Rightarrow> datetime \<Rightarrow> ingestion_item" where
  "new_item item_id rid artifact_id db =
    \<lparr>it_id = item_id, it_run_id = rid, it_artifact_id = artifact_id, it_status = PENDING,
     it_attempt_count = 0, it_claimed_at = None, it_lease_expires_at = None,
     it_observed_file_hash = None, it_execution_metadata = JObj [], it_error_code = None,
     it_error_message = None, it_started_at = None, it_completed_at = None,
     it_activated_at = None, it_deactivated_at = None, it_created_at = db\<rparr>"

definition add_item ::
  "uuid \<Rightarrow> uuid \<Rightarrow> uuid \<Rightarrow> datetime \<Rightarrow> ingestion_db \<Rightarrow> db_error + ingestion_db"
where
  "add_item item_id rid artifact_id db d =
    and_then (insert_stmt (item_cs d) [new_item item_id rid artifact_id db] (idb_items d))
      (\<lambda>t. Inr (d\<lparr>idb_items := t\<rparr>))"

definition find_run :: "uuid \<Rightarrow> ingestion_db \<Rightarrow> db_error + ingestion_run option" where
  "find_run rid d = one_or_none (sql_select (\<lambda>r. run_id r = rid) (idb_runs d))"

definition find_item :: "uuid \<Rightarrow> ingestion_db \<Rightarrow> db_error + ingestion_item option" where
  "find_item item_id d = one_or_none (sql_select (\<lambda>r. it_id r = item_id) (idb_items d))"

record claimed_item =
  ci_item_id :: uuid
  ci_artifact_id :: uuid
  ci_attempt_number :: int
  ci_claimed_at :: "datetime option"
  ci_lease_expires_at :: "datetime option"
  ci_run_id :: "uuid option"

definition to_claimed_item :: "ingestion_item \<Rightarrow> claimed_item" where
  "to_claimed_item r =
    \<lparr>ci_item_id = it_id r, ci_artifact_id = it_artifact_id r,
     ci_attempt_number = it_attempt_count r, ci_claimed_at = it_claimed_at r,
     ci_lease_expires_at = it_lease_expires_at r, ci_run_id = Some (it_run_id r)\<rparr>"

definition claim_item ::
  "uuid \<Rightarrow> datetime \<Rightarrow> datetime \<Rightarrow> int \<Rightarrow> datetime \<Rightarrow> ingestion_db \<Rightarrow>
    db_error + claimed_item option \<times> ingestion_db"
where
  "claim_item item_id now lease max_attempts db d =
    and_then (update_returning (item_cs d)
        (\<lambda>r. it_id r = item_id \<and> item_where max_attempts db (ItemClaim now lease) r)
        (item_set (ItemClaim now lease)) (idb_items d)) (\<lambda>(rows, t).
    and_then (one_or_none rows) (\<lambda>row.
      Inr (map_option to_claimed_item row, d\<lparr>idb_items := t\<rparr>)))"

definition find_expired_items :: "nat \<Rightarrow> datetime \<Rightarrow> ingestion_db \<Rightarrow> ingestion_item list" where
  "find_expired_items limit db d =
    take limit (sort_key (\<lambda>r. coalesce (it_lease_expires_at r) 0)
      (sql_select (\<lambda>r. it_status r = RUNNING \<and> null_le (it_lease_expires_at r) db) (idb_items d)))"

definition fail_exhausted_expired_items ::
  "datetime \<Rightarrow> int \<Rightarrow> datetime \<Rightarrow> ingestion_db \<Rightarrow> db_error + nat \<times> ingestion_db"
where
  "fail_exhausted_expired_items now max_attempts db d =
    and_then (update_stmt (item_cs d) (item_where max_attempts db (ItemReap now))
        (item_set (ItemReap now)) (idb_items d))
      (\<lambda>(c, t). Inr (c, d\<lparr>idb_items := t\<rparr>))"


definition heartbeat_item ::
  "uuid \<Rightarrow> int \<Rightarrow> datetime \<Rightarrow> datetime \<Rightarrow> ingestion_db \<Rightarrow> db_error + nat \<times> ingestion_db"
where
  "heartbeat_item item_id n lease db d = update_item 0 item_id (ItemHeartbeat n lease) db d"

definition release_item_for_retry ::
  "uuid \<Rightarrow> int \<Rightarrow> string option \<Rightarrow> pystr option \<Rightarrow> datetime \<Rightarrow> ingestion_db \<Rightarrow>
    db_error + nat \<times> ingestion_db"
where
  "release_item_for_retry item_id n code message db d =
    update_item 0 item_id (ItemRelease n code message) db d"

definition mark_item_failed ::
  "uuid \<Rightarrow> int \<Rightarrow> datetime \<Rightarrow> string \<Rightarrow> pystr option \<Rightarrow> json option \<Rightarrow> datetime \<Rightarrow> ingestion_db \<Rightarrow>
    db_error + nat \<times> ingestion_db"
where
  "mark_item_failed item_id n now code message meta db d =
    update_item 0 item_id (ItemFail n now code message meta) db d"

definition mark_item_completed ::
  "uuid \<Rightarrow> int \<Rightarrow> datetime \<Rightarrow> string \<Rightarrow> json \<Rightarrow> datetime \<Rightarrow> ingestion_db \<Rightarrow>
    db_error + nat \<times> ingestion_db"
where
  "mark_item_completed item_id n now h meta db d =
    update_item 0 item_id (ItemComplete n now h meta) db d"

datatype ingestion_error = IngestionDbError db_error | ChunkSetImmutable string

definition COMPLETED_CHUNK_SET_IS_FROZEN :: string where
  "COMPLETED_CHUNK_SET_IS_FROZEN = ''ingestion item is completed''"

definition guard_mutable_chunk_set :: "uuid \<Rightarrow> ingestion_db \<Rightarrow> ingestion_error + unit" where
  "guard_mutable_chunk_set item_id d =
    and_then (map_error IngestionDbError (find_item item_id d)) (\<lambda>row.
      raise_if (map_option it_status row = Some COMPLETED)
        (ChunkSetImmutable COMPLETED_CHUNK_SET_IS_FROZEN))"

text \<open>
  \<open>replace_for_item\<close>: the new rows take the identifiers \<open>chunk_ids\<close> (\<open>uuid4()\<close> defaults, one for
  each chunk).
\<close>

definition chunk_rows :: "uuid \<Rightarrow> uuid list \<Rightarrow> datetime \<Rightarrow> chunk_draft list \<Rightarrow> chunk_row list" where
  "chunk_rows item_id chunk_ids db drafts =
    map (\<lambda>(i, c). \<lparr>ck_id = i, ck_item_id = item_id, ck_draft = c, ck_created_at = db\<rparr>)
      (zip chunk_ids drafts)"

definition replace_for_item ::
  "uuid \<Rightarrow> chunk_draft list \<Rightarrow> uuid list \<Rightarrow> datetime \<Rightarrow> ingestion_db \<Rightarrow> ingestion_error + ingestion_db"
where
  "replace_for_item item_id drafts chunk_ids db d =
    and_then (guard_mutable_chunk_set item_id d) (\<lambda>_.
      let kept = sql_delete (\<lambda>r. ck_item_id r = item_id) (idb_chunks d) in
      if drafts = [] then Inr (d\<lparr>idb_chunks := kept\<rparr>)
      else and_then (map_error IngestionDbError
          (insert_stmt (chunk_cs d) (chunk_rows item_id chunk_ids db drafts) kept))
        (\<lambda>t. Inr (d\<lparr>idb_chunks := t\<rparr>)))"

definition item_chunk_rows :: "uuid \<Rightarrow> ingestion_db \<Rightarrow> chunk_row list" where
  "item_chunk_rows item_id d =
    sort_key (\<lambda>r. cd_chunk_index (ck_draft r))
      (sql_select (\<lambda>r. ck_item_id r = item_id) (idb_chunks d))"

definition list_for_item :: "uuid \<Rightarrow> ingestion_db \<Rightarrow> chunk_draft list" where
  "list_for_item item_id d = map ck_draft (item_chunk_rows item_id d)"

definition is_item_embeddable :: "uuid \<Rightarrow> ingestion_db \<Rightarrow> db_error + bool" where
  "is_item_embeddable item_id d =
    and_then (find_item item_id d) (\<lambda>row. Inr (map_option it_status row = Some COMPLETED))"

record embeddable_chunk =
  ec_chunk_id :: uuid
  ec_chunk_index :: nat
  ec_content :: pystr
  ec_token_count :: int

definition to_embeddable_chunk :: "chunk_row \<Rightarrow> embeddable_chunk" where
  "to_embeddable_chunk r = \<lparr>ec_chunk_id = ck_id r, ec_chunk_index = cd_chunk_index (ck_draft r),
    ec_content = cd_content (ck_draft r), ec_token_count = cd_token_count (ck_draft r)\<rparr>"

definition list_chunks :: "uuid \<Rightarrow> ingestion_db \<Rightarrow> embeddable_chunk list" where
  "list_chunks item_id d = map to_embeddable_chunk (item_chunk_rows item_id d)"

definition list_chunk_ids :: "uuid \<Rightarrow> ingestion_db \<Rightarrow> uuid list" where
  "list_chunk_ids item_id d = map ck_id (item_chunk_rows item_id d)"

section \<open>The lifecycle service\<close>

record lifecycle =
  lc_lease_duration :: timedelta
  lc_max_attempts :: int

definition SUPERSEDED_BY_RETRY :: string where
  "SUPERSEDED_BY_RETRY = ''superseded_by_retry''"

definition item_payload :: "uuid \<Rightarrow> json" where
  "item_payload item_id = JObj [(lit ''ingestion_item_id'', JStr (uuid_str item_id))]"

definition on_outbox ::
  "(job_outbox list \<Rightarrow> db_error + job_outbox list) \<Rightarrow> ingestion_db \<Rightarrow> db_error + ingestion_db"
where
  "on_outbox f d = and_then (f (idb_outbox d)) (\<lambda>t. Inr (d\<lparr>idb_outbox := t\<rparr>))"

text \<open>A transaction that commits only when its statement found the row still owned.\<close>

definition commit_if_one :: "ingestion_db \<Rightarrow> 'e + nat \<times> ingestion_db \<Rightarrow> 'e + bool \<times> ingestion_db" where
  "commit_if_one d m = and_then m (\<lambda>(c, d'). Inr (c = 1, if c = 1 then d' else d))"

definition create_run_tx ::
  "uuid \<Rightarrow> json \<Rightarrow> string \<Rightarrow> uuid option \<Rightarrow> datetime \<Rightarrow> ingestion_db \<Rightarrow> db_error + uuid \<times> ingestion_db"
where
  "create_run_tx rid configuration configuration_hash created_by db d =
    and_then (add_run rid configuration configuration_hash created_by db d) (\<lambda>d'. Inr (rid, d'))"

definition add_item_tx ::
  "uuid \<Rightarrow> uuid \<Rightarrow> uuid \<Rightarrow> uuid \<Rightarrow> datetime \<Rightarrow> ingestion_db \<Rightarrow> db_error + uuid \<times> ingestion_db"
where
  "add_item_tx item_id job_id rid artifact_id db d =
    and_then (add_item item_id rid artifact_id db d) (\<lambda>d1.
    and_then (on_outbox (enqueue job_id PROCESS_INGESTION_ITEM item_id (item_payload item_id) db) d1)
      (\<lambda>d2. Inr (item_id, d2)))"

definition claim_tx ::
  "lifecycle \<Rightarrow> uuid \<Rightarrow> datetime \<Rightarrow> datetime \<Rightarrow> ingestion_db \<Rightarrow> db_error + claimed_item option \<times> ingestion_db"
where
  "claim_tx lc item_id now db d =
    and_then (claim_item item_id now (now + lc_lease_duration lc) (lc_max_attempts lc) db d)
      (\<lambda>(claim, d'). Inr (claim, if claim \<noteq> None then d' else d))"

definition heartbeat_tx ::
  "lifecycle \<Rightarrow> uuid \<Rightarrow> int \<Rightarrow> datetime \<Rightarrow> datetime \<Rightarrow> ingestion_db \<Rightarrow> db_error + bool \<times> ingestion_db"
where
  "heartbeat_tx lc item_id n now db d =
    commit_if_one d (heartbeat_item item_id n (now + lc_lease_duration lc) db d)"

definition schedule_retry_tx ::
  "lifecycle \<Rightarrow> uuid \<Rightarrow> int \<Rightarrow> string \<Rightarrow> pystr option \<Rightarrow> uuid \<Rightarrow> datetime \<Rightarrow> datetime \<Rightarrow> ingestion_db \<Rightarrow>
    db_error + bool \<times> ingestion_db"
where
  "schedule_retry_tx lc item_id n code message job_id now db d =
    commit_if_one d
      (if lc_max_attempts lc \<le> n
       then mark_item_failed item_id n now MAX_ATTEMPTS_EXCEEDED message None db d
       else and_then (release_item_for_retry item_id n (Some code) message db d) (\<lambda>(c, d1).
         if c = 1 then
           and_then (on_outbox (\<lambda>t. and_then (discard_pending_for_aggregate PROCESS_INGESTION_ITEM
               item_id now SUPERSEDED_BY_RETRY t) (\<lambda>(_, t'). Inr t')) d1) (\<lambda>d2.
           and_then (on_outbox (enqueue job_id PROCESS_INGESTION_ITEM item_id
               (item_payload item_id) db) d2) (\<lambda>d3.
             Inr (c, d3)))
         else Inr (c, d1)))"

definition mark_failed_tx ::
  "uuid \<Rightarrow> int \<Rightarrow> string \<Rightarrow> pystr option \<Rightarrow> json option \<Rightarrow> datetime \<Rightarrow> datetime \<Rightarrow> ingestion_db \<Rightarrow>
    db_error + bool \<times> ingestion_db"
where
  "mark_failed_tx item_id n code message meta now db d =
    commit_if_one d (mark_item_failed item_id n now code message meta db d)"

definition mark_completed_tx ::
  "uuid \<Rightarrow> int \<Rightarrow> string \<Rightarrow> json \<Rightarrow> datetime \<Rightarrow> datetime \<Rightarrow> ingestion_db \<Rightarrow>
    db_error + bool \<times> ingestion_db"
where
  "mark_completed_tx item_id n h meta now db d =
    commit_if_one d (mark_item_completed item_id n now h meta db d)"

definition replace_chunks_and_mark_completed_tx ::
  "uuid \<Rightarrow> int \<Rightarrow> chunk_draft list \<Rightarrow> string \<Rightarrow> json \<Rightarrow> uuid list \<Rightarrow> datetime \<Rightarrow> datetime \<Rightarrow> ingestion_db \<Rightarrow>
    ingestion_error + bool \<times> ingestion_db"
where
  "replace_chunks_and_mark_completed_tx item_id n drafts h meta chunk_ids now db d =
    and_then (replace_for_item item_id drafts chunk_ids db d) (\<lambda>d1.
      commit_if_one d (map_error IngestionDbError (mark_item_completed item_id n now h meta db d1)))"

definition reap_expired_items_tx ::
  "lifecycle \<Rightarrow> datetime \<Rightarrow> datetime \<Rightarrow> ingestion_db \<Rightarrow> db_error + nat \<times> ingestion_db"
where
  "reap_expired_items_tx lc now db d =
    and_then (fail_exhausted_expired_items now (lc_max_attempts lc) db d)
      (\<lambda>(c, d'). Inr (c, if 0 < c then d' else d))"

section \<open>Interleavings\<close>

text \<open>
  One committed or rolled-back transaction of any process: the service's operations with the
  application clock they read, and the publisher's statements on the outbox. The database
  clock of each comes beside it.
\<close>

datatype ingestion_op =
    CreateRun uuid json string "uuid option"
  | AddItem uuid uuid uuid uuid
  | ClaimItem uuid datetime
  | HeartbeatItem uuid int datetime
  | ScheduleRetry uuid int string "pystr option" uuid datetime
  | MarkItemFailed uuid int string "pystr option" "json option" datetime
  | MarkItemCompleted uuid int string json datetime
  | ReplaceAndComplete uuid int "chunk_draft list" string json "uuid list" datetime
  | ReapItems datetime
  | OutboxStep outbox_op

fun ingestion_exec :: "lifecycle \<Rightarrow> datetime \<Rightarrow> ingestion_op \<Rightarrow> ingestion_db \<Rightarrow> ingestion_db" where
  "ingestion_exec lc db (CreateRun rid conf h by) d = db_after d (create_run_tx rid conf h by db d)"
| "ingestion_exec lc db (AddItem i j rid a) d = db_after d (add_item_tx i j rid a db d)"
| "ingestion_exec lc db (ClaimItem i now) d = db_after d (claim_tx lc i now db d)"
| "ingestion_exec lc db (HeartbeatItem i n now) d = db_after d (heartbeat_tx lc i n now db d)"
| "ingestion_exec lc db (ScheduleRetry i n code msg j now) d =
    db_after d (schedule_retry_tx lc i n code msg j now db d)"
| "ingestion_exec lc db (MarkItemFailed i n code msg meta now) d =
    db_after d (mark_failed_tx i n code msg meta now db d)"
| "ingestion_exec lc db (MarkItemCompleted i n h meta now) d =
    db_after d (mark_completed_tx i n h meta now db d)"
| "ingestion_exec lc db (ReplaceAndComplete i n drafts h meta ids now) d =
    db_after d (replace_chunks_and_mark_completed_tx i n drafts h meta ids now db d)"
| "ingestion_exec lc db (ReapItems now) d = db_after d (reap_expired_items_tx lc now db d)"
| "ingestion_exec lc db (OutboxStep op) d = d\<lparr>idb_outbox := outbox_exec op (idb_outbox d)\<rparr>"

definition run_ingestion :: "lifecycle \<Rightarrow> (datetime \<times> ingestion_op) list \<Rightarrow> ingestion_db \<Rightarrow> ingestion_db" where
  "run_ingestion lc ops d = fold (\<lambda>(db, op). ingestion_exec lc db op) ops d"


section \<open>Constraints are kept\<close>

lemmas item_checks =
  running_requires_claim_def lease_only_while_running_def valid_lease_def
  terminal_requires_completed_at_def completed_not_before_started_def
  activation_requires_completion_def deactivation_after_activation_def

definition item_row_ok :: "ingestion_item \<Rightarrow> bool" where
  "item_row_ok r \<longleftrightarrow> 0 \<le> it_attempt_count r \<and> running_requires_claim r \<and>
    lease_only_while_running r \<and> valid_lease r \<and> terminal_requires_completed_at r \<and>
    completed_not_before_started r \<and> activation_requires_completion r \<and>
    deactivation_after_activation r"

definition ingestion_ok :: "ingestion_db \<Rightarrow> bool" where
  "ingestion_ok d \<longleftrightarrow> satisfies (item_cs d) (idb_items d) \<and> satisfies (chunk_cs d) (idb_chunks d) \<and>
    satisfies (run_constraints (idb_principal_ids d)) (idb_runs d) \<and> outbox_ok (idb_outbox d)"

lemma satisfies_items:
  "satisfies (item_cs d) t \<longleftrightarrow> list_all item_row_ok t \<and>
    distinct (map (\<lambda>r. (it_run_id r, it_artifact_id r)) t) \<and>
    distinct (map it_artifact_id (filter (\<lambda>r. it_activated_at r \<noteq> None \<and> it_deactivated_at r = None) t)) \<and>
    distinct (map it_id t) \<and>
    list_all (\<lambda>r. it_run_id r \<in> run_id ` set (idb_runs d) \<and> it_artifact_id r \<in> set (idb_artifact_ids d)) t"
  by (auto simp: item_cs_def item_constraints_def item_row_ok_def list_all_iff)

lemma ingestion_ok_items:
  assumes "ingestion_ok d"
  shows "satisfies (item_cs d) (idb_items d)" and "distinct (map it_id (idb_items d))"
    and "\<And>r. r \<in> set (idb_items d) \<Longrightarrow> item_row_ok r"
  using assms by (auto simp: ingestion_ok_def satisfies_items list_all_iff)

lemma item_set_key [simp]:
  "it_id (item_set e r) = it_id r" "it_run_id (item_set e r) = it_run_id r"
  "it_artifact_id (item_set e r) = it_artifact_id r"
  "it_activated_at (item_set e r) = it_activated_at r"
  "it_deactivated_at (item_set e r) = it_deactivated_at r"
  by (cases e; simp)+

lemma satisfies_items_update:
  assumes "satisfies (item_cs d) (idb_items d)"
    and "\<And>r. r \<in> set (idb_items d) \<Longrightarrow> p r \<Longrightarrow> item_row_ok r \<Longrightarrow> item_row_ok (item_set e r)"
  shows "satisfies (item_cs d) (sql_update p (item_set e) (idb_items d))"
  using assms
  by (auto simp: satisfies_items map_filter_sql_update map_sql_update intro!: list_all_sql_update)

text \<open>What each statement needs of the clock for the new row to meet its constraints.\<close>

fun event_fits :: "item_event \<Rightarrow> ingestion_item \<Rightarrow> bool" where
  "event_fits (ItemClaim now lease) r \<longleftrightarrow> now < lease"
| "event_fits (ItemHeartbeat n lease) r \<longleftrightarrow> (\<forall>c. it_claimed_at r = Some c \<longrightarrow> c < lease)"
| "event_fits (ItemRelease n code message) r \<longleftrightarrow> True"
| "event_fits (ItemFail n now code message meta) r \<longleftrightarrow> (\<forall>s. it_started_at r = Some s \<longrightarrow> s \<le> now)"
| "event_fits (ItemComplete n now h meta) r \<longleftrightarrow> (\<forall>s. it_started_at r = Some s \<longrightarrow> s \<le> now)"
| "event_fits (ItemReap now) r \<longleftrightarrow> (\<forall>s. it_started_at r = Some s \<longrightarrow> s \<le> now)"

lemma item_set_row_ok:
  "item_row_ok r \<Longrightarrow> item_where m db e r \<Longrightarrow> event_fits e r \<Longrightarrow> item_row_ok (item_set e r)"
  by (cases e) (auto simp: item_row_ok_def item_checks owned_by_def split: option.splits)

lemma update_item_Inr:
  "update_item m i e db d = Inr (c, d') \<longleftrightarrow>
    c = rowcount (\<lambda>r. it_id r = i \<and> item_where m db e r) (idb_items d) \<and>
    d' = d\<lparr>idb_items := sql_update (\<lambda>r. it_id r = i \<and> item_where m db e r) (item_set e) (idb_items d)\<rparr> \<and>
    satisfies (item_cs d) (idb_items d')"
  by (auto simp: update_item_def and_then_Inr_iff stmt_iffs)

lemma item_rowcount:
  assumes "ingestion_ok d"
  shows "rowcount (\<lambda>r. it_id r = i \<and> item_where m db e r) (idb_items d) =
    (case lookup it_id i (idb_items d) of None \<Rightarrow> 0 | Some r \<Rightarrow> if item_where m db e r then 1 else 0)"
  by (rule rowcount_key) (rule ingestion_ok_items [OF assms])

lemma item_cs_update [simp]:
  "item_cs (d\<lparr>idb_items := t\<rparr>) = item_cs d" "item_cs (d\<lparr>idb_outbox := ob\<rparr>) = item_cs d"
  "item_cs (d\<lparr>idb_chunks := ck\<rparr>) = item_cs d"
  by (simp_all add: item_cs_def)

lemma chunk_cs_update [simp]:
  "chunk_cs (d\<lparr>idb_outbox := ob\<rparr>) = chunk_cs d" "chunk_cs (d\<lparr>idb_chunks := ck\<rparr>) = chunk_cs d"
  "chunk_cs (d\<lparr>idb_runs := rs\<rparr>) = chunk_cs d"
  by (simp_all add: chunk_cs_def)

lemma chunk_cs_item_update [simp]:
  "chunk_cs (d\<lparr>idb_items := sql_update p (item_set e) (idb_items d)\<rparr>) = chunk_cs d"
  by (simp add: chunk_cs_def map_sql_update)


lemma chunk_cs_mono:
  "satisfies (chunk_cs d) t \<Longrightarrow> set (map it_id (idb_items d)) \<subseteq> set (map it_id (idb_items d')) \<Longrightarrow>
    satisfies (chunk_cs d') t"
  by (auto simp: chunk_cs_def chunk_constraints_def list_all_iff)

lemma item_cs_mono:
  "satisfies (item_cs d) t \<Longrightarrow> set (idb_runs d) \<subseteq> set (idb_runs d') \<Longrightarrow>
    idb_artifact_ids d' = idb_artifact_ids d \<Longrightarrow> satisfies (item_cs d') t"
  by (simp add: satisfies_items list_all_iff) (metis image_mono subsetD)

lemma update_item_ok: "update_item m i e db d = Inr (c, d') \<Longrightarrow> ingestion_ok d \<Longrightarrow> ingestion_ok d'"
  by (auto simp: update_item_Inr ingestion_ok_def)

lemmas item_statements =
  heartbeat_item_def release_item_for_retry_def mark_item_failed_def mark_item_completed_def

lemma add_run_ok: "add_run rid conf h by db d = Inr d' \<Longrightarrow> ingestion_ok d \<Longrightarrow> ingestion_ok d'"
  by (auto simp: add_run_def and_then_Inr_iff stmt_iffs ingestion_ok_def intro: item_cs_mono)

lemma add_item_ok: "add_item i rid a db d = Inr d' \<Longrightarrow> ingestion_ok d \<Longrightarrow> ingestion_ok d'"
  by (auto simp: add_item_def and_then_Inr_iff stmt_iffs ingestion_ok_def elim!: chunk_cs_mono)

lemma claim_item_ok:
  "claim_item i now lease m db d = Inr (claim, d') \<Longrightarrow> ingestion_ok d \<Longrightarrow> ingestion_ok d'"
  by (auto simp: claim_item_def and_then_Inr_iff stmt_iffs ingestion_ok_def)

lemma reap_ok:
  "fail_exhausted_expired_items now m db d = Inr (c, d') \<Longrightarrow> ingestion_ok d \<Longrightarrow> ingestion_ok d'"
  by (auto simp: fail_exhausted_expired_items_def and_then_Inr_iff stmt_iffs ingestion_ok_def)

lemma enqueue_db_ok:
  "on_outbox (enqueue j ty agg payload db) d = Inr d' \<Longrightarrow> ingestion_ok d \<Longrightarrow> ingestion_ok d'"
  by (auto simp: on_outbox_def enqueue_def and_then_Inr_iff stmt_iffs satisfies_outbox ingestion_ok_def)

lemma discard_db_ok:
  "on_outbox (\<lambda>t. and_then (discard_pending_for_aggregate ty agg now code t)
      (\<lambda>(_, t'). Inr t')) d = Inr d' \<Longrightarrow> ingestion_ok d \<Longrightarrow> ingestion_ok d'"
  by (auto simp: on_outbox_def discard_pending_for_aggregate_def and_then_Inr_iff stmt_iffs
      satisfies_outbox ingestion_ok_def)

lemma sql_delete_chunks_ok:
  "satisfies (chunk_cs d) t \<Longrightarrow> satisfies (chunk_cs d) (sql_delete p t)"
  by (auto simp: chunk_cs_def chunk_constraints_def sql_delete_def list_all_iff distinct_map_filter)

lemma replace_for_item_ok:
  "replace_for_item i drafts ids db d = Inr d' \<Longrightarrow> ingestion_ok d \<Longrightarrow> ingestion_ok d'"
  by (auto simp: replace_for_item_def and_then_Inr_iff map_error_Inr_iff Let_def stmt_iffs
      ingestion_ok_def sql_delete_chunks_ok split: if_splits)

lemma commit_if_one_ok:
  assumes "ingestion_ok d" and "\<And>c d'. m = Inr (c, d') \<Longrightarrow> ingestion_ok d'"
  shows "ingestion_ok (db_after d (commit_if_one d m))"
  using assms by (cases m) (auto simp: commit_if_one_def split: prod.splits)

lemma schedule_retry_ok:
  "ingestion_ok d \<Longrightarrow> ingestion_ok (db_after d (schedule_retry_tx lc i n code msg j now db d))"
  unfolding schedule_retry_tx_def
  by (rule commit_if_one_ok)
    (auto simp: item_statements and_then_Inr_iff dest!: update_item_ok discard_db_ok enqueue_db_ok
      split: if_splits)

lemma replace_and_complete_ok:
  "ingestion_ok d \<Longrightarrow> ingestion_ok (db_after d (replace_chunks_and_mark_completed_tx i n drafts h meta ids now db d))"
proof (cases "replace_for_item i drafts ids db d")
  case (Inr d1)
  assume "ingestion_ok d"
  moreover from replace_for_item_ok [OF Inr this] have "ingestion_ok d1" .
  ultimately show ?thesis
    by (auto simp: replace_chunks_and_mark_completed_tx_def Inr item_statements map_error_Inr_iff
        intro!: commit_if_one_ok dest: update_item_ok)
qed (simp add: replace_chunks_and_mark_completed_tx_def)

lemma db_after_ok:
  "ingestion_ok d \<Longrightarrow> (\<And>x d'. m = Inr (x, d') \<Longrightarrow> ingestion_ok d') \<Longrightarrow> ingestion_ok (db_after d m)"
  by (cases m) auto

lemma ingestion_exec_ok:
  assumes "ingestion_ok d"
  shows "ingestion_ok (ingestion_exec lc db op d)"
proof (cases op)
  case (OutboxStep x10)
  with assms show ?thesis by (simp add: ingestion_ok_def outbox_exec_ok)
next
  case AddItem
  with assms show ?thesis
    by (auto simp: add_item_tx_def and_then_Inr_iff intro!: db_after_ok dest!: add_item_ok enqueue_db_ok)
next
  case ClaimItem
  with assms show ?thesis
    by (auto simp: claim_tx_def and_then_Inr_iff intro!: db_after_ok dest!: claim_item_ok)
next
  case CreateRun
  with assms show ?thesis
    by (auto simp: create_run_tx_def and_then_Inr_iff intro!: db_after_ok dest!: add_run_ok)
next
  case ReapItems
  with assms show ?thesis
    by (auto simp: reap_expired_items_tx_def and_then_Inr_iff intro!: db_after_ok dest!: reap_ok)
qed (use assms in \<open>auto simp: heartbeat_tx_def mark_failed_tx_def mark_completed_tx_def
    item_statements schedule_retry_ok replace_and_complete_ok intro!: commit_if_one_ok dest!: update_item_ok\<close>)

lemma run_ingestion_ok: "ingestion_ok d \<Longrightarrow> ingestion_ok (run_ingestion lc ops d)"
  unfolding run_ingestion_def by (induction ops arbitrary: d) (auto simp: ingestion_exec_ok)

lemma run_ingestion_simps [simp]:
  "run_ingestion lc [] d = d"
  "run_ingestion lc ((db, op) # ops) d = run_ingestion lc ops (ingestion_exec lc db op d)"
  by (simp_all add: run_ingestion_def)

section \<open>One item through an interleaving\<close>

text \<open>
  Every transaction of the service does to one item nothing, or one step of the lease protocol.
\<close>

lemma update_item_lookup:
  "update_item m i e db d = Inr (c, d') \<Longrightarrow> lookup it_id k (idb_items d) = Some r \<Longrightarrow>
    lookup it_id k (idb_items d') = Some r \<or>
    (\<exists>r'. item_exec m db e r = Some r' \<and> lookup it_id k (idb_items d') = Some r')"
  by (auto simp: update_item_Inr lookup_sql_update item_exec_def)


definition item_path :: "lifecycle \<Rightarrow> ingestion_item \<Rightarrow> ingestion_item \<Rightarrow> bool" where
  "item_path lc r r' \<longleftrightarrow> (\<exists>xs. r' = run_events item_exec (lc_max_attempts lc) xs r)"

lemma run_events_append:
  "run_events ex m (xs @ ys) r = run_events ex m ys (run_events ex m xs r)"
  by (induction xs arbitrary: r) simp_all

lemma item_path_refl [simp]: "item_path lc r r"
  unfolding item_path_def by (rule exI [of _ "[]"]) simp

lemma item_path_trans: "item_path lc r r1 \<Longrightarrow> item_path lc r1 r2 \<Longrightarrow> item_path lc r r2"
  unfolding item_path_def by (metis run_events_append)

text \<open>The WHERE clause of a statement that presents a token does not look at the limit.\<close>

lemma item_where_limit: "token (item_lease_event e) \<noteq> None \<Longrightarrow> item_where m db e r = item_where m' db e r"
  by (cases e) simp_all

lemma item_path_step: "item_where (lc_max_attempts lc) db e r \<Longrightarrow> item_path lc r (item_set e r)"
  unfolding item_path_def by (rule exI [of _ "[(db, e)]"]) (simp add: item_exec_def)

definition keeps_path :: "lifecycle \<Rightarrow> ingestion_db \<Rightarrow> ingestion_db \<Rightarrow> bool" where
  "keeps_path lc d d' \<longleftrightarrow> (\<forall>k r. lookup it_id k (idb_items d) = Some r \<longrightarrow>
    (\<exists>r'. lookup it_id k (idb_items d') = Some r' \<and> item_path lc r r'))"

lemma keeps_path_refl [simp]: "keeps_path lc d d"
  by (auto simp: keeps_path_def)

lemma keeps_path_items [simp]:
  "keeps_path lc d (d\<lparr>idb_outbox := ob\<rparr>)" "keeps_path lc d (d\<lparr>idb_chunks := ck\<rparr>)"
  "keeps_path lc d (d\<lparr>idb_runs := rs\<rparr>)"
  by (auto simp: keeps_path_def)

lemma keeps_path_trans: "keeps_path lc d d1 \<Longrightarrow> keeps_path lc d1 d2 \<Longrightarrow> keeps_path lc d d2"
  unfolding keeps_path_def by (meson item_path_trans)

lemma keeps_path_update:
  "(\<And>r. p r \<Longrightarrow> item_where (lc_max_attempts lc) db e r) \<Longrightarrow>
    keeps_path lc d (d\<lparr>idb_items := sql_update p (item_set e) (idb_items d)\<rparr>)"
  by (auto simp: keeps_path_def lookup_sql_update intro: item_path_step [of lc db e])

lemma keeps_path_append: "keeps_path lc d (d\<lparr>idb_items := idb_items d @ rows\<rparr>)"
  by (auto simp: keeps_path_def lookup_append)

lemma update_item_path:
  "update_item m i e db d = Inr (c, d') \<Longrightarrow> token (item_lease_event e) \<noteq> None \<Longrightarrow> keeps_path lc d d'"
  unfolding update_item_Inr using item_where_limit [of e m db _ "lc_max_attempts lc"]
  by (auto intro: keeps_path_update)

lemma on_outbox_path: "on_outbox f d = Inr d' \<Longrightarrow> keeps_path lc d d'"
  by (auto simp: on_outbox_def and_then_Inr_iff)

lemma replace_path: "replace_for_item i drafts ids db d = Inr d' \<Longrightarrow> keeps_path lc d d'"
  by (auto simp: replace_for_item_def and_then_Inr_iff map_error_Inr_iff Let_def split: if_splits)

lemma db_after_path: "(\<And>x d'. m = Inr (x, d') \<Longrightarrow> keeps_path lc d d') \<Longrightarrow> keeps_path lc d (db_after d m)"
  by (cases m) auto

lemma commit_if_one_path:
  "(\<And>c d'. m = Inr (c, d') \<Longrightarrow> keeps_path lc d d') \<Longrightarrow> keeps_path lc d (db_after d (commit_if_one d m))"
  by (cases m) (auto simp: commit_if_one_def split: prod.splits)

lemma schedule_retry_path: "keeps_path lc' d (db_after d (schedule_retry_tx lc i n code msg j now db d))"
proof -
  have retry: "keeps_path lc' d d3"
    if "update_item 0 i (ItemRelease n (Some code) msg) db d = Inr (c, d1)"
      and "on_outbox f d1 = Inr d2" and "on_outbox g d2 = Inr d3" for c d1 d2 d3 f g
    by (rule keeps_path_trans [OF keeps_path_trans])
      (use update_item_path [OF that(1)] on_outbox_path [OF that(2)] on_outbox_path [OF that(3)] in auto)
  show ?thesis
    unfolding schedule_retry_tx_def
    by (rule commit_if_one_path)
      (auto simp: item_statements and_then_Inr_iff intro: retry update_item_path split: if_splits)
qed

lemma ingestion_exec_path: "keeps_path lc d (ingestion_exec lc db op d)"
proof (cases op)
  case CreateRun
  then show ?thesis
    by (auto simp: create_run_tx_def add_run_def and_then_Inr_iff stmt_iffs intro!: db_after_path)
next
  case AddItem
  then show ?thesis
    by (auto simp: add_item_tx_def add_item_def and_then_Inr_iff stmt_iffs intro!: db_after_path
        dest!: on_outbox_path intro: keeps_path_trans keeps_path_append)
next
  case ClaimItem
  then show ?thesis
    by (auto simp: claim_tx_def claim_item_def and_then_Inr_iff stmt_iffs
        intro!: db_after_path keeps_path_update)
next
  case ReapItems
  then show ?thesis
    by (auto simp: reap_expired_items_tx_def fail_exhausted_expired_items_def and_then_Inr_iff stmt_iffs
        intro!: db_after_path keeps_path_update)
next
  case (ReplaceAndComplete i n drafts h meta ids now)
  show ?thesis
  proof (cases "replace_for_item i drafts ids db d")
    case (Inr d1)
    have "keeps_path lc d d'" if "update_item 0 i (ItemComplete n now h meta) db d1 = Inr (c, d')" for c d'
      using replace_path [OF Inr] update_item_path [OF that] by (auto intro: keeps_path_trans)
    then show ?thesis
      by (auto simp: ReplaceAndComplete replace_chunks_and_mark_completed_tx_def Inr item_statements
          map_error_Inr_iff intro!: commit_if_one_path)
  qed (simp add: ReplaceAndComplete replace_chunks_and_mark_completed_tx_def)
qed (auto simp: heartbeat_tx_def mark_failed_tx_def mark_completed_tx_def item_statements
    schedule_retry_path intro!: commit_if_one_path intro: update_item_path)

lemma run_ingestion_path: "keeps_path lc d (run_ingestion lc ops d)"
proof (induction ops arbitrary: d)
  case (Cons op ops)
  show ?case
    by (cases op) (simp add: keeps_path_trans [OF ingestion_exec_path Cons.IH])
qed simp


section \<open>Statements that match nothing, and statements that match\<close>

lemma update_item_none:
  assumes "ingestion_ok d" and "lookup it_id i (idb_items d) = Some r" and "\<not> item_where m db e r"
  shows "update_item m i e db d = Inr (0, d)"
proof -
  from assms have none: "rowcount (\<lambda>r. it_id r = i \<and> item_where m db e r) (idb_items d) = 0"
    by (simp add: item_rowcount)
  with assms(1) show ?thesis
    by (simp add: update_item_Inr sql_update_none [OF none] ingestion_ok_items)
qed

lemma update_item_one:
  assumes "ingestion_ok d" and "lookup it_id i (idb_items d) = Some r" and "item_where m db e r"
    and "event_fits e r"
  shows "\<exists>d'. update_item m i e db d = Inr (1, d') \<and> ingestion_ok d' \<and>
    lookup it_id i (idb_items d') = Some (item_set e r) \<and>
    d' = d\<lparr>idb_items := sql_update (\<lambda>r. it_id r = i \<and> item_where m db e r) (item_set e) (idb_items d)\<rparr>"
proof -
  let ?d' = "d\<lparr>idb_items := sql_update (\<lambda>r. it_id r = i \<and> item_where m db e r) (item_set e) (idb_items d)\<rparr>"
  have "r' = r" if "r' \<in> set (idb_items d)" "it_id r' = i" for r'
    using lookup_unique [OF ingestion_ok_items(2) [OF assms(1)] that] assms(2) by simp
  with assms have "satisfies (item_cs d)
      (sql_update (\<lambda>r. it_id r = i \<and> item_where m db e r) (item_set e) (idb_items d))"
    by (intro satisfies_items_update) (auto intro: item_set_row_ok ingestion_ok_items)
  with assms(1-3) have "update_item m i e db d = Inr (1, ?d')"
    by (simp add: update_item_Inr item_rowcount)
  moreover from update_item_ok [OF this assms(1)] have "ingestion_ok ?d'" .
  moreover have "lookup it_id i (idb_items ?d') = Some (item_set e r)"
    using lookup_SomeD [OF assms(2)] assms(2,3) by (simp add: lookup_sql_update)
  ultimately show ?thesis by blast
qed

lemma owned_where:
  "token (item_lease_event e) = Some n \<Longrightarrow> item_where m db e r = owned_by n db r"
  by (cases e) auto

lemma stale_update:
  assumes "ingestion_ok d" and "lookup it_id i (idb_items d) = Some r" and "\<not> owned_by n db r"
    and "token (item_lease_event e) = Some n"
  shows "update_item m i e db d = Inr (0, d)"
  using assms by (auto simp: owned_where intro: update_item_none)

lemma commit_if_one_simps [simp]:
  "commit_if_one d (Inr (0, d')) = Inr (False, d)"
  "commit_if_one d (Inr (Suc 0, d')) = Inr (True, d')"
  "commit_if_one d (Inl e) = Inl e"
  by (simp_all add: commit_if_one_def)

lemma commit_if_one_map_error [simp]:
  "commit_if_one d (map_error g m) = map_error g (commit_if_one d m)"
  by (cases m) (auto simp: commit_if_one_def split: prod.splits)

lemma chunk_ops_keep_items:
  "replace_for_item i drafts ids db d = Inr d1 \<Longrightarrow> idb_items d1 = idb_items d \<and> item_cs d1 = item_cs d \<and>
    idb_outbox d1 = idb_outbox d"
  by (auto simp: replace_for_item_def and_then_Inr_iff map_error_Inr_iff Let_def split: if_splits)

section \<open>Chunk sets\<close>

lemma other_items_chunks_kept:
  assumes "replace_for_item j drafts ids db d = Inr d1" and "i \<noteq> j"
  shows "item_chunk_rows i d1 = item_chunk_rows i d"
proof -
  have "filter (\<lambda>r. ck_item_id r = i) (chunk_rows j ids db drafts) = []"
    using assms(2) by (auto simp: chunk_rows_def filter_empty_conv)
  moreover have "filter (\<lambda>r. ck_item_id r = i) (sql_delete (\<lambda>r. ck_item_id r = j) t) =
      filter (\<lambda>r. ck_item_id r = i) t" for t :: "chunk_row list"
    using assms(2) by (auto simp: sql_delete_def intro!: filter_cong)
  ultimately show ?thesis
    using assms(1)
    by (auto simp: replace_for_item_def and_then_Inr_iff map_error_Inr_iff Let_def stmt_iffs
        item_chunk_rows_def sql_select_def split: if_splits)
qed

lemma guard_completed:
  assumes "ingestion_ok d" and "lookup it_id i (idb_items d) = Some r"
  shows "guard_mutable_chunk_set i d =
    (if it_status r = COMPLETED then Inl (ChunkSetImmutable COMPLETED_CHUNK_SET_IS_FROZEN) else Inr ())"
  using assms by (simp add: guard_mutable_chunk_set_def find_item_def one_or_none_pk ingestion_ok_items
      raise_if_def)

lemma statements_keep_chunks:
  "update_item m i e db d = Inr (c, d') \<Longrightarrow> idb_chunks d' = idb_chunks d"
  "on_outbox f d = Inr d' \<Longrightarrow> idb_chunks d' = idb_chunks d"
  "add_item i rid a db d = Inr d' \<Longrightarrow> idb_chunks d' = idb_chunks d"
  "add_run rid conf h by db d = Inr d' \<Longrightarrow> idb_chunks d' = idb_chunks d"
  "claim_item i now lease m db d = Inr (claim, d') \<Longrightarrow> idb_chunks d' = idb_chunks d"
  "fail_exhausted_expired_items now m db d = Inr (c, d') \<Longrightarrow> idb_chunks d' = idb_chunks d"
  by (auto simp: update_item_Inr on_outbox_def add_item_def add_run_def claim_item_def
      fail_exhausted_expired_items_def and_then_Inr_iff)

lemma commit_if_one_chunks:
  "(\<And>c d'. m = Inr (c, d') \<Longrightarrow> idb_chunks d' = idb_chunks d) \<Longrightarrow>
    idb_chunks (db_after d (commit_if_one d m)) = idb_chunks d"
  by (cases m) (auto simp: commit_if_one_def split: prod.splits)

lemma db_after_chunks:
  "(\<And>x d'. m = Inr (x, d') \<Longrightarrow> idb_chunks d' = idb_chunks d) \<Longrightarrow> idb_chunks (db_after d m) = idb_chunks d"
  by (cases m) auto

lemma exec_keeps_completed_chunks:
  assumes "ingestion_ok d" and "lookup it_id i (idb_items d) = Some r" and "it_status r = COMPLETED"
  shows "item_chunk_rows i (ingestion_exec lc db op d) = item_chunk_rows i d"
proof (cases op)
  case (ReplaceAndComplete j n drafts h meta ids now)
  show ?thesis
  proof (cases "replace_for_item j drafts ids db d")
    case (Inr d1)
    then have "i \<noteq> j" using guard_completed [OF assms(1,2)] assms(3)
      by (auto simp: replace_for_item_def)
    with Inr have "item_chunk_rows i d1 = item_chunk_rows i d" by (rule other_items_chunks_kept)
    moreover have "item_chunk_rows i d' = item_chunk_rows i d1"
      if "update_item 0 j (ItemComplete n now h meta) db d1 = Inr (c, d')" for c d'
      using statements_keep_chunks(1) [OF that] by (simp add: item_chunk_rows_def)
    ultimately show ?thesis
      by (cases "update_item 0 j (ItemComplete n now h meta) db d1")
        (auto simp: ReplaceAndComplete replace_chunks_and_mark_completed_tx_def Inr item_statements
          commit_if_one_def split: prod.splits)
  qed (simp add: ReplaceAndComplete replace_chunks_and_mark_completed_tx_def)
next
  case (ScheduleRetry j n code msg job now)
  have "idb_chunks (ingestion_exec lc db op d) = idb_chunks d"
    unfolding ScheduleRetry ingestion_exec.simps schedule_retry_tx_def
    by (rule commit_if_one_chunks)
      (auto simp: item_statements and_then_Inr_iff dest!: statements_keep_chunks split: if_splits)
  then show ?thesis by (simp add: item_chunk_rows_def)
next
  case (AddItem j job rid a)
  then have "idb_chunks (ingestion_exec lc db op d) = idb_chunks d"
    by (simp only: ingestion_exec.simps add_item_tx_def)
      (rule db_after_chunks, auto simp: and_then_Inr_iff dest!: statements_keep_chunks)
  then show ?thesis by (simp add: item_chunk_rows_def)
next
  case (CreateRun rid conf h who)
  then have "idb_chunks (ingestion_exec lc db op d) = idb_chunks d"
    by (simp only: ingestion_exec.simps create_run_tx_def)
      (rule db_after_chunks, auto simp: and_then_Inr_iff dest!: statements_keep_chunks)
  then show ?thesis by (simp add: item_chunk_rows_def)
next
  case (ClaimItem j now)
  then have "idb_chunks (ingestion_exec lc db op d) = idb_chunks d"
    by (simp only: ingestion_exec.simps claim_tx_def)
      (rule db_after_chunks, auto simp: and_then_Inr_iff dest!: statements_keep_chunks)
  then show ?thesis by (simp add: item_chunk_rows_def)
next
  case (ReapItems now)
  then have "idb_chunks (ingestion_exec lc db op d) = idb_chunks d"
    by (simp only: ingestion_exec.simps reap_expired_items_tx_def)
      (rule db_after_chunks, auto simp: and_then_Inr_iff dest!: statements_keep_chunks)
  then show ?thesis by (simp add: item_chunk_rows_def)
qed (simp_all add: item_chunk_rows_def heartbeat_tx_def mark_failed_tx_def mark_completed_tx_def
    item_statements commit_if_one_chunks statements_keep_chunks)


section \<open>Storing the drafts of a chunker\<close>

lemma chunk_rows_simps [simp]:
  "length ids = length drafts \<Longrightarrow> map ck_draft (chunk_rows i ids db drafts) = drafts"
  "length ids = length drafts \<Longrightarrow> map ck_id (chunk_rows i ids db drafts) = ids"
  by (induction ids drafts rule: list_induct2) (auto simp: chunk_rows_def)

lemma chunk_rows_item: "r \<in> set (chunk_rows i ids db drafts) \<Longrightarrow> ck_item_id r = i"
  by (auto simp: chunk_rows_def)

lemma chunk_rows_index:
  "length ids = length drafts \<Longrightarrow> map (\<lambda>r. (ck_item_id r, cd_chunk_index (ck_draft r))) (chunk_rows i ids db drafts) =
    map (\<lambda>x. (i, cd_chunk_index x)) drafts"
  by (induction ids drafts rule: list_induct2) (auto simp: chunk_rows_def)

definition pages_positive :: "chunk_draft \<Rightarrow> bool" where
  "pages_positive c \<longleftrightarrow> positive_page (cd_page_start c) \<and> positive_page (cd_page_end c)"

text \<open>A well-formed draft with positive pages meets the CHECK constraints of the table.\<close>

lemma draft_meets_checks:
  assumes "draft_wf (whitespace_builder sha256 lang) c" and "pages_positive c"
  shows "content_non_empty c" and "0 \<le> cd_token_count c" and "valid_page_range c"
proof -
  from assms(1) have "strip (cd_content c) \<noteq> []" and s: "strip (cd_content c) = cd_content c"
    by (auto simp: draft_wf_def)
  from strip_last [OF this(1)] this have "last (cd_content c) \<noteq> 32" "cd_content c \<noteq> []" by auto
  then show "content_non_empty c"
    unfolding content_non_empty_def list_ex_iff by (metis last_in_set)
  from assms show "0 \<le> cd_token_count c" "valid_page_range c"
    by (auto simp: draft_wf_def whitespace_count_def valid_page_range_def split: option.splits)
qed

lemma satisfies_chunks:
  "satisfies (chunk_cs d) t \<longleftrightarrow>
    list_all (\<lambda>r. content_non_empty (ck_draft r) \<and> 0 \<le> cd_token_count (ck_draft r) \<and>
      pages_positive (ck_draft r) \<and> valid_page_range (ck_draft r) \<and> ck_item_id r \<in> it_id ` set (idb_items d)) t \<and>
    distinct (map (\<lambda>r. (ck_item_id r, cd_chunk_index (ck_draft r))) t) \<and> distinct (map ck_id t)"
  by (auto simp: chunk_cs_def chunk_constraints_def list_all_iff pages_positive_def)

lemma insert_chunks_ok:
  assumes "ingestion_ok d" and "i \<in> it_id ` set (idb_items d)"
    and "drafts_wf (whitespace_builder sha256 lang) drafts" and "list_all pages_positive drafts"
    and "length ids = length drafts" and "distinct ids" and "set ids \<inter> ck_id ` set (idb_chunks d) = {}"
  shows "satisfies (chunk_cs d)
    (sql_delete (\<lambda>r. ck_item_id r = i) (idb_chunks d) @ chunk_rows i ids db drafts)"
proof -
  let ?kept = "sql_delete (\<lambda>r. ck_item_id r = i) (idb_chunks d)"
  let ?rows = "chunk_rows i ids db drafts"
  have kept: "satisfies (chunk_cs d) ?kept"
    using assms(1) by (simp add: ingestion_ok_def sql_delete_chunks_ok)
  have draft: "ck_draft r \<in> set drafts" if "r \<in> set ?rows" for r
    using that chunk_rows_simps(1) [OF assms(5), of i db] by (metis image_eqI set_map)
  have checks: "content_non_empty (ck_draft r) \<and> 0 \<le> cd_token_count (ck_draft r) \<and>
      pages_positive (ck_draft r) \<and> valid_page_range (ck_draft r)" if "r \<in> set ?rows" for r
    using draft [OF that] assms(3,4) draft_meets_checks by (auto simp: drafts_wf_def list_all_iff)
  have "distinct (map cd_chunk_index drafts)"
    using assms(3) by (simp add: drafts_wf_def)
  then have "distinct (map (\<lambda>r. (ck_item_id r, cd_chunk_index (ck_draft r))) ?rows)"
    unfolding chunk_rows_index [OF assms(5)] by (simp add: distinct_map inj_on_def)
  moreover have "distinct (map ck_id ?rows)" "set ids \<inter> ck_id ` set ?kept = {}"
    using assms(5,6,7) by (auto simp: sql_delete_def)
  moreover from this have "ck_id ` set ?rows \<inter> ck_id ` set ?kept = {}"
    using chunk_rows_simps(2) [OF assms(5), of i db] by (metis set_map)
  moreover have "(\<lambda>r. (ck_item_id r, cd_chunk_index (ck_draft r))) ` set ?kept \<inter>
      (\<lambda>r. (ck_item_id r, cd_chunk_index (ck_draft r))) ` set ?rows = {}"
  proof -
    have "ck_item_id r \<noteq> ck_item_id r'" if "r \<in> set ?kept" "r' \<in> set ?rows" for r r'
      using that chunk_rows_item [OF that(2)] by (simp add: sql_delete_def)
    then show ?thesis by blast
  qed
  moreover have "list_all (\<lambda>r. content_non_empty (ck_draft r) \<and> 0 \<le> cd_token_count (ck_draft r) \<and>
      pages_positive (ck_draft r) \<and> valid_page_range (ck_draft r) \<and> ck_item_id r \<in> it_id ` set (idb_items d)) ?rows"
    unfolding list_all_iff
  proof
    fix r assume r: "r \<in> set ?rows"
    from checks [OF r] chunk_rows_item [OF r] assms(2)
    show "content_non_empty (ck_draft r) \<and> 0 \<le> cd_token_count (ck_draft r) \<and>
      pages_positive (ck_draft r) \<and> valid_page_range (ck_draft r) \<and> ck_item_id r \<in> it_id ` set (idb_items d)"
      by simp
  qed
  ultimately show ?thesis
    using kept by (simp add: satisfies_chunks Int_commute)
qed

lemma stored_chunks:
  assumes "idb_chunks d' = sql_delete (\<lambda>r. ck_item_id r = i) (idb_chunks d) @ chunk_rows i ids db drafts"
    and "drafts_wf b drafts" and "length ids = length drafts"
  shows "item_chunk_rows i d' = chunk_rows i ids db drafts"
proof -
  have "filter (\<lambda>r. ck_item_id r = i) (idb_chunks d') = chunk_rows i ids db drafts"
    by (auto simp: assms(1) sql_delete_def filter_id_conv filter_empty_conv dest: chunk_rows_item)
  moreover have "map (\<lambda>r. cd_chunk_index (ck_draft r)) (chunk_rows i ids db drafts) =
      map cd_chunk_index (map ck_draft (chunk_rows i ids db drafts))"
    by (simp only: map_map comp_def)
  then have "sorted (map (\<lambda>r. cd_chunk_index (ck_draft r)) (chunk_rows i ids db drafts))"
    using assms(2) by (simp add: assms(3) drafts_wf_def)
  ultimately show ?thesis
    by (simp add: item_chunk_rows_def sql_select_def sort_key_id_if_sorted)
qed

section \<open>Properties\<close>

definition sample_run :: ingestion_run where
  "sample_run = \<lparr>run_id = 50, run_configuration = JObj [(lit ''chunking'', config_as_mapping default_chunking_config)],
    run_configuration_hash = ''c'', run_created_by = None, run_created_at = 0\<rparr>"

definition running_item :: ingestion_item where
  "running_item = (new_item 1 50 60 0)\<lparr>it_status := RUNNING, it_attempt_count := 1,
    it_claimed_at := Some 10, it_lease_expires_at := Some 40, it_started_at := Some 10\<rparr>"

definition sample_db :: "ingestion_item \<Rightarrow> ingestion_db" where
  "sample_db item = \<lparr>idb_runs = [sample_run], idb_items = [item], idb_chunks = [],
    idb_outbox = [], idb_artifact_ids = [60], idb_principal_ids = []\<rparr>"

definition sample_lifecycle :: lifecycle where
  "sample_lifecycle = \<lparr>lc_lease_duration = 30, lc_max_attempts = 3\<rparr>"

lemma sample_db_ok: "item_row_ok item \<Longrightarrow> it_run_id item = 50 \<Longrightarrow> it_artifact_id item = 60 \<Longrightarrow>
    ingestion_ok (sample_db item)"
  by (auto simp: ingestion_ok_def satisfies_items sample_db_def sample_run_def chunk_cs_def
      chunk_constraints_def run_constraints_def outbox_ok_def)

lemma running_item_ok [simp]: "item_row_ok running_item"
  by (simp add: running_item_def new_item_def item_row_ok_def item_checks)

lemma running_item_simps [simp]:
  "it_id running_item = 1" "it_run_id running_item = 50" "it_artifact_id running_item = 60"
  "it_status running_item = RUNNING" "it_attempt_count running_item = 1"
  "it_lease_expires_at running_item = Some 40" "it_claimed_at running_item = Some 10"
  "it_started_at running_item = Some 10"
  by (simp_all add: running_item_def new_item_def)

lemma sample_lookup [simp]: "lookup it_id k (idb_items (sample_db item)) = (if it_id item = k then Some item else None)"
  by (simp add: sample_db_def)

text \<open>
  C1. A stale worker is fenced off. Once an item's attempt count has passed a worker's attempt
  number, whatever else runs in between, every transaction of that worker reports that the
  lease is lost and changes nothing: heartbeat, retry, failure and completion return False,
  and its chunks are never stored.
\<close>

theorem stale_worker_is_fenced:
  assumes "ingestion_ok d" and "lookup it_id i (idb_items d) = Some r" and "n < it_attempt_count r"
    and "d' = run_ingestion lc ops d"
  shows "heartbeat_tx lc i n now db d' = Inr (False, d') \<and>
    schedule_retry_tx lc i n code msg job now db d' = Inr (False, d') \<and>
    mark_failed_tx i n code msg meta now db d' = Inr (False, d') \<and>
    mark_completed_tx i n h emeta now db d' = Inr (False, d') \<and>
    (\<forall>x d''. replace_chunks_and_mark_completed_tx i n drafts h emeta ids now db d' = Inr (x, d'') \<longrightarrow>
      \<not> x \<and> d'' = d')"
proof -
  from run_ingestion_path [of lc d ops] assms(2,4) obtain r'
    where r': "lookup it_id i (idb_items d') = Some r'" and "item_path lc r r'"
    by (auto simp: keeps_path_def)
  then have "it_attempt_count r \<le> it_attempt_count r'"
    using items.attempts_mono by (auto simp: item_path_def item_view_def)
  with assms(3) have "\<not> owned_by n db r'" by (simp add: owned_by_def)
  moreover from assms(1,4) have ok: "ingestion_ok d'" by (simp add: run_ingestion_ok)
  ultimately have none: "update_item 0 i e db d' = Inr (0, d')" if "token (item_lease_event e) = Some n" for e
    using r' that by (intro stale_update)
  have "\<not> x \<and> d'' = d'"
    if "replace_chunks_and_mark_completed_tx i n drafts h emeta ids now db d' = Inr (x, d'')" for x d''
  proof -
    from that obtain d1 where d1: "replace_for_item i drafts ids db d' = Inr d1"
      by (auto simp: replace_chunks_and_mark_completed_tx_def and_then_Inr_iff)
    from chunk_ops_keep_items [OF this] r' have "lookup it_id i (idb_items d1) = Some r'" by simp
    with replace_for_item_ok [OF d1 ok] \<open>\<not> owned_by n db r'\<close>
    have "update_item 0 i (ItemComplete n now h emeta) db d1 = Inr (0, d1)"
      by (intro stale_update) simp_all
    with that d1 show ?thesis
      by (auto simp: replace_chunks_and_mark_completed_tx_def item_statements)
  qed
  then have chunks: "\<forall>x d''. replace_chunks_and_mark_completed_tx i n drafts h emeta ids now db d' = Inr (x, d'') \<longrightarrow>
      \<not> x \<and> d'' = d'" by blast
  from none have "heartbeat_tx lc i n now db d' = Inr (False, d')"
    and "schedule_retry_tx lc i n code msg job now db d' = Inr (False, d')"
    and "mark_failed_tx i n code msg meta now db d' = Inr (False, d')"
    and "mark_completed_tx i n h emeta now db d' = Inr (False, d')"
    by (simp_all add: heartbeat_tx_def schedule_retry_tx_def mark_failed_tx_def mark_completed_tx_def
        item_statements)
  with chunks show ?thesis by blast
qed

theorem stale_worker_is_fenced_witness:
  "mark_completed_tx 1 0 ''h'' (JObj []) 20 20
      (run_ingestion sample_lifecycle [(15, HeartbeatItem 1 1 15)] (sample_db running_item)) =
    Inr (False, run_ingestion sample_lifecycle [(15, HeartbeatItem 1 1 15)] (sample_db running_item))"
proof -
  have ok: "ingestion_ok (sample_db running_item)" by (simp add: sample_db_ok)
  have row: "lookup it_id 1 (idb_items (sample_db running_item)) = Some running_item" by simp
  have "0 < it_attempt_count running_item" by simp
  from stale_worker_is_fenced [OF ok row this refl] show ?thesis by blast
qed

text \<open>
  C6. Attempts are bounded and final states are final: through any interleaving of the
  service's transactions and the publisher, an item's attempt count never decreases and never
  exceeds the configured maximum, and a completed or failed item never changes again.
\<close>

theorem item_attempts_bounded_and_final:
  assumes "lookup it_id i (idb_items d) = Some r" and "it_attempt_count r \<le> lc_max_attempts lc"
  shows "\<exists>r'. lookup it_id i (idb_items (run_ingestion lc ops d)) = Some r' \<and>
    it_attempt_count r \<le> it_attempt_count r' \<and> it_attempt_count r' \<le> lc_max_attempts lc \<and>
    (it_status r \<in> {COMPLETED, FAILED} \<longrightarrow> r' = r)"
proof -
  from run_ingestion_path [of lc d ops] assms(1) obtain xs
    where "lookup it_id i (idb_items (run_ingestion lc ops d)) =
      Some (run_events item_exec (lc_max_attempts lc) xs r)"
    by (auto simp: keeps_path_def item_path_def)
  moreover have "lv_attempts (item_view r) = it_attempt_count r" for r by (simp add: item_view_def)
  moreover have "terminal (item_view r) \<longleftrightarrow> it_status r \<in> {COMPLETED, FAILED}" for r
    by (simp add: item_view_def terminal_def)
  ultimately show ?thesis
    using items.attempts_mono [of r "lc_max_attempts lc" xs] assms(2)
      items.attempts_bounded [of r "lc_max_attempts lc" xs]
      items.terminal_stable [of r "lc_max_attempts lc" xs] by metis
qed

theorem item_attempts_bounded_and_final_witness:
  "\<exists>r'. lookup it_id 1 (idb_items (run_ingestion sample_lifecycle
      [(50, ClaimItem 1 50), (60, ReapItems 60)] (sample_db running_item))) = Some r' \<and>
    it_attempt_count r' \<le> 3"
  using item_attempts_bounded_and_final [of 1 "sample_db running_item" running_item sample_lifecycle
      "[(50, ClaimItem 1 50), (60, ReapItems 60)]"]
  by (auto simp: sample_lifecycle_def)

text \<open>
  C2. The chunk set of a completed item is frozen: no interleaving of the service's operations
  adds, removes or changes a chunk of an item that is completed, so an embedding run that reads
  the chunks twice sees the same rows.
\<close>

theorem completed_chunk_set_is_frozen:
  assumes "ingestion_ok d" and "lookup it_id i (idb_items d) = Some r" and "it_status r = COMPLETED"
  shows "item_chunk_rows i (run_ingestion lc ops d) = item_chunk_rows i d \<and>
    list_chunks i (run_ingestion lc ops d) = list_chunks i d \<and>
    is_item_embeddable i (run_ingestion lc ops d) = Inr True"
proof -
  have frozen: "item_chunk_rows i (run_ingestion lc ops d) = item_chunk_rows i d"
    using assms
  proof (induction ops arbitrary: d)
    case (Cons op ops)
    obtain db o1 where op: "op = (db, o1)" by (cases op)
    let ?d = "ingestion_exec lc db o1 d"
    from ingestion_exec_path [of lc d db o1] Cons.prems(2) obtain xs
      where "lookup it_id i (idb_items ?d) = Some (run_events item_exec (lc_max_attempts lc) xs r)"
      by (auto simp: keeps_path_def item_path_def)
    moreover have "run_events item_exec (lc_max_attempts lc) xs r = r"
      using Cons.prems(3) by (intro items.terminal_stable) (simp add: terminal_def item_view_def)
    ultimately have "item_chunk_rows i (run_ingestion lc ops ?d) = item_chunk_rows i ?d"
      using Cons.prems by (intro Cons.IH) (simp_all add: ingestion_exec_ok)
    with exec_keeps_completed_chunks [OF Cons.prems, of lc db o1] show ?case by (simp add: op)
  qed simp
  from run_ingestion_path [of lc d ops] assms(2) obtain xs
    where "lookup it_id i (idb_items (run_ingestion lc ops d)) =
      Some (run_events item_exec (lc_max_attempts lc) xs r)"
    by (auto simp: keeps_path_def item_path_def)
  moreover have "run_events item_exec (lc_max_attempts lc) xs r = r"
    using assms(3) by (intro items.terminal_stable) (simp add: terminal_def item_view_def)
  ultimately have "is_item_embeddable i (run_ingestion lc ops d) = Inr True"
    using assms by (simp add: is_item_embeddable_def find_item_def one_or_none_pk
        ingestion_ok_items(2) [OF run_ingestion_ok])
  with frozen show ?thesis by (simp add: list_chunks_def)
qed

definition completed_item :: ingestion_item where
  "completed_item = running_item\<lparr>it_status := COMPLETED, it_claimed_at := None,
    it_lease_expires_at := None, it_completed_at := Some 20\<rparr>"

theorem completed_chunk_set_is_frozen_witness:
  "is_item_embeddable 1 (run_ingestion sample_lifecycle
    [(30, ReplaceAndComplete 1 1 [] ''h'' (JObj []) [] 30)] (sample_db completed_item)) = Inr True"
proof -
  have "item_row_ok completed_item" "it_id completed_item = 1" "it_run_id completed_item = 50"
    "it_artifact_id completed_item = 60" "it_status completed_item = COMPLETED"
    by (simp_all add: completed_item_def running_item_def new_item_def item_row_ok_def item_checks)
  then have ok: "ingestion_ok (sample_db completed_item)" and st: "it_status completed_item = COMPLETED"
    and row: "lookup it_id 1 (idb_items (sample_db completed_item)) = Some completed_item"
    by (simp_all add: sample_db_ok)
  from completed_chunk_set_is_frozen [OF ok row st] show ?thesis by blast
qed


text \<open>What a successful claim leaves, and when a claim succeeds.\<close>

lemma claim_effect:
  assumes "ingestion_ok d" and "claim_tx lc i now db d = Inr (Some c, d')"
  obtains r where "lookup it_id i (idb_items d) = Some r"
    "item_where (lc_max_attempts lc) db (ItemClaim now (now + lc_lease_duration lc)) r"
    "c = to_claimed_item (item_set (ItemClaim now (now + lc_lease_duration lc)) r)"
    "lookup it_id i (idb_items d') = Some (item_set (ItemClaim now (now + lc_lease_duration lc)) r)"
    "ingestion_ok d'" "idb_runs d' = idb_runs d" "idb_chunks d' = idb_chunks d" "idb_outbox d' = idb_outbox d"
proof -
  let ?e = "ItemClaim now (now + lc_lease_duration lc)"
  let ?p = "\<lambda>r. it_id r = i \<and> item_where (lc_max_attempts lc) db ?e r"
  from assms(2) have claim: "claim_item i now (now + lc_lease_duration lc) (lc_max_attempts lc) db d = Inr (Some c, d')"
    by (auto simp: claim_tx_def and_then_Inr_iff)
  then have ok': "ingestion_ok d'" using claim_item_ok assms(1) by blast
  from claim obtain r0 where "map (item_set ?e) (filter ?p (idb_items d)) = [r0]"
    and c: "c = to_claimed_item r0"
    and d': "d' = d\<lparr>idb_items := sql_update ?p (item_set ?e) (idb_items d)\<rparr>"
    by (auto simp: claim_item_def and_then_Inr_iff stmt_iffs dest!: one_or_none_Some)
  then obtain r where r: "filter ?p (idb_items d) = [r]" and r0: "r0 = item_set ?e r" by auto
  from filter_singletonD [OF r] have mem: "r \<in> set (idb_items d)" and p: "?p r" by simp_all
  have row: "lookup it_id i (idb_items d) = Some r"
    using lookup_unique [OF ingestion_ok_items(2) [OF assms(1)] mem] p by simp
  have row': "lookup it_id i (idb_items d') = Some (item_set ?e r)"
    using row p by (simp add: d' lookup_sql_update)
  show ?thesis
    using row row' p c r0 ok' d' by (intro that [of r]) simp_all
qed

lemma claim_succeeds:
  assumes "ingestion_ok d" and "lookup it_id i (idb_items d) = Some r"
    and "item_where (lc_max_attempts lc) db (ItemClaim now (now + lc_lease_duration lc)) r"
    and "0 < lc_lease_duration lc"
  shows "\<exists>d'. claim_tx lc i now db d =
    Inr (Some (to_claimed_item (item_set (ItemClaim now (now + lc_lease_duration lc)) r)), d')"
proof -
  let ?e = "ItemClaim now (now + lc_lease_duration lc)"
  let ?p = "\<lambda>r. it_id r = i \<and> item_where (lc_max_attempts lc) db ?e r"
  from update_item_one [OF assms(1-3)] assms(4) have "satisfies (item_cs d) (sql_update ?p (item_set ?e) (idb_items d))"
    by (auto simp: update_item_Inr)
  moreover have "filter ?p (idb_items d) = [r]"
    using filter_key [OF ingestion_ok_items(2) [OF assms(1)], of i] assms(2,3) by simp
  ultimately show ?thesis
    by (simp add: claim_tx_def claim_item_def update_returning_def sql_write_ok del: item_where.simps item_set.simps)
qed

text \<open>
  C4. A claim is exclusive. When \<open>claim\<close> returns a claim, the item is running with one attempt
  more than before and that attempt number is the worker's token; no other claim of the item
  succeeds before the lease has expired on the database clock, and the worker itself can
  renew the lease, keep working and finish until then.
\<close>

theorem claim_is_exclusive:
  assumes "ingestion_ok d" and "claim_tx lc i now db d = Inr (Some c, d')"
    and "db' < now + lc_lease_duration lc" and "now \<le> now'" and "0 < lc_lease_duration lc"
  shows "\<exists>r. lookup it_id i (idb_items d) = Some r \<and> ci_attempt_number c = it_attempt_count r + 1 \<and>
    it_attempt_count r < lc_max_attempts lc \<and>
    lookup it_id i (idb_items d') = Some (item_set (ItemClaim now (now + lc_lease_duration lc)) r) \<and>
    claim_tx lc i now' db' d' = Inr (None, d') \<and>
    (\<exists>d''. heartbeat_tx lc i (ci_attempt_number c) now' db' d' = Inr (True, d''))"
proof -
  let ?e = "ItemClaim now (now + lc_lease_duration lc)"
  from claim_effect [OF assms(1,2)] obtain r where row: "lookup it_id i (idb_items d) = Some r"
    and p: "item_where (lc_max_attempts lc) db ?e r" and c: "c = to_claimed_item (item_set ?e r)"
    and row': "lookup it_id i (idb_items d') = Some (item_set ?e r)" and ok': "ingestion_ok d'" by blast
  let ?r = "item_set ?e r"
  have own: "owned_by (ci_attempt_number c) db' ?r"
    using assms(3) by (simp add: c to_claimed_item_def owned_by_def)
  have "\<not> item_where (lc_max_attempts lc) db' (ItemClaim now' (now' + lc_lease_duration lc)) ?r"
    using assms(3) by simp
  moreover from this have "filter (\<lambda>r. it_id r = i \<and>
      item_where (lc_max_attempts lc) db' (ItemClaim now' (now' + lc_lease_duration lc)) r) (idb_items d') = []"
    using row' by (subst filter_key [OF ingestion_ok_items(2) [OF ok']]) simp
  ultimately have "claim_tx lc i now' db' d' = Inr (None, d')"
    using ok' sql_update_none [of _ "idb_items d'"]
    by (simp add: claim_tx_def claim_item_def update_returning_def and_then_def sql_write_ok
        rowcount_def ingestion_ok_items del: item_where.simps)
  moreover have "\<exists>d''. update_item 0 i (ItemHeartbeat (ci_attempt_number c) (now' + lc_lease_duration lc)) db' d' = Inr (1, d'')"
    using update_item_one [OF ok' row', of 0 db' "ItemHeartbeat (ci_attempt_number c) (now' + lc_lease_duration lc)"]
      own assms(4,5) by auto
  ultimately show ?thesis
    using row row' p by (auto simp: heartbeat_tx_def item_statements c to_claimed_item_def)
qed

theorem claim_is_exclusive_witness:
  "\<exists>c d'. claim_tx sample_lifecycle 1 45 45 (sample_db running_item) = Inr (Some c, d') \<and>
    claim_tx sample_lifecycle 1 60 60 d' = Inr (None, d')"
proof -
  have ok: "ingestion_ok (sample_db running_item)" by (simp add: sample_db_ok)
  let ?d' = "(sample_db running_item)\<lparr>idb_items := [item_set (ItemClaim 45 75) running_item]\<rparr>"
  have "item_row_ok (item_set (ItemClaim 45 75) running_item)"
    by (simp add: item_row_ok_def item_checks running_item_def new_item_def)
  then have "ingestion_ok (sample_db (item_set (ItemClaim 45 75) running_item))"
    by (intro sample_db_ok) simp_all
  then have "satisfies (item_cs (sample_db running_item)) [item_set (ItemClaim 45 75) running_item]"
    by (simp add: ingestion_ok_def sample_db_def item_cs_def)
  then have claim: "claim_tx sample_lifecycle 1 45 45 (sample_db running_item) =
      Inr (Some (to_claimed_item (item_set (ItemClaim 45 75) running_item)), ?d')"
    by (simp add: claim_tx_def claim_item_def update_returning_def sample_lifecycle_def sql_update_def
        sample_db_def sql_write_ok)
  from claim_is_exclusive [OF ok claim, of 60 60] claim show ?thesis
    by (auto simp: sample_lifecycle_def)
qed


text \<open>Every instant already stored is at most \<open>now\<close>: the application clock has not gone back.\<close>

definition clock_ok :: "datetime \<Rightarrow> ingestion_db \<Rightarrow> bool" where
  "clock_ok now d \<longleftrightarrow> list_all (\<lambda>r. (\<forall>s. it_started_at r = Some s \<longrightarrow> s \<le> now) \<and>
    (\<forall>c. it_claimed_at r = Some c \<longrightarrow> c \<le> now)) (idb_items d)"

lemma clock_ok_update:
  assumes "clock_ok now d" and "\<And>now' lease. e = ItemClaim now' lease \<Longrightarrow> now' = now"
  shows "clock_ok now (d\<lparr>idb_items := sql_update p (item_set e) (idb_items d)\<rparr>)"
proof -
  have "list_all (\<lambda>r. (\<forall>s. it_started_at r = Some s \<longrightarrow> s \<le> now) \<and>
      (\<forall>c. it_claimed_at r = Some c \<longrightarrow> c \<le> now)) (sql_update p (item_set e) (idb_items d))"
    using assms(1) unfolding clock_ok_def
    by (rule list_all_sql_update) (use assms(2) in \<open>cases e, auto simp: coalesce_def split: option.splits\<close>)
  then show ?thesis by (simp add: clock_ok_def)
qed

lemma satisfies_items_exec:
  assumes "ingestion_ok d" and "\<And>r. p r \<Longrightarrow> item_where m db e r"
    and "\<And>r. r \<in> set (idb_items d) \<Longrightarrow> event_fits e r"
  shows "satisfies (item_cs d) (sql_update p (item_set e) (idb_items d))"
  by (rule satisfies_items_update)
    (use assms in \<open>simp_all add: ingestion_ok_items item_set_row_ok [of _ m db e]\<close>)

lemma clock_fits:
  assumes "clock_ok now d" and "r \<in> set (idb_items d)" and "0 < lease"
  shows "event_fits (ItemClaim now (now + lease)) r" "event_fits (ItemHeartbeat n (now + lease)) r"
    "event_fits (ItemFail n now code msg meta) r" "event_fits (ItemComplete n now h emeta) r"
    "event_fits (ItemReap now) r"
  using assms by (auto simp: clock_ok_def list_all_iff)

lemma update_item_total:
  assumes "ingestion_ok d" and "clock_ok now d" and "\<And>r. r \<in> set (idb_items d) \<Longrightarrow> event_fits e r"
    and "\<And>now' lease. e \<noteq> ItemClaim now' lease"
  shows "\<exists>c d'. update_item m i e db d = Inr (c, d') \<and> clock_ok now d' \<and> ingestion_ok d'"
proof -
  let ?p = "\<lambda>r. it_id r = i \<and> item_where m db e r"
  have "satisfies (item_cs d) (sql_update ?p (item_set e) (idb_items d))"
    using assms(1,3) by (intro satisfies_items_exec) auto
  then have "update_item m i e db d = Inr (rowcount ?p (idb_items d),
      d\<lparr>idb_items := sql_update ?p (item_set e) (idb_items d)\<rparr>)"
    by (simp add: update_item_Inr)
  moreover from this have "ingestion_ok (d\<lparr>idb_items := sql_update ?p (item_set e) (idb_items d)\<rparr>)"
    using update_item_ok assms(1) by blast
  moreover have "clock_ok now (d\<lparr>idb_items := sql_update ?p (item_set e) (idb_items d)\<rparr>)"
    using assms by (intro clock_ok_update) auto
  ultimately show ?thesis by blast
qed

lemma commit_total:
  assumes "\<exists>c d'. m = Inr (c, d') \<and> P d'" and "P d"
  shows "\<exists>x d'. commit_if_one d m = Inr (x, d') \<and> P d'"
  using assms by (auto simp: commit_if_one_def)

text \<open>
  The lease protocol never violates a table constraint: with a positive lease and an
  application clock that has not gone back, claiming, renewing, failing, completing and
  reaping raise no \<open>IntegrityError\<close>, whatever the rows and the database clock, and the
  database they leave satisfies every constraint again.
\<close>

theorem lease_protocol_meets_constraints:
  assumes "ingestion_ok d" and "clock_ok now d" and "0 < lc_lease_duration lc"
  shows "(\<exists>c d'. claim_tx lc i now db d = Inr (c, d') \<and> clock_ok now d' \<and> ingestion_ok d') \<and>
    (\<exists>b d'. heartbeat_tx lc i n now db d = Inr (b, d') \<and> clock_ok now d' \<and> ingestion_ok d') \<and>
    (\<exists>b d'. mark_failed_tx i n code msg meta now db d = Inr (b, d') \<and> clock_ok now d' \<and> ingestion_ok d') \<and>
    (\<exists>b d'. mark_completed_tx i n h emeta now db d = Inr (b, d') \<and> clock_ok now d' \<and> ingestion_ok d') \<and>
    (\<exists>c d'. reap_expired_items_tx lc now db d = Inr (c, d') \<and> clock_ok now d' \<and> ingestion_ok d')"
proof -
  let ?P = "\<lambda>d'. clock_ok now d' \<and> ingestion_ok d'"
  note fits = clock_fits [OF assms(2) _ assms(3)]
  let ?e = "ItemClaim now (now + lc_lease_duration lc)"
  let ?p = "\<lambda>r. it_id r = i \<and> item_where (lc_max_attempts lc) db ?e r"
  have sat: "satisfies (item_cs d) (sql_update ?p (item_set ?e) (idb_items d))"
    using assms(1) fits(1) by (intro satisfies_items_exec) blast+
  moreover have "filter ?p (idb_items d) = [] \<or> (\<exists>r. filter ?p (idb_items d) = [r])"
    by (subst (1 2) filter_key [OF ingestion_ok_items(2) [OF assms(1)]]) (auto split: option.splits)
  ultimately have "\<exists>c. claim_item i now (now + lc_lease_duration lc) (lc_max_attempts lc) db d =
      Inr (c, d\<lparr>idb_items := sql_update ?p (item_set ?e) (idb_items d)\<rparr>)"
    by (auto simp: claim_item_def update_returning_def sql_write_ok simp del: item_where.simps)
  moreover have "?P (d\<lparr>idb_items := sql_update ?p (item_set ?e) (idb_items d)\<rparr>)"
    using assms sat by (auto simp: ingestion_ok_def intro: clock_ok_update)
  ultimately have claim: "\<exists>c d'. claim_tx lc i now db d = Inr (c, d') \<and> ?P d'"
    using assms by (auto simp: claim_tx_def)
  have "\<exists>b d'. commit_if_one d (update_item 0 i e db d) = Inr (b, d') \<and> ?P d'"
    if "e \<in> {ItemHeartbeat n (now + lc_lease_duration lc), ItemFail n now code msg meta, ItemComplete n now h emeta}" for e
    using that assms fits by (intro commit_total update_item_total) auto
  moreover have "satisfies (item_cs d) (sql_update (item_where (lc_max_attempts lc) db (ItemReap now))
      (item_set (ItemReap now)) (idb_items d))"
    using assms(1) fits(5) by (intro satisfies_items_exec) blast+
  then have "\<exists>c d'. reap_expired_items_tx lc now db d = Inr (c, d') \<and> ?P d'"
    using assms by (auto simp: reap_expired_items_tx_def fail_exhausted_expired_items_def update_stmt_def
        sql_write_ok ingestion_ok_def simp del: item_where.simps intro: clock_ok_update)
  ultimately show ?thesis
    using claim by (simp add: heartbeat_tx_def mark_failed_tx_def mark_completed_tx_def item_statements)
qed

theorem lease_protocol_meets_constraints_witness:
  "\<exists>c d'. claim_tx sample_lifecycle 1 45 45 (sample_db running_item) = Inr (c, d') \<and> ingestion_ok d'"
proof -
  have ok: "ingestion_ok (sample_db running_item)" by (simp add: sample_db_ok)
  have "clock_ok 45 (sample_db running_item)" by (simp add: clock_ok_def sample_db_def)
  moreover have "0 < lc_lease_duration sample_lifecycle" by (simp add: sample_lifecycle_def)
  ultimately show ?thesis using lease_protocol_meets_constraints [OF ok] by blast
qed


lemma retry_outcome:
  assumes "ingestion_ok d" and "schedule_retry_tx lc i n code msg job now db d = Inr (True, d')"
  shows "\<exists>r. lookup it_id i (idb_items d) = Some r \<and> owned_by n db r \<and>
    (if lc_max_attempts lc \<le> n
     then lookup it_id i (idb_items d') = Some (item_set (ItemFail n now MAX_ATTEMPTS_EXCEEDED msg None) r) \<and>
       idb_outbox d' = idb_outbox d
     else lookup it_id i (idb_items d') = Some (item_set (ItemRelease n (Some code) msg) r) \<and>
       filter (pending_for PROCESS_INGESTION_ITEM i) (idb_outbox d') =
         [new_job job PROCESS_INGESTION_ITEM i (item_payload i) db])"
proof -
  have step: "\<exists>r. lookup it_id i (idb_items d) = Some r \<and> owned_by n db r \<and>
      lookup it_id i (idb_items d1) = Some (item_set e r)"
    if "update_item 0 i e db d = Inr (1, d1)" and "token (item_lease_event e) = Some n" for e d1
    using that item_rowcount [OF assms(1), of i 0 db e]
    by (auto simp: update_item_Inr lookup_sql_update owned_where split: option.splits if_splits
        dest: lookup_SomeD)
  have outbox: "idb_outbox d1 = idb_outbox d" if "update_item 0 i e db d = Inr (c, d1)" for e c d1
    using that by (auto simp: update_item_Inr)
  show ?thesis
  proof (cases "lc_max_attempts lc \<le> n")
    case True
    with assms(2) have "update_item 0 i (ItemFail n now MAX_ATTEMPTS_EXCEEDED msg None) db d = Inr (1, d')"
      by (auto simp: schedule_retry_tx_def commit_if_one_def item_statements and_then_Inr_iff split: if_splits)
    from step [OF this] outbox [OF this] True show ?thesis by simp
  next
    case False
    with assms(2) obtain d1 d2
      where d1: "update_item 0 i (ItemRelease n (Some code) msg) db d = Inr (1, d1)"
        and d2: "on_outbox (\<lambda>t. and_then (discard_pending_for_aggregate PROCESS_INGESTION_ITEM i now
          SUPERSEDED_BY_RETRY t) (\<lambda>(_, t'). Inr t')) d1 = Inr d2"
        and d': "on_outbox (enqueue job PROCESS_INGESTION_ITEM i (item_payload i) db) d2 = Inr d'"
      by (auto simp: schedule_retry_tx_def commit_if_one_def item_statements and_then_Inr_iff split: if_splits)
    from d2 d' have "idb_items d' = idb_items d1"
      by (auto simp: on_outbox_def and_then_Inr_iff)
    moreover have "filter (pending_for PROCESS_INGESTION_ITEM i) (idb_outbox d2) = []"
    proof -
      from d2 have "idb_outbox d2 = sql_update (pending_for PROCESS_INGESTION_ITEM i)
          (\<lambda>r. r\<lparr>ob_failed_at := Some now, ob_failure_code := Some SUPERSEDED_BY_RETRY\<rparr>) (idb_outbox d1)"
        by (auto simp: on_outbox_def and_then_Inr_iff discard_pending_for_aggregate_def stmt_iffs)
      then show ?thesis by (simp only:) (rule filter_sql_update_none, simp add: pending_for_def)
    qed
    with d' have "filter (pending_for PROCESS_INGESTION_ITEM i) (idb_outbox d') =
        [new_job job PROCESS_INGESTION_ITEM i (item_payload i) db]"
      by (auto simp: on_outbox_def and_then_Inr_iff enqueue_def stmt_iffs pending_for_def new_job_def)
    ultimately show ?thesis using step [OF d1] False by simp
  qed
qed

text \<open>
  C5. A retry hands the item back with exactly one open job. When \<open>schedule_retry\<close> succeeds
  before the last attempt, the item is pending again without a lease, its older undelivered
  jobs are closed and the one open job of the item is the new one; at the last attempt the item
  fails with \<open>max_attempts_exceeded\<close> and the outbox is left alone.
\<close>

theorem schedule_retry_outcome:
  assumes "ingestion_ok d" and "schedule_retry_tx lc i n code msg job now db d = Inr (True, d')"
  shows "\<exists>r. lookup it_id i (idb_items d) = Some r \<and> owned_by n db r \<and>
    (if lc_max_attempts lc \<le> n
     then lookup it_id i (idb_items d') = Some (item_set (ItemFail n now MAX_ATTEMPTS_EXCEEDED msg None) r) \<and>
       idb_outbox d' = idb_outbox d
     else lookup it_id i (idb_items d') = Some (item_set (ItemRelease n (Some code) msg) r) \<and>
       filter (pending_for PROCESS_INGESTION_ITEM i) (idb_outbox d') =
         [new_job job PROCESS_INGESTION_ITEM i (item_payload i) db])"
  using assms by (rule retry_outcome)

theorem schedule_retry_outcome_witness:
  "\<exists>d'. schedule_retry_tx sample_lifecycle 1 1 ''transient'' None 9 20 20 (sample_db running_item) = Inr (True, d') \<and>
    filter (pending_for PROCESS_INGESTION_ITEM 1) (idb_outbox d') =
      [new_job 9 PROCESS_INGESTION_ITEM 1 (item_payload 1) 20]"
proof -
  let ?d = "sample_db running_item"
  have ok: "ingestion_ok ?d" by (simp add: sample_db_ok)
  have row: "lookup it_id 1 (idb_items ?d) = Some running_item" by simp
  have "item_where 0 20 (ItemRelease 1 (Some ''transient'') None) running_item" by (simp add: owned_by_def)
  from update_item_one [OF ok row this] obtain d1
    where d1: "update_item 0 1 (ItemRelease 1 (Some ''transient'') None) 20 ?d = Inr (1, d1)"
      and "ingestion_ok d1" and ob: "idb_outbox d1 = []"
    by (auto simp: sample_db_def)
  have "on_outbox (\<lambda>t. and_then (discard_pending_for_aggregate PROCESS_INGESTION_ITEM 1 20 SUPERSEDED_BY_RETRY t)
      (\<lambda>(_, t'). Inr t')) d1 = Inr d1"
    using ob by (simp add: on_outbox_def discard_pending_for_aggregate_def update_stmt_def sql_update_def
        rowcount_def sql_write_ok satisfies_outbox outbox_ok_def)
  moreover have "\<exists>d2. on_outbox (enqueue 9 PROCESS_INGESTION_ITEM 1 (item_payload 1) 20) d1 = Inr d2"
    using enqueue_ok [of "[]" 9 PROCESS_INGESTION_ITEM 1 "item_payload 1" 20]
    by (simp add: on_outbox_def ob outbox_ok_def)
  ultimately obtain d2 where
    tx: "schedule_retry_tx sample_lifecycle 1 1 ''transient'' None 9 20 20 ?d = Inr (True, d2)"
    using d1 by (auto simp: schedule_retry_tx_def item_statements sample_lifecycle_def)
  from schedule_retry_outcome [OF ok tx] tx show ?thesis
    by (auto simp: sample_lifecycle_def)
qed


lemma completed_with_chunks:
  assumes "ingestion_ok d" and "lookup it_id i (idb_items d) = Some r" and "owned_by n db r"
    and "event_fits (ItemComplete n now h meta) r"
    and "drafts_wf (whitespace_builder sha256 lang) drafts" and "list_all pages_positive drafts"
    and "length ids = length drafts" and "distinct ids" and "set ids \<inter> ck_id ` set (idb_chunks d) = {}"
  shows "\<exists>d'. replace_chunks_and_mark_completed_tx i n drafts h meta ids now db d = Inr (True, d') \<and>
    lookup it_id i (idb_items d') = Some (item_set (ItemComplete n now h meta) r) \<and>
    list_for_item i d' = drafts \<and> list_chunk_ids i d' = ids \<and>
    (\<forall>j. j \<noteq> i \<longrightarrow> item_chunk_rows j d' = item_chunk_rows j d)"
proof -
  let ?t = "sql_delete (\<lambda>r. ck_item_id r = i) (idb_chunks d) @ chunk_rows i ids db drafts"
  let ?d1 = "d\<lparr>idb_chunks := ?t\<rparr>"
  have "i \<in> it_id ` set (idb_items d)" using lookup_SomeD [OF assms(2)] by blast
  from insert_chunks_ok [OF assms(1) this assms(5-9)] have sat: "satisfies (chunk_cs d) ?t" .
  have "it_status r \<noteq> COMPLETED" using assms(3) by (simp add: owned_by_def)
  with sat have d1: "replace_for_item i drafts ids db d = Inr ?d1"
    by (auto simp: replace_for_item_def guard_completed [OF assms(1,2)] insert_stmt_def sql_write_ok
        Let_def chunk_rows_def)
  have "item_where 0 db (ItemComplete n now h meta) r" using assms(3) by simp
  from update_item_one [OF replace_for_item_ok [OF d1 assms(1)] _ this assms(4), of i] assms(2)
  obtain d' where d': "update_item 0 i (ItemComplete n now h meta) db ?d1 = Inr (1, d')"
    and row: "lookup it_id i (idb_items d') = Some (item_set (ItemComplete n now h meta) r)"
    and ck: "idb_chunks d' = ?t"
    by auto
  have "replace_chunks_and_mark_completed_tx i n drafts h meta ids now db d = Inr (True, d')"
    by (simp add: replace_chunks_and_mark_completed_tx_def d1 item_statements d' del: commit_if_one_map_error)
  moreover have "item_chunk_rows i d' = chunk_rows i ids db drafts"
    by (rule stored_chunks [OF ck assms(5,7)])
  moreover have "item_chunk_rows j d' = item_chunk_rows j d" if "j \<noteq> i" for j
    using other_items_chunks_kept [OF d1 that] ck by (simp add: item_chunk_rows_def)
  ultimately show ?thesis
    using row assms(7) by (simp add: list_for_item_def list_chunk_ids_def)
qed


text \<open>
  C3. Completion stores exactly the chunks. For a worker that still owns the item, storing what
  the registered chunker returned (with positive page numbers and fresh row identifiers)
  violates no constraint: the transaction commits, the item is completed with the observed
  hash, reading its chunks back gives the drafts in order, and no other item's chunks change.
\<close>

theorem completion_stores_the_chunks:
  assumes "ingestion_ok d" and "lookup it_id i (idb_items d) = Some r" and "owned_by n db r"
    and "event_fits (ItemComplete n now h meta) r"
    and "drafts_wf (whitespace_builder sha256 lang) drafts" and "list_all pages_positive drafts"
    and "length ids = length drafts" and "distinct ids" and "set ids \<inter> ck_id ` set (idb_chunks d) = {}"
  shows "\<exists>d'. replace_chunks_and_mark_completed_tx i n drafts h meta ids now db d = Inr (True, d') \<and>
    lookup it_id i (idb_items d') = Some (item_set (ItemComplete n now h meta) r) \<and>
    list_for_item i d' = drafts \<and> list_chunk_ids i d' = ids \<and>
    (\<forall>j. j \<noteq> i \<longrightarrow> item_chunk_rows j d' = item_chunk_rows j d)"
  using assms by (rule completed_with_chunks)

definition sample_draft :: chunk_draft where
  "sample_draft = \<lparr>cd_chunk_index = 0, cd_content = [97], cd_content_type = CT_TEXT,
    cd_section_title = None, cd_section_path = [], cd_page_start = Some 1, cd_page_end = Some 1,
    cd_language_code = None, cd_token_count = 1, cd_content_hash = ''h'', cd_metadata = JObj []\<rparr>"

theorem completion_stores_the_chunks_witness:
  "\<exists>d'. replace_chunks_and_mark_completed_tx 1 1 [sample_draft] ''f'' (JObj []) [77] 20 20 (sample_db running_item) =
      Inr (True, d') \<and> list_for_item 1 d' = [sample_draft]"
proof -
  have ok: "ingestion_ok (sample_db running_item)" by (simp add: sample_db_ok)
  have row: "lookup it_id 1 (idb_items (sample_db running_item)) = Some running_item" by simp
  have own: "owned_by 1 20 running_item" by (simp add: owned_by_def)
  have fit: "event_fits (ItemComplete 1 20 ''f'' (JObj [])) running_item" by simp
  have wf: "drafts_wf (whitespace_builder (\<lambda>_. ''h'') None) [sample_draft]"
    by (simp add: drafts_wf_def draft_wf_def sample_draft_def strip_def lstrip_def rstrip_def py_isspace_def
        whitespace_count_def tokens_def normalized_content_hash_def normalize_content_def splitlines_def
        is_linebreak_def utf8_encodable_def)
  have pages: "list_all pages_positive [sample_draft]"
    by (simp add: pages_positive_def positive_page_def sample_draft_def)
  from completion_stores_the_chunks [OF ok row own fit wf pages, of "[77]"] show ?thesis
    by (auto simp: sample_db_def)
qed

end
