(* ===== verification/EmbeddingBatch.thy ===== *)
theory EmbeddingBatch
  imports Ingestion "HOL-Library.Multiset"
begin

text \<open>
  Embedding of a chunk set through a provider: \<open>modules/embedding/config.py\<close>,
  \<open>batching/planner.py\<close>, \<open>batching/validation.py\<close>, \<open>batching/_retry.py\<close> and
  \<open>batching/batcher.py\<close>, with the types of \<open>contracts/types/embedding.py\<close> and the errors of
  \<open>contracts/error/embedding_errors.py\<close>.

  The provider is an argument: its answer to each call, told apart by the batch and the attempt,
  so that every interleaving of the concurrent batches is covered. Floats are exact rationals;
  what overflows a double (an integer too large to convert, a non-finite component) is kept.
\<close>

section \<open>Errors and types\<close>

datatype embedding_error =
    EmbeddingProviderTransientError string "rat option"
  | EmbeddingProviderPermanentError string
  | InvalidEmbeddingResponse string
  | EmbeddingInputTooLarge "nat option" string
  | EmbeddingInputInvalid "nat option" string
  | EmbeddingVectorInvalid string
  | IngestionItemNotEmbeddable string
  | EmbeddingRunAlreadyInFlight uuid uuid
  | ChunkSetChanged string
  | EmbeddingValueError string
  | OverflowError
  | OtherProviderError
  | EmbeddingDbError db_error

datatype distance_metric = COSINE | INNER_PRODUCT | EUCLIDEAN
datatype ai_provider = OPENAI | ANTHROPIC | COHERE | GEMINI

record embedding_model =
  em_id :: uuid
  em_provider :: ai_provider
  em_model_name :: pystr
  em_model_revision :: pystr
  em_dimension :: int
  em_distance_metric :: distance_metric
  em_max_input_tokens :: "int option"
  em_configuration :: json
  em_configuration_hash :: string
  em_created_at :: datetime

record embedding_input =
  in_index :: int
  in_text :: pystr

text \<open>A component of a vector as the provider's adapter hands it over: any Python object.\<close>

datatype component = CFloat rat | CNonFinite | CInt int | CBool bool | COther

record embedding_vector =
  ev_index :: int
  ev_values :: "component list"

record embedding_usage =
  us_input_tokens :: "int option"
  us_total_tokens :: "int option"

record batch_request =
  rq_model_name :: pystr
  rq_inputs :: "embedding_input list"

record batch_result =
  rs_vectors :: "embedding_vector list"
  rs_usage :: embedding_usage

record chunk_vector =
  cv_chunk_id :: uuid
  cv_values :: "component list"

fun added :: "int option \<Rightarrow> int option \<Rightarrow> int option" where
  "added None r = r"
| "added l None = l"
| "added (Some l) (Some r) = Some (l + r)"

definition merged_with :: "embedding_usage \<Rightarrow> embedding_usage \<Rightarrow> embedding_usage" where
  "merged_with u v = \<lparr>us_input_tokens = added (us_input_tokens u) (us_input_tokens v),
    us_total_tokens = added (us_total_tokens u) (us_total_tokens v)\<rparr>"

section \<open>Configuration\<close>

record run_config =
  rc_batch_size :: int
  rc_max_batch_tokens :: int
  rc_concurrency :: int
  rc_max_provider_attempts :: int
  rc_retry_initial_backoff_seconds :: rat
  rc_retry_max_backoff_seconds :: rat
  rc_max_chars_per_token :: int

definition run_config_post_init :: "run_config \<Rightarrow> embedding_error + run_config" where
  "run_config_post_init c =
    (if rc_batch_size c \<le> 0 then Inl (EmbeddingValueError ''batch_size must be positive'')
     else if rc_max_batch_tokens c \<le> 0 then Inl (EmbeddingValueError ''max_batch_tokens must be positive'')
     else if rc_concurrency c \<le> 0 then Inl (EmbeddingValueError ''concurrency must be positive'')
     else if rc_max_provider_attempts c \<le> 0 then Inl (EmbeddingValueError ''max_provider_attempts must be positive'')
     else if rc_retry_initial_backoff_seconds c \<le> 0
       then Inl (EmbeddingValueError ''retry_initial_backoff_seconds must be positive'')
     else if rc_retry_max_backoff_seconds c < rc_retry_initial_backoff_seconds c
       then Inl (EmbeddingValueError
         ''retry_max_backoff_seconds must not be smaller than retry_initial_backoff_seconds'')
     else if rc_max_chars_per_token c \<le> 0 then Inl (EmbeddingValueError ''max_chars_per_token must be positive'')
     else Inr c)"

text \<open>\<open>float(i)\<close> and \<open>math.isfinite(i)\<close> raise when the integer rounds past the largest double.\<close>

definition float_convertible :: "int \<Rightarrow> bool" where
  "float_convertible i \<longleftrightarrow> \<bar>i\<bar> < 2 ^ 1024 - 2 ^ 970"

definition run_required_int :: "json \<Rightarrow> string \<Rightarrow> embedding_error + int" where
  "run_required_int values name = (case get values name of
      Some (JInt i) \<Rightarrow> Inr i
    | _ \<Rightarrow> Inl (EmbeddingValueError (name @ '' must be an integer'')))"

definition run_required_float :: "json \<Rightarrow> string \<Rightarrow> embedding_error + rat" where
  "run_required_float values name = (case get values name of
      Some (JInt i) \<Rightarrow> if float_convertible i then Inr (of_int i) else Inl OverflowError
    | Some (JFloat q) \<Rightarrow> Inr q
    | _ \<Rightarrow> Inl (EmbeddingValueError (name @ '' must be a number'')))"

definition run_config_from :: "json \<Rightarrow> embedding_error + run_config" where
  "run_config_from configuration = (case get configuration ''embedding'' of
      Some (JObj kvs) \<Rightarrow>
        (let raw = JObj kvs in
         and_then (run_required_int raw ''batch_size'') (\<lambda>batch_size.
         and_then (run_required_int raw ''max_batch_tokens'') (\<lambda>max_batch_tokens.
         and_then (run_required_int raw ''concurrency'') (\<lambda>concurrency.
         and_then (run_required_int raw ''max_provider_attempts'') (\<lambda>max_provider_attempts.
         and_then (run_required_float raw ''retry_initial_backoff_seconds'') (\<lambda>initial.
         and_then (run_required_float raw ''retry_max_backoff_seconds'') (\<lambda>maximum.
         and_then (run_required_int raw ''max_chars_per_token'') (\<lambda>max_chars_per_token.
         run_config_post_init
           \<lparr>rc_batch_size = batch_size, rc_max_batch_tokens = max_batch_tokens, rc_concurrency = concurrency,
            rc_max_provider_attempts = max_provider_attempts, rc_retry_initial_backoff_seconds = initial,
            rc_retry_max_backoff_seconds = maximum, rc_max_chars_per_token = max_chars_per_token\<rparr>))))))))
    | _ \<Rightarrow> Inl (EmbeddingValueError ''embedding run configuration must contain an embedding object''))"

definition run_config_as_mapping :: "run_config \<Rightarrow> json" where
  "run_config_as_mapping c = JObj
    [(lit ''batch_size'', JInt (rc_batch_size c)),
     (lit ''max_batch_tokens'', JInt (rc_max_batch_tokens c)),
     (lit ''concurrency'', JInt (rc_concurrency c)),
     (lit ''max_provider_attempts'', JInt (rc_max_provider_attempts c)),
     (lit ''retry_initial_backoff_seconds'', JFloat (rc_retry_initial_backoff_seconds c)),
     (lit ''retry_max_backoff_seconds'', JFloat (rc_retry_max_backoff_seconds c)),
     (lit ''max_chars_per_token'', JInt (rc_max_chars_per_token c))]"

definition default_run_config :: run_config where
  "default_run_config = \<lparr>rc_batch_size = 128, rc_max_batch_tokens = 100000, rc_concurrency = 4,
    rc_max_provider_attempts = 4, rc_retry_initial_backoff_seconds = 1 / 2,
    rc_retry_max_backoff_seconds = 30, rc_max_chars_per_token = 4\<rparr>"

section \<open>Planning of batches\<close>

record embedding_batch =
  eb_ordinal :: nat
  eb_chunks :: "embeddable_chunk list"

text \<open>The loop with its variables \<open>batches\<close>, \<open>current\<close> and \<open>current_tokens\<close>.\<close>

fun plan_loop ::
  "run_config \<Rightarrow> embeddable_chunk list \<Rightarrow> embedding_batch list \<Rightarrow> embeddable_chunk list \<Rightarrow> int \<Rightarrow> embedding_batch list"
where
  "plan_loop cfg [] batches current tok =
    (if current \<noteq> [] then batches @ [\<lparr>eb_ordinal = length batches, eb_chunks = current\<rparr>] else batches)"
| "plan_loop cfg (c # chunks) batches current tok =
    (if rc_batch_size cfg \<le> int (length current) \<or>
        current \<noteq> [] \<and> rc_max_batch_tokens cfg < tok + ec_token_count c
     then plan_loop cfg chunks (batches @ [\<lparr>eb_ordinal = length batches, eb_chunks = current\<rparr>]) [c] (ec_token_count c)
     else plan_loop cfg chunks batches (current @ [c]) (tok + ec_token_count c))"

definition plan_batches :: "run_config \<Rightarrow> embeddable_chunk list \<Rightarrow> embedding_batch list" where
  "plan_batches cfg chunks = plan_loop cfg chunks [] [] 0"

section \<open>Validation of inputs and answers\<close>

definition guard_input_size :: "embeddable_chunk \<Rightarrow> embedding_model \<Rightarrow> run_config \<Rightarrow> embedding_error + unit" where
  "guard_input_size c model cfg = (case em_max_input_tokens model of
      None \<Rightarrow> Inr ()
    | Some m \<Rightarrow> raise_if (m < - ((- int (length (ec_content c))) div rc_max_chars_per_token cfg))
        (EmbeddingInputTooLarge (Some (ec_chunk_index c)) ''chunk content cannot fit the model input limit''))"

fun build_inputs_from ::
  "int \<Rightarrow> embeddable_chunk list \<Rightarrow> embedding_model \<Rightarrow> run_config \<Rightarrow> embedding_error + embedding_input list"
where
  "build_inputs_from k [] model cfg = Inr []"
| "build_inputs_from k (c # cs) model cfg =
    and_then (raise_if (strip (ec_content c) = [])
      (EmbeddingInputInvalid (Some (ec_chunk_index c)) ''chunk content is empty'')) (\<lambda>_.
    and_then (guard_input_size c model cfg) (\<lambda>_.
    and_then (build_inputs_from (k + 1) cs model cfg) (\<lambda>rest.
      Inr (\<lparr>in_index = k, in_text = ec_content c\<rparr> # rest))))"

definition build_inputs ::
  "embeddable_chunk list \<Rightarrow> embedding_model \<Rightarrow> run_config \<Rightarrow> embedding_error + embedding_input list"
where
  "build_inputs chunks model cfg = build_inputs_from 0 chunks model cfg"

fun check_component :: "component \<Rightarrow> embedding_error + unit" where
  "check_component (CFloat _) = Inr ()"
| "check_component (CInt i) = raise_if (\<not> float_convertible i) OverflowError"
| "check_component _ = Inl (EmbeddingVectorInvalid ''vector contains a non-finite value'')"

definition validated_values :: "component list \<Rightarrow> int \<Rightarrow> embedding_error + component list" where
  "validated_values vals dimension =
    and_then (raise_if (int (length vals) \<noteq> dimension)
      (EmbeddingVectorInvalid ''vector dimension does not match the model dimension'')) (\<lambda>_.
    and_then (foldM (\<lambda>v _. check_component v) vals ()) (\<lambda>_. Inr vals))"

definition store_vector ::
  "int list \<Rightarrow> int \<Rightarrow> embedding_vector \<Rightarrow> (int \<rightharpoonup> component list) \<Rightarrow> embedding_error + (int \<rightharpoonup> component list)"
where
  "store_vector expected dimension v by_index =
    and_then (raise_if (ev_index v \<notin> set expected)
      (InvalidEmbeddingResponse ''provider returned an unknown vector index'')) (\<lambda>_.
    and_then (raise_if (by_index (ev_index v) \<noteq> None)
      (InvalidEmbeddingResponse ''provider returned duplicate vector indexes'')) (\<lambda>_.
    and_then (validated_values (ev_values v) dimension) (\<lambda>values. Inr (by_index(ev_index v \<mapsto> values)))))"

text \<open>The final comprehension reads keys that are all present (lemma \<open>stored_all\<close>).\<close>

definition ordered_vectors ::
  "batch_result \<Rightarrow> embedding_input list \<Rightarrow> int \<Rightarrow> embedding_error + component list list"
where
  "ordered_vectors result inputs dimension =
    and_then (raise_if (length (rs_vectors result) \<noteq> length inputs)
      (InvalidEmbeddingResponse ''vector count does not match the input count'')) (\<lambda>_.
    and_then (foldM (store_vector (map in_index inputs) dimension) (rs_vectors result) Map.empty) (\<lambda>by_index.
      Inr (map (\<lambda>inp. the (by_index (in_index inp))) inputs)))"

section \<open>Retries\<close>

text \<open>\<open>2 ** (attempt_number - 1)\<close> is converted to a float for the product: past 1023 it overflows.\<close>

definition backoff_seconds :: "int \<Rightarrow> run_config \<Rightarrow> rat option \<Rightarrow> rat \<Rightarrow> embedding_error + rat" where
  "backoff_seconds attempt_number cfg retry_after jitter = (case retry_after of
      Some s \<Rightarrow> if 0 < s then Inr (min s (rc_retry_max_backoff_seconds cfg))
        else if 1024 < attempt_number then Inl OverflowError
        else Inr (min (rc_retry_initial_backoff_seconds cfg * 2 ^ nat (attempt_number - 1))
          (rc_retry_max_backoff_seconds cfg) * (1 / 2 + jitter / 2))
    | None \<Rightarrow> if 1024 < attempt_number then Inl OverflowError
        else Inr (min (rc_retry_initial_backoff_seconds cfg * 2 ^ nat (attempt_number - 1))
          (rc_retry_max_backoff_seconds cfg) * (1 / 2 + jitter / 2)))"

text \<open>
  The loop of \<open>_embed_batch\<close> from the attempt after \<open>n\<close>: the sleeps it makes, and the error it
  raises or the provider's answer with the number of the attempt that got it.
\<close>

function embed_attempts ::
  "(int \<Rightarrow> embedding_error + batch_result) \<Rightarrow> (int \<Rightarrow> rat) \<Rightarrow> run_config \<Rightarrow> int \<Rightarrow>
    rat list \<times> (embedding_error + batch_result \<times> int)"
where
  "embed_attempts call jitter cfg n = (case call (n + 1) of
      Inr res \<Rightarrow> ([], Inr (res, n + 1))
    | Inl (EmbeddingProviderTransientError reason retry_after) \<Rightarrow>
        if rc_max_provider_attempts cfg \<le> n + 1
        then ([], Inl (EmbeddingProviderTransientError reason retry_after))
        else (case backoff_seconds (n + 1) cfg retry_after (jitter (n + 1)) of
            Inl e \<Rightarrow> ([], Inl e)
          | Inr s \<Rightarrow> (let rest = embed_attempts call jitter cfg (n + 1) in (s # fst rest, snd rest)))
    | Inl e \<Rightarrow> ([], Inl e))"
  by pat_completeness auto
termination
  by (relation "measure (\<lambda>(call, jitter, cfg, n). nat (rc_max_provider_attempts cfg - n))") auto

declare embed_attempts.simps [simp del]

section \<open>Embedding a batch and all of them\<close>

record batch_outcome =
  bo_vectors :: "chunk_vector list"
  bo_batch_count :: nat
  bo_request_count :: int
  bo_usage :: embedding_usage

type_synonym provider_calls = "nat \<Rightarrow> int \<Rightarrow> batch_request \<Rightarrow> embedding_error + batch_result"

definition embed_batch ::
  "provider_calls \<Rightarrow> (nat \<Rightarrow> int \<Rightarrow> rat) \<Rightarrow> embedding_model \<Rightarrow> run_config \<Rightarrow> embedding_batch \<Rightarrow>
    embedding_error + chunk_vector list \<times> int \<times> embedding_usage"
where
  "embed_batch provider jitter model cfg batch =
    and_then (build_inputs (eb_chunks batch) model cfg) (\<lambda>inputs.
    and_then (snd (embed_attempts
        (\<lambda>n. provider (eb_ordinal batch) n \<lparr>rq_model_name = em_model_name model, rq_inputs = inputs\<rparr>)
        (jitter (eb_ordinal batch)) cfg 0)) (\<lambda>(result, attempt_number).
    and_then (ordered_vectors result inputs (em_dimension model)) (\<lambda>values.
      Inr (map2 (\<lambda>c vs. \<lparr>cv_chunk_id = ec_chunk_id c, cv_values = vs\<rparr>) (eb_chunks batch) values,
        attempt_number, rs_usage result))))"

text \<open>
  \<open>asyncio.gather\<close>: the error that is raised first, in the order in which the tasks end, or all
  results in the order of the tasks.
\<close>

fun first_error :: "('e + 'a) list \<Rightarrow> 'e option" where
  "first_error [] = None"
| "first_error (Inl e # rs) = Some e"
| "first_error (Inr x # rs) = first_error rs"

definition gather :: "nat list \<Rightarrow> ('e + 'a) list \<Rightarrow> 'e + 'a list" where
  "gather order rs = (case first_error (map ((!) rs) (filter (\<lambda>k. k < length rs) order) @ rs) of
      Some e \<Rightarrow> Inl e
    | None \<Rightarrow> Inr (map projr rs))"

definition collect :: "(chunk_vector list \<times> int \<times> embedding_usage) list \<Rightarrow> batch_outcome" where
  "collect results = \<lparr>bo_vectors = concat (map fst results), bo_batch_count = length results,
    bo_request_count = sum_list (map (fst \<circ> snd) results),
    bo_usage = foldl merged_with \<lparr>us_input_tokens = None, us_total_tokens = None\<rparr> (map (snd \<circ> snd) results)\<rparr>"

definition embed ::
  "provider_calls \<Rightarrow> (nat \<Rightarrow> int \<Rightarrow> rat) \<Rightarrow> nat list \<Rightarrow> embedding_model \<Rightarrow> run_config \<Rightarrow> embeddable_chunk list \<Rightarrow>
    embedding_error + batch_outcome"
where
  "embed provider jitter order model cfg chunks =
    and_then (gather order (map (embed_batch provider jitter model cfg) (plan_batches cfg chunks))) (\<lambda>results.
      Inr (collect results))"

section \<open>Facts\<close>

lemma run_config_from_valid:
  assumes "run_config_from conf = Inr cfg"
  shows "run_config_post_init cfg = Inr cfg" "0 < rc_batch_size cfg" "0 < rc_max_provider_attempts cfg"
proof -
  from assms obtain c where "run_config_post_init c = Inr cfg"
    by (auto simp: run_config_from_def and_then_Inr_iff Let_def split: option.splits json.splits)
  then show "run_config_post_init cfg = Inr cfg" "0 < rc_batch_size cfg" "0 < rc_max_provider_attempts cfg"
    by (auto simp: run_config_post_init_def split: if_splits)
qed

lemma written_run_config_reads:
  assumes "run_config_post_init c = Inr c"
  shows "run_config_from (JObj [(lit ''embedding'', run_config_as_mapping c)]) = Inr c"
proof -
  have distinct: "distinct (map lit [''batch_size'', ''max_batch_tokens'', ''concurrency'', ''max_provider_attempts'',
      ''retry_initial_backoff_seconds'', ''retry_max_backoff_seconds'', ''max_chars_per_token''])"
    by (simp add: lit_def)
  show ?thesis
    using assms distinct
    by (cases c) (simp add: run_config_from_def run_config_as_mapping_def run_required_int_def run_required_float_def)
qed

subsection \<open>Batches\<close>

definition batch_tokens :: "embeddable_chunk list \<Rightarrow> int" where
  "batch_tokens cs = sum_list (map ec_token_count cs)"

definition batch_fits :: "run_config \<Rightarrow> embeddable_chunk list \<Rightarrow> bool" where
  "batch_fits cfg cs \<longleftrightarrow> cs \<noteq> [] \<and> int (length cs) \<le> rc_batch_size cfg \<and>
    (batch_tokens cs \<le> rc_max_batch_tokens cfg \<or> length cs = 1)"

text \<open>The first chunk of the next batch could not have been added.\<close>

definition batch_full :: "run_config \<Rightarrow> embeddable_chunk list \<Rightarrow> embeddable_chunk list \<Rightarrow> bool" where
  "batch_full cfg cs next_cs \<longleftrightarrow> rc_batch_size cfg \<le> int (length cs) \<or>
    rc_max_batch_tokens cfg < batch_tokens cs + ec_token_count (hd next_cs)"

lemma batch_tokens_simps [simp]:
  "batch_tokens [] = 0" "batch_tokens (c # cs) = ec_token_count c + batch_tokens cs"
  "batch_tokens (cs @ ds) = batch_tokens cs + batch_tokens ds"
  by (simp_all add: batch_tokens_def)

lemma plan_loop_ok:
  assumes "0 < rc_batch_size cfg" and "tok = batch_tokens current"
    and "map eb_ordinal batches = [0..<length batches]" and "list_all (batch_fits cfg) (map eb_chunks batches)"
    and "current = [] \<longrightarrow> batches = []" and "current \<noteq> [] \<longrightarrow> batch_fits cfg current"
    and "successively (batch_full cfg) (map eb_chunks batches @ [current])"
    and "bs = plan_loop cfg chunks batches current tok"
  shows "concat (map eb_chunks bs) = concat (map eb_chunks batches) @ current @ chunks \<and>
    map eb_ordinal bs = [0..<length bs] \<and> list_all (batch_fits cfg) (map eb_chunks bs) \<and>
    successively (batch_full cfg) (map eb_chunks bs)"
  using assms
proof (induction cfg chunks batches current tok rule: plan_loop.induct)
  case (1 cfg batches current tok)
  then show ?case by (cases "current = []") (simp_all add: successively_append_iff)
next
  case (2 cfg c chunks batches current tok)
  show ?case
  proof (cases "rc_batch_size cfg \<le> int (length current) \<or>
      current \<noteq> [] \<and> rc_max_batch_tokens cfg < tok + ec_token_count c")
    case True
    from True 2(3) have ne: "current \<noteq> []" by auto
    with True 2(4) have full: "batch_full cfg current [c]" by (auto simp: batch_full_def)
    let ?bs = "batches @ [\<lparr>eb_ordinal = length batches, eb_chunks = current\<rparr>]"
    have "batch_fits cfg [c]" using 2(3) by (simp add: batch_fits_def)
    moreover have "list_all (batch_fits cfg) (map eb_chunks ?bs)" using 2(6,8) ne by simp
    moreover have "successively (batch_full cfg) (map eb_chunks ?bs @ [[c]])"
      using 2(9) full by (simp add: successively_append_iff)
    moreover have "bs = plan_loop cfg chunks ?bs [c] (ec_token_count c)" using 2(10) True by simp
    ultimately show ?thesis using 2(1) [OF True 2(3)] 2(5) by simp
  next
    case False
    have "batch_full cfg b (current @ [c]) = batch_full cfg b current" if "current \<noteq> []" for b
      using that by (simp add: batch_full_def)
    then have "successively (batch_full cfg) (map eb_chunks batches @ [current @ [c]])"
      using 2(7,9) by (cases "current = []") (simp_all add: successively_append_iff)
    moreover have "batch_fits cfg (current @ [c])" using False 2(3,4) by (auto simp: batch_fits_def)
    moreover have "bs = plan_loop cfg chunks batches (current @ [c]) (tok + ec_token_count c)"
      using 2(10) False by (simp only: plan_loop.simps if_False)
    ultimately show ?thesis using 2(2) [OF False 2(3)] 2(4-6) by simp
  qed
qed

lemma plan_batches_ok:
  assumes "0 < rc_batch_size cfg" and "bs = plan_batches cfg chunks"
  shows "concat (map eb_chunks bs) = chunks" and "map eb_ordinal bs = [0..<length bs]"
    and "list_all (batch_fits cfg) (map eb_chunks bs)" and "successively (batch_full cfg) (map eb_chunks bs)"
  using plan_loop_ok [OF assms(1), of 0 "[]" "[]" bs chunks] assms(2) by (simp_all add: plan_batches_def)

subsection \<open>Answers\<close>

definition valid_vector :: "int \<Rightarrow> component list \<Rightarrow> bool" where
  "valid_vector dimension vals \<longleftrightarrow> int (length vals) = dimension \<and> list_all (\<lambda>v. check_component v = Inr ()) vals"

lemma foldM_check: "foldM (\<lambda>v _. check_component v) vals () = Inr u \<longleftrightarrow> list_all (\<lambda>v. check_component v = Inr ()) vals"
  by (induction vals) (auto simp: and_then_Inr_iff)

lemma validated_values_Inr: "validated_values vals dimension = Inr w \<longleftrightarrow> valid_vector dimension vals \<and> w = vals"
  by (auto simp: validated_values_def valid_vector_def and_then_Inr_iff raise_if_Inr_iff foldM_check)

lemma store_vector_Inr:
  "store_vector expected dimension v m = Inr m' \<longleftrightarrow> ev_index v \<in> set expected \<and> m (ev_index v) = None \<and>
    valid_vector dimension (ev_values v) \<and> m' = m(ev_index v \<mapsto> ev_values v)"
  by (auto simp: store_vector_def and_then_Inr_iff raise_if_Inr_iff validated_values_Inr)

definition vector_entry :: "embedding_vector \<Rightarrow> int \<times> component list" where
  "vector_entry v = (ev_index v, ev_values v)"

lemma store_vectors_Inr:
  "foldM (store_vector expected dimension) vecs m = Inr m' \<longleftrightarrow>
    list_all (\<lambda>v. ev_index v \<in> set expected \<and> m (ev_index v) = None \<and> valid_vector dimension (ev_values v)) vecs \<and>
    distinct (map ev_index vecs) \<and> m' = m ++ map_of (map vector_entry vecs)"
proof (induction vecs arbitrary: m)
  case (Cons v vecs)
  let ?i = "ev_index v" and ?ok = "\<lambda>v. ev_index v \<in> set expected \<and> valid_vector dimension (ev_values v)"
  let ?m = "m(?i \<mapsto> ev_values v)"
  have merge: "?m ++ map_of (map vector_entry vecs) = m ++ map_of (map vector_entry (v # vecs))" if "?i \<notin> ev_index ` set vecs"
  proof -
    have "map_of (map vector_entry vecs) ?i = None"
      using that by (auto simp: map_of_eq_None_iff vector_entry_def)
    then show ?thesis by (auto simp: fun_eq_iff map_add_def vector_entry_def split: option.split)
  qed
  have fresh: "list_all (\<lambda>w. ev_index w \<in> set expected \<and> ?m (ev_index w) = None \<and> valid_vector dimension (ev_values w)) vecs \<longleftrightarrow>
      ?i \<notin> ev_index ` set vecs \<and>
      list_all (\<lambda>w. ev_index w \<in> set expected \<and> m (ev_index w) = None \<and> valid_vector dimension (ev_values w)) vecs"
    by (auto simp: list_all_iff) (metis image_eqI)
  have "foldM (store_vector expected dimension) (v # vecs) m = Inr m' \<longleftrightarrow>
      ?ok v \<and> m ?i = None \<and> foldM (store_vector expected dimension) vecs ?m = Inr m'"
    by (auto simp: and_then_Inr_iff store_vector_Inr)
  with fresh merge show ?case by (auto simp add: Cons.IH simp del: fun_upd_apply)
qed auto

text \<open>Under distinct indexes the answer is a permutation of the positional one.\<close>

definition positional :: "embedding_input list \<Rightarrow> component list list \<Rightarrow> embedding_vector list" where
  "positional inputs vss = map2 (\<lambda>inp vs. \<lparr>ev_index = in_index inp, ev_values = vs\<rparr>) inputs vss"

lemma positional_simps [simp]:
  "length vss = length inputs \<Longrightarrow> map ev_index (positional inputs vss) = map in_index inputs"
  "length vss = length inputs \<Longrightarrow> map ev_values (positional inputs vss) = vss"
  "length (positional inputs vss) = min (length inputs) (length vss)"
  by (auto simp: positional_def intro!: nth_equalityI)

lemma distinct_of_map: "distinct (map f xs) \<Longrightarrow> distinct xs"
  by (simp add: distinct_map)

lemma nth_map_of_zip:
  assumes "distinct ks" and "length vs = length ks"
  shows "map (\<lambda>k. the (map_of (zip ks vs) k)) ks = vs"
  using assms by (auto intro!: nth_equalityI simp: map_of_zip_nth)

lemma map_of_positional:
  assumes "length vss = length inputs"
  shows "map vector_entry (positional inputs vss) = zip (map in_index inputs) vss"
  using assms by (auto simp: positional_def vector_entry_def intro!: nth_equalityI)

lemma ordered_vectors_Inr:
  assumes "distinct (map in_index inputs)"
  shows "ordered_vectors result inputs dimension = Inr vss \<longleftrightarrow> length vss = length inputs \<and>
    list_all (valid_vector dimension) vss \<and> mset (rs_vectors result) = mset (positional inputs vss)"
    (is "?run \<longleftrightarrow> ?spec")
proof
  let ?ks = "map in_index inputs" and ?vecs = "rs_vectors result"
  assume ?run
  then have len: "length ?vecs = length inputs"
    and ok: "list_all (\<lambda>v. ev_index v \<in> set ?ks \<and> valid_vector dimension (ev_values v)) ?vecs"
    and dist: "distinct (map ev_index ?vecs)"
    and vss: "vss = map (\<lambda>inp. the (map_of (map vector_entry ?vecs) (in_index inp))) inputs"
    by (auto simp: ordered_vectors_def and_then_Inr_iff raise_if_Inr_iff store_vectors_Inr list_all_iff)
  have "set (map ev_index ?vecs) \<subseteq> set ?ks" using ok by (auto simp: list_all_iff)
  moreover have "card (set (map ev_index ?vecs)) = card (set ?ks)"
    using dist assms len by (metis distinct_card length_map)
  ultimately have keys: "set (map ev_index ?vecs) = set ?ks" by (meson List.finite_set card_subset_eq)
  have distinct_entries: "distinct (map fst (map vector_entry ?vecs))"
    using dist by (simp add: vector_entry_def comp_def)
  have entry: "\<exists>v \<in> set ?vecs. ev_index v = in_index inp \<and> ev_values v = the (map_of (map vector_entry ?vecs) (in_index inp))"
    if "inp \<in> set inputs" for inp
  proof -
    from that keys obtain v where v: "v \<in> set ?vecs" "ev_index v = in_index inp" by (metis image_iff image_set)
    with distinct_entries have "map_of (map vector_entry ?vecs) (in_index inp) = Some (ev_values v)"
      by (intro map_of_is_SomeI) (auto simp: vector_entry_def intro: rev_image_eqI [of v])
    with v show ?thesis by auto
  qed
  have sub: "set (positional inputs vss) \<subseteq> set ?vecs"
  proof
    fix w assume "w \<in> set (positional inputs vss)"
    then obtain inp where "inp \<in> set inputs"
      and w: "w = \<lparr>ev_index = in_index inp, ev_values = the (map_of (map vector_entry ?vecs) (in_index inp))\<rparr>"
      by (auto simp: positional_def vss zip_map2 zip_same_conv_map)
    from entry [OF this(1)] w show "w \<in> set ?vecs" by (metis embedding_vector.surjective old.unit.exhaust)
  qed
  have "length vss = length inputs" by (simp add: vss)
  then have "distinct (positional inputs vss)" and "length (positional inputs vss) = length ?vecs"
    using assms len by (auto intro: distinct_of_map [of ev_index])
  moreover have "distinct ?vecs" using dist by (rule distinct_of_map)
  ultimately have "set (positional inputs vss) = set ?vecs"
    using sub by (metis List.finite_set card_subset_eq distinct_card)
  then have "mset ?vecs = mset (positional inputs vss)"
    using \<open>distinct ?vecs\<close> \<open>distinct (positional inputs vss)\<close> by (simp add: set_eq_iff_mset_eq_distinct)
  moreover have "list_all (valid_vector dimension) vss"
    using entry ok by (fastforce simp: vss list_all_iff)
  ultimately show ?spec using \<open>length vss = length inputs\<close> by simp
next
  let ?ks = "map in_index inputs" and ?vecs = "rs_vectors result"
  assume spec: ?spec
  let ?pos = "positional inputs vss"
  have len: "length ?vecs = length inputs" using spec by (metis min.idem positional_simps(3) size_mset)
  have "mset (map ev_index ?vecs) = mset ?ks" using spec by (metis mset_map positional_simps(1))
  with assms have dist: "distinct (map ev_index ?vecs)" by (metis mset_eq_imp_distinct_iff)
  have same: "set ?vecs = set ?pos" using spec by (metis mset_eq_setD)
  have "map_of (map vector_entry ?vecs) = map_of (map vector_entry ?pos)"
  proof (rule map_of_inject_set [THEN iffD2])
    show "distinct (map fst (map vector_entry ?vecs))" "distinct (map fst (map vector_entry ?pos))"
      using dist assms spec by (simp_all add: vector_entry_def comp_def)
    show "set (map vector_entry ?vecs) = set (map vector_entry ?pos)" using same by simp
  qed
  then have "map (\<lambda>inp. the (map_of (map vector_entry ?vecs) (in_index inp))) inputs = vss"
    using nth_map_of_zip [OF assms, of vss] spec by (simp add: map_of_positional comp_def)
  moreover have "list_all (\<lambda>v. ev_index v \<in> set ?ks \<and> valid_vector dimension (ev_values v)) ?vecs"
    using same spec by (auto simp: list_all_iff positional_def dest: set_zip_leftD set_zip_rightD)
  moreover from this dist have
    "foldM (store_vector ?ks dimension) ?vecs Map.empty = Inr (map_of (map vector_entry ?vecs))"
    unfolding store_vectors_Inr by (simp add: list_all_iff)
  ultimately show ?run using len by (simp add: ordered_vectors_def)
qed

subsection \<open>Retries\<close>

definition transient :: "embedding_error + 'a \<Rightarrow> bool" where
  "transient r \<longleftrightarrow> (\<exists>reason retry_after. r = Inl (EmbeddingProviderTransientError reason retry_after))"

lemma transient_simps [simp]:
  "transient (Inl (EmbeddingProviderTransientError reason retry_after))" "\<not> transient (Inr x)"
  by (simp_all add: transient_def)

text \<open>The first attempt that is not retried.\<close>

lemma embed_attempts_cases:
  obtains (stop) "\<not> transient (call (n + 1)) \<or> rc_max_provider_attempts cfg \<le> n + 1"
      "embed_attempts call jitter cfg n =
        ([], case call (n + 1) of Inl e \<Rightarrow> Inl e | Inr res \<Rightarrow> Inr (res, n + 1))"
  | (overflow) reason retry_after e where "call (n + 1) = Inl (EmbeddingProviderTransientError reason retry_after)"
      "n + 1 < rc_max_provider_attempts cfg" "backoff_seconds (n + 1) cfg retry_after (jitter (n + 1)) = Inl e"
      "embed_attempts call jitter cfg n = ([], Inl e)"
  | (again) reason retry_after s where "call (n + 1) = Inl (EmbeddingProviderTransientError reason retry_after)"
      "n + 1 < rc_max_provider_attempts cfg" "backoff_seconds (n + 1) cfg retry_after (jitter (n + 1)) = Inr s"
      "embed_attempts call jitter cfg n =
        (s # fst (embed_attempts call jitter cfg (n + 1)), snd (embed_attempts call jitter cfg (n + 1)))"
proof (cases "transient (call (n + 1)) \<and> n + 1 < rc_max_provider_attempts cfg")
  case False
  then have "embed_attempts call jitter cfg n = ([], case call (n + 1) of Inl e \<Rightarrow> Inl e | Inr res \<Rightarrow> Inr (res, n + 1))"
    by (subst embed_attempts.simps) (auto split: sum.split embedding_error.split)
  with False stop show ?thesis by linarith
next
  case True
  then obtain reason retry_after where call: "call (n + 1) = Inl (EmbeddingProviderTransientError reason retry_after)"
    by (auto simp: transient_def)
  show ?thesis
  proof (cases "backoff_seconds (n + 1) cfg retry_after (jitter (n + 1))")
    case (Inl e)
    with call True overflow show ?thesis by (auto simp: embed_attempts.simps [of call jitter cfg n])
  next
    case (Inr s)
    with call True again show ?thesis by (auto simp: embed_attempts.simps [of call jitter cfg n] Let_def)
  qed
qed

lemma embed_attempts_answer:
  "snd (embed_attempts call jitter cfg n) = Inr (res, m) \<Longrightarrow>
    call m = Inr res \<and> n < m \<and> (n < rc_max_provider_attempts cfg \<longrightarrow> m \<le> rc_max_provider_attempts cfg)"
proof (induction call jitter cfg n rule: embed_attempts.induct)
  case (1 call jitter cfg n)
  show ?case
  proof (cases rule: embed_attempts_cases [of call n cfg jitter])
    case stop
    with 1(2) show ?thesis by (auto split: sum.splits)
  next
    case (overflow reason retry_after e)
    with 1(2) show ?thesis by simp
  next
    case (again reason retry_after s)
    from 1(1) [OF again(1) refl _ again(3)] again 1(2) show ?thesis by auto
  qed
qed

lemma backoff_bounds:
  assumes "1 \<le> n" and "n \<le> 1024" and "0 < rc_retry_initial_backoff_seconds cfg"
    and "rc_retry_initial_backoff_seconds cfg \<le> rc_retry_max_backoff_seconds cfg" and "0 \<le> j" and "j \<le> 1"
  shows "\<exists>s. backoff_seconds n cfg retry_after j = Inr s \<and> 0 < s \<and> s \<le> rc_retry_max_backoff_seconds cfg"
proof -
  let ?b = "min (rc_retry_initial_backoff_seconds cfg * 2 ^ nat (n - 1)) (rc_retry_max_backoff_seconds cfg)"
  have b: "0 < ?b" "?b \<le> rc_retry_max_backoff_seconds cfg" using assms(3,4) by auto
  have "0 < ?b * (1 / 2 + j / 2)" using b assms(5) by (intro mult_pos_pos) auto
  moreover have "?b * (1 / 2 + j / 2) \<le> ?b * 1" using b assms(6) by (intro mult_left_mono) auto
  ultimately have "0 < ?b * (1 / 2 + j / 2) \<and> ?b * (1 / 2 + j / 2) \<le> rc_retry_max_backoff_seconds cfg"
    using b(2) by linarith
  with assms show ?thesis by (auto simp: backoff_seconds_def split: option.splits)
qed

lemma embed_attempts_schedule:
  assumes "rc_max_provider_attempts cfg \<le> 1024" and "0 < rc_retry_initial_backoff_seconds cfg"
    and "rc_retry_initial_backoff_seconds cfg \<le> rc_retry_max_backoff_seconds cfg"
    and "\<forall>k. 0 \<le> jitter k \<and> jitter k \<le> 1" and "0 \<le> n" and "n < rc_max_provider_attempts cfg"
    and "embed_attempts call jitter cfg n = (sleeps, r)" and "m = n + 1 + int (length sleeps)"
  shows "m \<le> rc_max_provider_attempts cfg \<and> r = (case call m of Inl e \<Rightarrow> Inl e | Inr res \<Rightarrow> Inr (res, m)) \<and>
    (\<forall>k. n < k \<and> k < m \<longrightarrow> transient (call k)) \<and> (m < rc_max_provider_attempts cfg \<longrightarrow> \<not> transient (call m)) \<and>
    (\<forall>s \<in> set sleeps. 0 < s \<and> s \<le> rc_retry_max_backoff_seconds cfg)"
  using assms
proof (induction call jitter cfg n arbitrary: sleeps r m rule: embed_attempts.induct)
  case (1 call jitter cfg n)
  show ?case
  proof (cases rule: embed_attempts_cases [of call n cfg jitter])
    case stop
    with 1(7-) show ?thesis by auto
  next
    case (overflow reason retry_after e)
    from backoff_bounds [of "n + 1" cfg "jitter (n + 1)" retry_after] overflow(2,3) 1(2-7) show ?thesis by auto
  next
    case (again reason retry_after s)
    obtain sleeps' where rec: "embed_attempts call jitter cfg (n + 1) = (sleeps', r)" and sl: "sleeps = s # sleeps'"
      using again(4) 1(8) by (cases "embed_attempts call jitter cfg (n + 1)") auto
    have m: "m = n + 1 + 1 + int (length sleeps')" using 1(9) sl by simp
    have bounds: "0 < s \<and> s \<le> rc_retry_max_backoff_seconds cfg"
      using backoff_bounds [of "n + 1" cfg "jitter (n + 1)" retry_after] again(2,3) 1(2-7) by auto
    have IH: "m \<le> rc_max_provider_attempts cfg \<and> r = (case call m of Inl e \<Rightarrow> Inl e | Inr res \<Rightarrow> Inr (res, m)) \<and>
        (\<forall>k. n + 1 < k \<and> k < m \<longrightarrow> transient (call k)) \<and> (m < rc_max_provider_attempts cfg \<longrightarrow> \<not> transient (call m)) \<and>
        (\<forall>s \<in> set sleeps'. 0 < s \<and> s \<le> rc_retry_max_backoff_seconds cfg)"
      using again(2) by (intro 1(1) [OF again(1) refl _ again(3) 1(2-5) _ _ rec m]) (use 1(6) in auto)
    have "transient (call k)" if "n < k" "k < m" for k
      using that again(1) IH by (cases "k = n + 1") auto
    with IH bounds sl show ?thesis by auto
  qed
qed

subsection \<open>Whole runs\<close>

text \<open>The request made for a batch: its contents numbered from 0.\<close>

definition request_of :: "embedding_model \<Rightarrow> embeddable_chunk list \<Rightarrow> batch_request" where
  "request_of model cs = \<lparr>rq_model_name = em_model_name model,
    rq_inputs = map2 (\<lambda>k c. \<lparr>in_index = int k, in_text = ec_content c\<rparr>) [0..<length cs] cs\<rparr>"

lemma build_inputs_from_Inr:
  "build_inputs_from (int k) cs model cfg = Inr inputs \<Longrightarrow>
    inputs = map2 (\<lambda>k c. \<lparr>in_index = int k, in_text = ec_content c\<rparr>) [k..<k + length cs] cs \<and>
    list_all (\<lambda>c. strip (ec_content c) \<noteq> []) cs"
proof (induction cs arbitrary: k inputs)
  case (Cons c cs)
  from Cons.prems obtain rest where rest: "build_inputs_from (int (Suc k)) cs model cfg = Inr rest"
    and "inputs = \<lparr>in_index = int k, in_text = ec_content c\<rparr> # rest" "strip (ec_content c) \<noteq> []"
    by (auto simp: and_then_Inr_iff raise_if_Inr_iff add.commute)
  with Cons.IH [OF rest] show ?case by (simp add: upt_conv_Cons del: upt_Suc)
qed simp

lemma build_inputs_Inr:
  assumes "build_inputs cs model cfg = Inr inputs"
  shows "inputs = rq_inputs (request_of model cs)" and "list_all (\<lambda>c. strip (ec_content c) \<noteq> []) cs"
  using build_inputs_from_Inr [of 0 cs model cfg inputs] assms
  by (simp_all add: build_inputs_def request_of_def)

lemma map_in_index_request [simp]: "map in_index (rq_inputs (request_of model cs)) = map int [0..<length cs]"
  by (auto simp: request_of_def intro!: nth_equalityI)

lemma length_request [simp]: "length (rq_inputs (request_of model cs)) = length cs"
  by (simp add: request_of_def)

lemma distinct_request: "distinct (map in_index (rq_inputs (request_of model cs)))"
  by (simp add: distinct_map)

text \<open>What the vectors of a batch are: the answer to one of its calls, put into the order of its chunks.\<close>

definition answers ::
  "provider_calls \<Rightarrow> embedding_model \<Rightarrow> run_config \<Rightarrow> embedding_batch \<Rightarrow> chunk_vector list \<Rightarrow> int \<Rightarrow> bool"
where
  "answers provider model cfg b vs n \<longleftrightarrow> 1 \<le> n \<and> n \<le> rc_max_provider_attempts cfg \<and>
    map cv_chunk_id vs = map ec_chunk_id (eb_chunks b) \<and> list_all (\<lambda>v. valid_vector (em_dimension model) (cv_values v)) vs \<and>
    (\<exists>res. provider (eb_ordinal b) n (request_of model (eb_chunks b)) = Inr res \<and>
      mset (rs_vectors res) = mset (map2 (\<lambda>k v. \<lparr>ev_index = int k, ev_values = cv_values v\<rparr>) [0..<length vs] vs))"

lemma embed_batch_Inr:
  assumes "0 < rc_max_provider_attempts cfg" and "embed_batch provider jitter model cfg b = Inr (vs, n, u)"
  shows "answers provider model cfg b vs n"
proof -
  let ?cs = "eb_chunks b" and ?req = "request_of model (eb_chunks b)"
  from assms(2) obtain inputs res vals where inputs: "build_inputs ?cs model cfg = Inr inputs"
    and att: "snd (embed_attempts (\<lambda>n. provider (eb_ordinal b) n \<lparr>rq_model_name = em_model_name model, rq_inputs = inputs\<rparr>)
        (jitter (eb_ordinal b)) cfg 0) = Inr (res, n)"
    and vals: "ordered_vectors res inputs (em_dimension model) = Inr vals"
    and vs: "vs = map2 (\<lambda>c vals. \<lparr>cv_chunk_id = ec_chunk_id c, cv_values = vals\<rparr>) ?cs vals"
    by (auto simp: embed_batch_def and_then_Inr_iff)
  have req: "\<lparr>rq_model_name = em_model_name model, rq_inputs = inputs\<rparr> = ?req"
    using build_inputs_Inr(1) [OF inputs] by (simp add: request_of_def)
  from embed_attempts_answer [OF att] assms(1) have call: "provider (eb_ordinal b) n ?req = Inr res" and n: "0 < n" "n \<le> rc_max_provider_attempts cfg"
    by (simp_all add: req)
  from vals have v: "length vals = length ?cs" "list_all (valid_vector (em_dimension model)) vals"
      "mset (rs_vectors res) = mset (positional (rq_inputs ?req) vals)"
    using ordered_vectors_Inr [OF distinct_request] by (auto simp: build_inputs_Inr(1) [OF inputs])
  have "positional (rq_inputs ?req) vals = map2 (\<lambda>k v. \<lparr>ev_index = int k, ev_values = cv_values v\<rparr>) [0..<length vs] vs"
    using v(1) by (auto simp: positional_def request_of_def vs intro!: nth_equalityI)
  moreover have "map cv_chunk_id vs = map ec_chunk_id ?cs" "map cv_values vs = vals"
    using v(1) by (auto simp: vs intro!: nth_equalityI)
  moreover from this(2) v(2) have "list_all (\<lambda>w. valid_vector (em_dimension model) (cv_values w)) vs"
    by (metis list.pred_map comp_def list.pred_mono_strong)
  ultimately show ?thesis using call n v(3) by (auto simp: answers_def)
qed

lemma first_error_None: "first_error rs = None \<longleftrightarrow> (\<forall>r \<in> set rs. \<exists>x. r = Inr x)"
  by (induction rs rule: first_error.induct) auto

lemma first_error_Some: "first_error rs = Some e \<Longrightarrow> Inl e \<in> set rs"
  by (induction rs rule: first_error.induct) auto

lemma gather_Inr: "gather order rs = Inr xs \<longleftrightarrow> rs = map Inr xs"
proof
  assume "gather order rs = Inr xs"
  then have "\<forall>r \<in> set rs. \<exists>x. r = Inr x" and xs: "xs = map projr rs"
    by (auto simp: gather_def first_error_None split: option.splits)
  then show "rs = map Inr xs" by (auto intro!: nth_equalityI) (metis nth_mem sum.sel(2))
next
  assume rs: "rs = map Inr xs"
  then have "first_error (map ((!) rs) (filter (\<lambda>k. k < length rs) order) @ rs) = None"
    unfolding first_error_None by auto
  with rs show "gather order rs = Inr xs" by (simp add: gather_def comp_def)
qed

lemma gather_Inl: "gather order rs = Inl e \<Longrightarrow> Inl e \<in> set rs"
  by (auto simp: gather_def split: option.splits dest!: first_error_Some)

lemma embed_Inr:
  assumes "0 < rc_max_provider_attempts cfg" and "embed provider jitter order model cfg chunks = Inr out"
  shows "\<exists>results. length results = length (plan_batches cfg chunks) \<and> out = collect results \<and>
    (\<forall>k < length results. answers provider model cfg (plan_batches cfg chunks ! k) (fst (results ! k)) (fst (snd (results ! k))))"
proof -
  from assms(2) obtain results where all: "map (embed_batch provider jitter model cfg) (plan_batches cfg chunks) = map Inr results"
    and out: "out = collect results"
    by (auto simp: embed_def and_then_Inr_iff gather_Inr)
  from all have len: "length results = length (plan_batches cfg chunks)" by (metis length_map)
  have "answers provider model cfg (plan_batches cfg chunks ! k) (fst (results ! k)) (fst (snd (results ! k)))"
    if "k < length results" for k
  proof -
    from all that len have "embed_batch provider jitter model cfg (plan_batches cfg chunks ! k) = Inr (results ! k)"
      by (metis nth_map)
    then show ?thesis by (metis embed_batch_Inr [OF assms(1)] prod.collapse)
  qed
  with len out show ?thesis by blast
qed

lemma embed_vectors:
  assumes "0 < rc_batch_size cfg" and "0 < rc_max_provider_attempts cfg"
    and "embed provider jitter order model cfg chunks = Inr out"
  shows "map cv_chunk_id (bo_vectors out) = map ec_chunk_id chunks"
    and "list_all (\<lambda>v. valid_vector (em_dimension model) (cv_values v)) (bo_vectors out)"
    and "bo_batch_count out = length (plan_batches cfg chunks)"
    and "int (bo_batch_count out) \<le> bo_request_count out"
    and "bo_request_count out \<le> int (bo_batch_count out) * rc_max_provider_attempts cfg"
proof -
  let ?bs = "plan_batches cfg chunks"
  from embed_Inr [OF assms(2,3)] obtain results where len: "length results = length ?bs" and out: "out = collect results"
    and ans: "\<And>k. k < length results \<Longrightarrow> answers provider model cfg (?bs ! k) (fst (results ! k)) (fst (snd (results ! k)))"
    by blast
  have ids: "map (map cv_chunk_id) (map fst results) = map (map ec_chunk_id) (map eb_chunks ?bs)"
    using ans len by (auto simp: answers_def intro!: nth_equalityI)
  show "map cv_chunk_id (bo_vectors out) = map ec_chunk_id chunks"
    using arg_cong [OF ids, of concat] plan_batches_ok(1) [OF assms(1) refl, of chunks]
    by (simp only: out collect_def batch_outcome.simps flip: map_concat)
  have each: "answers provider model cfg b (fst x) (fst (snd x))" if "(b, x) \<in> set (zip ?bs results)" for b x
    using that ans by (auto simp: set_zip)
  have all: "\<exists>b. answers provider model cfg b (fst x) (fst (snd x))" if "x \<in> set results" for x
    using that ans by (metis in_set_conv_nth)
  show "list_all (\<lambda>v. valid_vector (em_dimension model) (cv_values v)) (bo_vectors out)"
    using all by (fastforce simp: out collect_def list_all_iff answers_def)
  show count: "bo_batch_count out = length ?bs" by (simp add: out collect_def len)
  have n: "1 \<le> fst (snd x) \<and> fst (snd x) \<le> rc_max_provider_attempts cfg" if "x \<in> set results" for x
    using all [OF that] by (auto simp: answers_def)
  have "int (length xs) \<le> sum_list (map (fst \<circ> snd) xs) \<and>
      sum_list (map (fst \<circ> snd) xs) \<le> int (length xs) * rc_max_provider_attempts cfg"
    if "set xs \<subseteq> set results" for xs
    using that by (induction xs) (use n in \<open>auto simp: algebra_simps add_mono\<close>)
  then show "int (bo_batch_count out) \<le> bo_request_count out"
    and "bo_request_count out \<le> int (bo_batch_count out) * rc_max_provider_attempts cfg"
    by (simp_all add: out collect_def)
qed

text \<open>A configuration, a model and a provider for the witnesses.\<close>

definition sample_model :: embedding_model where
  "sample_model = \<lparr>em_id = 70, em_provider = OPENAI, em_model_name = lit ''m'', em_model_revision = lit ''1'',
    em_dimension = 2, em_distance_metric = COSINE, em_max_input_tokens = None, em_configuration = JObj [],
    em_configuration_hash = ''h'', em_created_at = 0\<rparr>"

definition two_by_two :: run_config where
  "two_by_two = default_run_config\<lparr>rc_batch_size := 2\<rparr>"

definition word_chunk :: "uuid \<Rightarrow> embeddable_chunk" where
  "word_chunk k = \<lparr>ec_chunk_id = k, ec_chunk_index = k, ec_content = lit ''word'', ec_token_count = 1\<rparr>"

text \<open>Fails once, then answers in reverse order.\<close>

definition reversing_provider :: provider_calls where
  "reversing_provider b n req = (if n < 2 then Inl (EmbeddingProviderTransientError ''busy'' None)
    else Inr \<lparr>rs_vectors = rev (map (\<lambda>inp. \<lparr>ev_index = in_index inp, ev_values = [CFloat (of_int (in_index inp)), CFloat 0]\<rparr>)
        (rq_inputs req)), rs_usage = \<lparr>us_input_tokens = Some 3, us_total_tokens = None\<rparr>\<rparr>)"

section \<open>Properties\<close>

text \<open>
  C25. Batch planning cuts the chunk list into consecutive batches, numbered in order, none of
  them empty. A batch never has more than \<open>batch_size\<close> chunks, and exceeds \<open>max_batch_tokens\<close>
  only when it is a single chunk. No batch is cut short: the first chunk of the next batch would
  have broken one of the two limits.
\<close>

theorem batches_are_maximal_windows:
  assumes "0 < rc_batch_size cfg"
  shows "concat (map eb_chunks (plan_batches cfg chunks)) = chunks \<and>
    map eb_ordinal (plan_batches cfg chunks) = [0..<length (plan_batches cfg chunks)] \<and>
    (\<forall>b \<in> set (plan_batches cfg chunks). eb_chunks b \<noteq> [] \<and> int (length (eb_chunks b)) \<le> rc_batch_size cfg \<and>
      (sum_list (map ec_token_count (eb_chunks b)) \<le> rc_max_batch_tokens cfg \<or> length (eb_chunks b) = 1)) \<and>
    (\<forall>k. Suc k < length (plan_batches cfg chunks) \<longrightarrow>
      rc_batch_size cfg \<le> int (length (eb_chunks (plan_batches cfg chunks ! k))) \<or>
      rc_max_batch_tokens cfg < sum_list (map ec_token_count (eb_chunks (plan_batches cfg chunks ! k))) +
        ec_token_count (hd (eb_chunks (plan_batches cfg chunks ! Suc k))))"
  using plan_batches_ok [OF assms refl, of chunks]
  by (auto simp: list_all_iff batch_fits_def batch_tokens_def successively_conv_nth batch_full_def)

theorem batches_are_maximal_windows_witness:
  "map eb_chunks (plan_batches two_by_two (map word_chunk [1, 2, 3])) = [map word_chunk [1, 2], [word_chunk 3]] \<and>
    concat (map eb_chunks (plan_batches two_by_two (map word_chunk [1, 2, 3]))) = map word_chunk [1, 2, 3]"
  using batches_are_maximal_windows [of two_by_two "map word_chunk [1, 2, 3]"]
  by (simp add: two_by_two_def default_run_config_def plan_batches_def word_chunk_def)

text \<open>
  C24. The order of the provider's answer does not matter. For the inputs of any batch,
  \<open>ordered_vectors\<close> returns \<open>vss\<close> exactly when the answer is, in some order, one vector for each
  input index, the one for input k being the k-th of \<open>vss\<close>, all of the model's dimension with
  finite numeric components; so a missing, duplicate, unknown or invalid vector is always
  rejected, and answers that are permutations of each other are read alike.
\<close>

theorem answer_order_is_irrelevant:
  assumes "build_inputs chunks model cfg = Inr inputs"
  shows "ordered_vectors result inputs dimension = Inr vss \<longleftrightarrow>
    length vss = length chunks \<and>
    (\<forall>vs \<in> set vss. int (length vs) = dimension \<and> list_all (\<lambda>v. check_component v = Inr ()) vs) \<and>
    mset (rs_vectors result) = mset (map (\<lambda>k. \<lparr>ev_index = int k, ev_values = vss ! k\<rparr>) [0..<length chunks])"
proof -
  have "positional inputs vss = map (\<lambda>k. \<lparr>ev_index = int k, ev_values = vss ! k\<rparr>) [0..<length chunks]"
    if "length vss = length chunks"
    using that by (auto simp: build_inputs_Inr(1) [OF assms] positional_def request_of_def intro!: nth_equalityI)
  with ordered_vectors_Inr [OF distinct_request] show ?thesis
    by (auto simp: build_inputs_Inr(1) [OF assms] valid_vector_def list_all_iff)
qed

theorem answer_order_is_irrelevant_witness:
  "ordered_vectors \<lparr>rs_vectors = [\<lparr>ev_index = 1, ev_values = [CInt 8]\<rparr>, \<lparr>ev_index = 0, ev_values = [CInt 9]\<rparr>],
      rs_usage = \<lparr>us_input_tokens = None, us_total_tokens = None\<rparr>\<rparr>
    (map2 (\<lambda>k c. \<lparr>in_index = k, in_text = ec_content c\<rparr>) [0, 1] (map word_chunk [4, 5])) 1 = Inr [[CInt 9], [CInt 8]]"
proof -
  have inputs: "build_inputs (map word_chunk [4, 5]) sample_model two_by_two =
      Inr (map2 (\<lambda>k c. \<lparr>in_index = k, in_text = ec_content c\<rparr>) [0, 1] (map word_chunk [4, 5]))"
    by code_simp
  show ?thesis
    by (rule answer_order_is_irrelevant [OF inputs, THEN iffD2])
      (simp add: upt_rec float_convertible_def numeral_2_eq_2 del: upt_Suc)
qed

text \<open>
  C26. The retry loop of a batch ends. With a valid configuration and jitter between 0 and 1 it
  makes at most \<open>max_provider_attempts\<close> calls, all but the last of which were answered by a
  transient error; it stops at the first other answer, which it returns with the number of the
  call or raises, or at the last allowed attempt. Between two calls it sleeps a positive time
  of at most \<open>retry_max_backoff_seconds\<close>. (More than 1024 attempts overflow a double.)
\<close>

theorem retry_schedule:
  assumes "run_config_post_init cfg = Inr cfg" and "rc_max_provider_attempts cfg \<le> 1024"
    and "\<forall>k. 0 \<le> jitter k \<and> jitter k \<le> 1"
    and "embed_attempts call jitter cfg 0 = (sleeps, r)" and "m = 1 + int (length sleeps)"
  shows "m \<le> rc_max_provider_attempts cfg \<and> r = (case call m of Inl e \<Rightarrow> Inl e | Inr res \<Rightarrow> Inr (res, m)) \<and>
    (\<forall>k. 0 < k \<and> k < m \<longrightarrow> transient (call k)) \<and> (m < rc_max_provider_attempts cfg \<longrightarrow> \<not> transient (call m)) \<and>
    (\<forall>s \<in> set sleeps. 0 < s \<and> s \<le> rc_retry_max_backoff_seconds cfg)"
  using assms by (intro embed_attempts_schedule [of cfg jitter 0 call sleeps r m])
    (auto simp: run_config_post_init_def split: if_splits)

theorem retry_schedule_witness:
  "let r = embed_attempts (\<lambda>n. reversing_provider 0 n (request_of sample_model [word_chunk 1])) (\<lambda>_. 1) two_by_two 0
   in fst r = [1 / 2] \<and> (\<exists>res. snd r = Inr (res, 2))"
proof -
  let ?call = "\<lambda>n. reversing_provider 0 n (request_of sample_model [word_chunk 1])"
  obtain sleeps r where run: "embed_attempts ?call (\<lambda>_. 1) two_by_two 0 = (sleeps, r)" by fastforce
  have sleeps: "sleeps = [1 / 2]"
    using run by (simp add: embed_attempts.simps reversing_provider_def two_by_two_def default_run_config_def backoff_seconds_def)
  have "run_config_post_init two_by_two = Inr two_by_two" "rc_max_provider_attempts two_by_two \<le> 1024"
    by (simp_all add: two_by_two_def default_run_config_def run_config_post_init_def)
  from retry_schedule [OF this _ run refl]
  have "r = (case ?call (1 + int (length sleeps)) of Inl e \<Rightarrow> Inl e | Inr res \<Rightarrow> Inr (res, 1 + int (length sleeps)))"
    by simp
  moreover have "1 + int (length sleeps) = 2" by (simp add: sleeps)
  ultimately have "r = (case ?call 2 of Inl e \<Rightarrow> Inl e | Inr res \<Rightarrow> Inr (res, 2))" by metis
  with run sleeps show ?thesis by (simp add: Let_def reversing_provider_def)
qed

text \<open>
  C23. Embedding returns one vector per chunk, in the order of the chunks: the vector of a chunk
  is the one the provider returned for the index of its text in the request of its batch (in an
  attempt that was allowed), valid for the model. The batch count is the number of planned
  batches, and the request count lies between it and \<open>max_provider_attempts\<close> times it, whatever
  the order in which the concurrent batches end.
\<close>

theorem embedding_covers_chunks:
  assumes "run_config_post_init cfg = Inr cfg" and "embed provider jitter order model cfg chunks = Inr out"
  shows "map cv_chunk_id (bo_vectors out) = map ec_chunk_id chunks \<and>
    (\<exists>vss ns. concat vss = bo_vectors out \<and> length vss = length (plan_batches cfg chunks) \<and>
      (\<forall>k < length vss. answers provider model cfg (plan_batches cfg chunks ! k) (vss ! k) (ns ! k))) \<and>
    bo_batch_count out = length (plan_batches cfg chunks) \<and>
    int (bo_batch_count out) \<le> bo_request_count out \<and>
    bo_request_count out \<le> int (bo_batch_count out) * rc_max_provider_attempts cfg"
proof -
  have pos: "0 < rc_batch_size cfg" "0 < rc_max_provider_attempts cfg"
    using assms(1) by (auto simp: run_config_post_init_def split: if_splits)
  from embed_Inr [OF pos(2) assms(2)] obtain results where "length results = length (plan_batches cfg chunks)"
    "out = collect results" "\<forall>k < length results. answers provider model cfg (plan_batches cfg chunks ! k)
        (fst (results ! k)) (fst (snd (results ! k)))" by blast
  then have "\<exists>vss ns. concat vss = bo_vectors out \<and> length vss = length (plan_batches cfg chunks) \<and>
      (\<forall>k < length vss. answers provider model cfg (plan_batches cfg chunks ! k) (vss ! k) (ns ! k))"
    by (intro exI [of _ "map fst results"] exI [of _ "map (fst \<circ> snd) results"]) (simp add: collect_def)
  with embed_vectors [OF pos assms(2)] show ?thesis by blast
qed

theorem embedding_covers_chunks_witness:
  "map_sum (\<lambda>_. ()) (\<lambda>out. map cv_chunk_id (bo_vectors out))
    (embed reversing_provider (\<lambda>_ _. 0) [1, 0] sample_model two_by_two (map word_chunk [7, 8, 9])) = Inr [7, 8, 9]"
proof -
  let ?run = "embed reversing_provider (\<lambda>_ _. 0) [1, 0] sample_model two_by_two (map word_chunk [7, 8, 9])"
  have plan: "plan_batches two_by_two (map word_chunk [7, 8, 9]) =
      [\<lparr>eb_ordinal = 0, eb_chunks = map word_chunk [7, 8]\<rparr>, \<lparr>eb_ordinal = 1, eb_chunks = [word_chunk 9]\<rparr>]"
    by (simp add: two_by_two_def default_run_config_def plan_batches_def word_chunk_def)
  have strip: "strip (lit ''word'') \<noteq> []" by code_simp
  note eval = embed_batch_def embed_attempts.simps reversing_provider_def backoff_seconds_def two_by_two_def
    default_run_config_def build_inputs_def word_chunk_def strip guard_input_size_def sample_model_def
    ordered_vectors_def store_vector_def validated_values_def
  obtain x where x: "embed_batch reversing_provider (\<lambda>_ _. 0) sample_model two_by_two
      \<lparr>eb_ordinal = 0, eb_chunks = map word_chunk [7, 8]\<rparr> = Inr x" by (simp add: eval)
  obtain y where y: "embed_batch reversing_provider (\<lambda>_ _. 0) sample_model two_by_two
      \<lparr>eb_ordinal = 1, eb_chunks = [word_chunk 9]\<rparr> = Inr y" by (simp add: eval)
  have "gather [1, 0] (map (embed_batch reversing_provider (\<lambda>_ _. 0) sample_model two_by_two)
      (plan_batches two_by_two (map word_chunk [7, 8, 9]))) = Inr [x, y]"
    unfolding plan gather_Inr using x y by simp
  then obtain out where out: "?run = Inr out" by (simp add: embed_def)
  have "run_config_post_init two_by_two = Inr two_by_two"
    by (simp add: two_by_two_def default_run_config_def run_config_post_init_def)
  from embedding_covers_chunks [OF this out] have "map cv_chunk_id (bo_vectors out) = map ec_chunk_id (map word_chunk [7, 8, 9])"
    by blast
  with out show ?thesis by (simp add: word_chunk_def)
qed

end
