(* ===== verification/EmbeddingRuns.thy ===== *)
theory EmbeddingRuns
  imports EmbeddingBatch "HOL-Library.Sublist"
begin

text \<open>
  The embedding store and its services: the tables of \<open>modules/embedding/models\<close> with their
  constraints, the statements of \<open>repositories/embedding_run.py\<close>, \<open>embedding_model.py\<close> and
  \<open>chunk_embedding.py\<close>, the transactions of \<open>services/embedding_lifecycle.py\<close>,
  \<open>services/model_registry.py\<close> and \<open>services/recovery.py\<close>.

  Embedding runs are the second instance of the lease protocol (\<open>leased_job\<close>). The database
  contains the ingestion tables, whose chunks the runs read through the chunk source, and the
  messages handed to the broker. The configuration hash is a parameter.
\<close>

section \<open>Tables\<close>

record embedding_run =
  ru_id :: uuid
  ru_item_id :: uuid
  ru_model_id :: uuid
  ru_configuration :: json
  ru_configuration_hash :: string
  ru_status :: job_status
  ru_attempt_count :: int
  ru_claimed_at :: "datetime option"
  ru_lease_expires_at :: "datetime option"
  ru_error_code :: "string option"
  ru_error_message :: "pystr option"
  ru_execution_metadata :: json
  ru_created_by :: "uuid option"
  ru_started_at :: "datetime option"
  ru_completed_at :: "datetime option"
  ru_created_at :: datetime

record chunk_embedding =
  ce_chunk_id :: uuid
  ce_model_id :: uuid
  ce_run_id :: uuid
  ce_dimension :: int
  ce_embedding :: "component list"
  ce_created_at :: datetime

definition MAX_VECTOR_DIMENSION :: int where
  "MAX_VECTOR_DIMENSION = 16000"

definition run_requires_claim :: "embedding_run \<Rightarrow> bool" where
  "run_requires_claim r \<longleftrightarrow> ru_status r \<noteq> RUNNING \<or>
    ru_started_at r \<noteq> None \<and> ru_claimed_at r \<noteq> None \<and> ru_lease_expires_at r \<noteq> None"

definition run_lease_only_running :: "embedding_run \<Rightarrow> bool" where
  "run_lease_only_running r \<longleftrightarrow> ru_status r = RUNNING \<or> ru_lease_expires_at r = None"

definition run_valid_lease :: "embedding_run \<Rightarrow> bool" where
  "run_valid_lease r \<longleftrightarrow> (case ru_lease_expires_at r of None \<Rightarrow> True
    | Some e \<Rightarrow> (case ru_claimed_at r of None \<Rightarrow> False | Some c \<Rightarrow> c < e))"

definition run_terminal_completed :: "embedding_run \<Rightarrow> bool" where
  "run_terminal_completed r \<longleftrightarrow> ru_status r \<notin> {COMPLETED, FAILED} \<or> ru_completed_at r \<noteq> None"

definition run_completed_after_start :: "embedding_run \<Rightarrow> bool" where
  "run_completed_after_start r \<longleftrightarrow> (case ru_completed_at r of None \<Rightarrow> True
    | Some c \<Rightarrow> (case ru_started_at r of None \<Rightarrow> False | Some s \<Rightarrow> s \<le> c))"

definition in_flight :: "embedding_run \<Rightarrow> bool" where
  "in_flight r \<longleftrightarrow> ru_status r \<in> {PENDING, RUNNING}"

definition embedding_run_constraints ::
  "uuid list \<Rightarrow> uuid list \<Rightarrow> uuid list \<Rightarrow> embedding_run constraint list"
where
  "embedding_run_constraints item_ids model_ids principal_ids =
    [check ''ck_embedding_runs_attempt_count_non_negative'' (\<lambda>r. 0 \<le> ru_attempt_count r),
     check ''ck_embedding_runs_running_requires_claim'' run_requires_claim,
     check ''ck_embedding_runs_lease_only_while_running'' run_lease_only_running,
     check ''ck_embedding_runs_valid_lease'' run_valid_lease,
     check ''ck_embedding_runs_terminal_requires_completed_at'' run_terminal_completed,
     check ''ck_embedding_runs_completed_not_before_started'' run_completed_after_start,
     unique_index ''uq_embedding_runs_in_flight'' in_flight (\<lambda>r. (ru_item_id r, ru_model_id r)),
     unique_index ''pk_embedding_runs'' (\<lambda>_. True) ru_id,
     check ''fk_embedding_runs_ingestion_item_id_ingestion_items'' (\<lambda>r. ru_item_id r \<in> set item_ids),
     check ''fk_embedding_runs_embedding_model_id_embedding_models'' (\<lambda>r. ru_model_id r \<in> set model_ids),
     check ''fk_embedding_runs_created_by_principal_id_principals''
       (\<lambda>r. case ru_created_by r of None \<Rightarrow> True | Some p \<Rightarrow> p \<in> set principal_ids)]"

definition model_constraints :: "embedding_model constraint list" where
  "model_constraints =
    [check ''ck_embedding_models_valid_dimension'' (\<lambda>m. 0 < em_dimension m \<and> em_dimension m \<le> MAX_VECTOR_DIMENSION),
     check ''ck_embedding_models_max_input_tokens_positive''
       (\<lambda>m. case em_max_input_tokens m of None \<Rightarrow> True | Some t \<Rightarrow> 0 < t),
     check ''ck_embedding_models_model_name_non_empty'' (\<lambda>m. list_ex (\<lambda>c. c \<noteq> 32) (em_model_name m)),
     check ''ck_embedding_models_model_revision_non_empty'' (\<lambda>m. list_ex (\<lambda>c. c \<noteq> 32) (em_model_revision m)),
     unique_index ''uq_embedding_models_identity'' (\<lambda>_. True)
       (\<lambda>m. (em_provider m, em_model_name m, em_model_revision m, em_dimension m, em_distance_metric m,
         coalesce (em_max_input_tokens m) (-1), em_configuration_hash m)),
     unique_index ''pk_embedding_models'' (\<lambda>_. True) em_id]"

definition embedding_constraints ::
  "uuid list \<Rightarrow> uuid list \<Rightarrow> uuid list \<Rightarrow> chunk_embedding constraint list"
where
  "embedding_constraints chunk_ids model_ids run_ids =
    [unique_index ''pk_chunk_embeddings'' (\<lambda>_. True) (\<lambda>r. (ce_chunk_id r, ce_model_id r)),
     check ''ck_chunk_embeddings_valid_dimension'' (\<lambda>r. 0 < ce_dimension r \<and> ce_dimension r \<le> MAX_VECTOR_DIMENSION),
     check ''ck_chunk_embeddings_embedding_matches_dimension''
       (\<lambda>r. int (length (ce_embedding r)) = ce_dimension r),
     check ''fk_chunk_embeddings_chunk_id_chunks'' (\<lambda>r. ce_chunk_id r \<in> set chunk_ids),
     check ''fk_chunk_embeddings_embedding_model_id_embedding_models'' (\<lambda>r. ce_model_id r \<in> set model_ids),
     check ''fk_chunk_embeddings_embedding_run_id_embedding_runs'' (\<lambda>r. ce_run_id r \<in> set run_ids)]"

text \<open>\<open>edb_sent\<close>: the notifications handed to the broker, in order.\<close>

record embedding_db =
  edb_ingestion :: ingestion_db
  edb_models :: "embedding_model list"
  edb_runs :: "embedding_run list"
  edb_embeddings :: "chunk_embedding list"
  edb_sent :: "uuid list"

definition run_cs :: "embedding_db \<Rightarrow> embedding_run constraint list" where
  "run_cs d = embedding_run_constraints (map it_id (idb_items (edb_ingestion d))) (map em_id (edb_models d))
    (idb_principal_ids (edb_ingestion d))"

definition embedding_cs :: "embedding_db \<Rightarrow> chunk_embedding constraint list" where
  "embedding_cs d = embedding_constraints (map ck_id (idb_chunks (edb_ingestion d))) (map em_id (edb_models d))
    (map ru_id (edb_runs d))"

section \<open>Statements on one run\<close>

datatype run_event =
    RunClaim datetime datetime
  | RunHeartbeat int datetime
  | RunRelease int "string option" "pystr option"
  | RunFail int datetime string "pystr option" "json option"
  | RunComplete int datetime json
  | RunReap datetime

definition run_owned_by :: "int \<Rightarrow> datetime \<Rightarrow> embedding_run \<Rightarrow> bool" where
  "run_owned_by n db r \<longleftrightarrow>
    ru_status r = RUNNING \<and> ru_attempt_count r = n \<and> null_gt (ru_lease_expires_at r) db"

fun run_where :: "int \<Rightarrow> datetime \<Rightarrow> run_event \<Rightarrow> embedding_run \<Rightarrow> bool" where
  "run_where max_attempts db (RunClaim now lease) r \<longleftrightarrow> ru_attempt_count r < max_attempts \<and>
    (ru_status r = PENDING \<or> ru_status r = RUNNING \<and> null_le (ru_lease_expires_at r) db)"
| "run_where max_attempts db (RunHeartbeat n lease) r \<longleftrightarrow> run_owned_by n db r"
| "run_where max_attempts db (RunRelease n code message) r \<longleftrightarrow> run_owned_by n db r"
| "run_where max_attempts db (RunFail n now code message meta) r \<longleftrightarrow> run_owned_by n db r"
| "run_where max_attempts db (RunComplete n now meta) r \<longleftrightarrow> run_owned_by n db r"
| "run_where max_attempts db (RunReap now) r \<longleftrightarrow> ru_status r = RUNNING \<and>
    null_le (ru_lease_expires_at r) db \<and> max_attempts \<le> ru_attempt_count r"

fun run_set :: "run_event \<Rightarrow> embedding_run \<Rightarrow> embedding_run" where
  "run_set (RunClaim now lease) r =
    r\<lparr>ru_status := RUNNING, ru_attempt_count := ru_attempt_count r + 1, ru_claimed_at := Some now,
      ru_lease_expires_at := Some lease, ru_started_at := Some (coalesce (ru_started_at r) now)\<rparr>"
| "run_set (RunHeartbeat n lease) r = r\<lparr>ru_lease_expires_at := Some lease\<rparr>"
| "run_set (RunRelease n code message) r =
    r\<lparr>ru_status := PENDING, ru_claimed_at := None, ru_lease_expires_at := None,
      ru_error_code := code, ru_error_message := message\<rparr>"
| "run_set (RunFail n now code message meta) r =
    r\<lparr>ru_status := FAILED, ru_completed_at := Some now, ru_claimed_at := None, ru_lease_expires_at := None,
      ru_error_code := Some code, ru_error_message := message,
      ru_execution_metadata := coalesce meta (ru_execution_metadata r)\<rparr>"
| "run_set (RunComplete n now meta) r =
    r\<lparr>ru_status := COMPLETED, ru_completed_at := Some now, ru_claimed_at := None, ru_lease_expires_at := None,
      ru_execution_metadata := meta, ru_error_code := None, ru_error_message := None\<rparr>"
| "run_set (RunReap now) r =
    r\<lparr>ru_status := FAILED, ru_completed_at := Some now, ru_claimed_at := None, ru_lease_expires_at := None,
      ru_error_code := Some MAX_ATTEMPTS_EXCEEDED\<rparr>"

definition run_exec :: "int \<Rightarrow> datetime \<Rightarrow> run_event \<Rightarrow> embedding_run \<Rightarrow> embedding_run option" where
  "run_exec max_attempts db e r = (if run_where max_attempts db e r then Some (run_set e r) else None)"

definition run_view :: "embedding_run \<Rightarrow> lease_view" where
  "run_view r = \<lparr>lv_status = ru_status r, lv_attempts = ru_attempt_count r, lv_lease = ru_lease_expires_at r\<rparr>"

fun run_lease_event :: "run_event \<Rightarrow> lease_event" where
  "run_lease_event (RunClaim now lease) = Claim lease"
| "run_lease_event (RunHeartbeat n lease) = Heartbeat n lease"
| "run_lease_event (RunRelease n code message) = Release n"
| "run_lease_event (RunFail n now code message meta) = Fail n"
| "run_lease_event (RunComplete n now meta) = Complete n"
| "run_lease_event (RunReap now) = Reap"

interpretation runs: leased_job run_view run_lease_event run_exec
proof
  fix m db e r
  show "map_option run_view (run_exec m db e r) = lease_step m db (run_lease_event e) (run_view r)"
    by (cases e) (simp_all add: run_exec_def run_view_def lease_step.simps run_owned_by_def
        owned_def claimable_def exhausted_def)
qed

section \<open>The repositories\<close>

definition update_run ::
  "int \<Rightarrow> uuid \<Rightarrow> run_event \<Rightarrow> datetime \<Rightarrow> embedding_db \<Rightarrow> db_error + nat \<times> embedding_db"
where
  "update_run max_attempts rid e db d =
    and_then (update_stmt (run_cs d) (\<lambda>r. ru_id r = rid \<and> run_where max_attempts db e r) (run_set e) (edb_runs d))
      (\<lambda>(c, t). Inr (c, d\<lparr>edb_runs := t\<rparr>))"

definition new_embedding_run ::
  "uuid \<Rightarrow> uuid \<Rightarrow> uuid \<Rightarrow> json \<Rightarrow> string \<Rightarrow> uuid option \<Rightarrow> datetime \<Rightarrow> embedding_run"
where
  "new_embedding_run rid item_id model_id configuration configuration_hash created_by db =
    \<lparr>ru_id = rid, ru_item_id = item_id, ru_model_id = model_id, ru_configuration = configuration,
     ru_configuration_hash = configuration_hash, ru_status = PENDING, ru_attempt_count = 0,
     ru_claimed_at = None, ru_lease_expires_at = None, ru_error_code = None, ru_error_message = None,
     ru_execution_metadata = JObj [], ru_created_by = created_by, ru_started_at = None,
     ru_completed_at = None, ru_created_at = db\<rparr>"

definition add_embedding_run ::
  "uuid \<Rightarrow> uuid \<Rightarrow> uuid \<Rightarrow> json \<Rightarrow> string \<Rightarrow> uuid option \<Rightarrow> datetime \<Rightarrow> embedding_db \<Rightarrow> db_error + embedding_db"
where
  "add_embedding_run rid item_id model_id configuration configuration_hash created_by db d =
    and_then (insert_stmt (run_cs d)
        [new_embedding_run rid item_id model_id configuration configuration_hash created_by db] (edb_runs d))
      (\<lambda>t. Inr (d\<lparr>edb_runs := t\<rparr>))"

definition find_embedding_run :: "uuid \<Rightarrow> embedding_db \<Rightarrow> db_error + embedding_run option" where
  "find_embedding_run rid d = one_or_none (sql_select (\<lambda>r. ru_id r = rid) (edb_runs d))"

definition find_in_flight_run :: "uuid \<Rightarrow> uuid \<Rightarrow> embedding_db \<Rightarrow> db_error + embedding_run option" where
  "find_in_flight_run item_id model_id d =
    one_or_none (sql_select (\<lambda>r. ru_item_id r = item_id \<and> ru_model_id r = model_id \<and> in_flight r) (edb_runs d))"



record claimed_run =
  cr_run_id :: uuid
  cr_item_id :: uuid
  cr_model_id :: uuid
  cr_attempt_number :: int
  cr_claimed_at :: "datetime option"
  cr_lease_expires_at :: "datetime option"

definition to_claimed_run :: "embedding_run \<Rightarrow> claimed_run" where
  "to_claimed_run r =
    \<lparr>cr_run_id = ru_id r, cr_item_id = ru_item_id r, cr_model_id = ru_model_id r,
     cr_attempt_number = ru_attempt_count r, cr_claimed_at = ru_claimed_at r,
     cr_lease_expires_at = ru_lease_expires_at r\<rparr>"

definition claim_run ::
  "uuid \<Rightarrow> datetime \<Rightarrow> datetime \<Rightarrow> int \<Rightarrow> datetime \<Rightarrow> embedding_db \<Rightarrow> db_error + claimed_run option \<times> embedding_db"
where
  "claim_run rid now lease max_attempts db d =
    and_then (update_returning (run_cs d) (\<lambda>r. ru_id r = rid \<and> run_where max_attempts db (RunClaim now lease) r)
        (run_set (RunClaim now lease)) (edb_runs d)) (\<lambda>(rows, t).
    and_then (one_or_none rows) (\<lambda>row. Inr (map_option to_claimed_run row, d\<lparr>edb_runs := t\<rparr>)))"

definition heartbeat_run ::
  "uuid \<Rightarrow> int \<Rightarrow> datetime \<Rightarrow> datetime \<Rightarrow> embedding_db \<Rightarrow> db_error + nat \<times> embedding_db"
where
  "heartbeat_run rid n lease db d = update_run 0 rid (RunHeartbeat n lease) db d"

definition release_run_for_retry ::
  "uuid \<Rightarrow> int \<Rightarrow> string option \<Rightarrow> pystr option \<Rightarrow> datetime \<Rightarrow> embedding_db \<Rightarrow> db_error + nat \<times> embedding_db"
where
  "release_run_for_retry rid n code message db d = update_run 0 rid (RunRelease n code message) db d"

definition mark_run_failed ::
  "uuid \<Rightarrow> int \<Rightarrow> datetime \<Rightarrow> string \<Rightarrow> pystr option \<Rightarrow> json option \<Rightarrow> datetime \<Rightarrow> embedding_db \<Rightarrow>
    db_error + nat \<times> embedding_db"
where
  "mark_run_failed rid n now code message meta db d = update_run 0 rid (RunFail n now code message meta) db d"

definition mark_run_completed ::
  "uuid \<Rightarrow> int \<Rightarrow> datetime \<Rightarrow> json \<Rightarrow> datetime \<Rightarrow> embedding_db \<Rightarrow> db_error + nat \<times> embedding_db"
where
  "mark_run_completed rid n now meta db d = update_run 0 rid (RunComplete n now meta) db d"

definition fail_exhausted_expired_runs ::
  "datetime \<Rightarrow> int \<Rightarrow> datetime \<Rightarrow> embedding_db \<Rightarrow> db_error + nat \<times> embedding_db"
where
  "fail_exhausted_expired_runs now max_attempts db d =
    and_then (update_stmt (run_cs d) (run_where max_attempts db (RunReap now)) (run_set (RunReap now)) (edb_runs d))
      (\<lambda>(c, t). Inr (c, d\<lparr>edb_runs := t\<rparr>))"

subsection \<open>Models\<close>

record model_identity =
  mi_provider :: ai_provider
  mi_model_name :: pystr
  mi_model_revision :: pystr
  mi_dimension :: int
  mi_distance_metric :: distance_metric
  mi_max_input_tokens :: "int option"
  mi_configuration :: json

definition identity_post_init :: "model_identity \<Rightarrow> embedding_error + model_identity" where
  "identity_post_init i =
    (if mi_dimension i \<le> 0 then Inl (EmbeddingValueError ''dimension must be positive'')
     else if strip (mi_model_name i) = [] then Inl (EmbeddingValueError ''model_name must be a non-empty string'')
     else if strip (mi_model_revision i) = [] then Inl (EmbeddingValueError ''model_revision must be a non-empty string'')
     else if (case mi_max_input_tokens i of None \<Rightarrow> False | Some t \<Rightarrow> t \<le> 0)
       then Inl (EmbeddingValueError ''max_input_tokens must be positive when provided'')
     else Inr i)"

definition add_model ::
  "uuid \<Rightarrow> model_identity \<Rightarrow> string \<Rightarrow> datetime \<Rightarrow> embedding_db \<Rightarrow> db_error + embedding_db"
where
  "add_model mid i configuration_hash db d =
    and_then (insert_stmt model_constraints
        [\<lparr>em_id = mid, em_provider = mi_provider i, em_model_name = mi_model_name i,
          em_model_revision = mi_model_revision i, em_dimension = mi_dimension i,
          em_distance_metric = mi_distance_metric i, em_max_input_tokens = mi_max_input_tokens i,
          em_configuration = mi_configuration i, em_configuration_hash = configuration_hash, em_created_at = db\<rparr>]
        (edb_models d))
      (\<lambda>t. Inr (d\<lparr>edb_models := t\<rparr>))"

definition find_model :: "uuid \<Rightarrow> embedding_db \<Rightarrow> db_error + embedding_model option" where
  "find_model mid d = one_or_none (sql_select (\<lambda>m. em_id m = mid) (edb_models d))"

text \<open>A comparison with \<open>None\<close> becomes \<open>IS NULL\<close>.\<close>

definition has_identity :: "model_identity \<Rightarrow> string \<Rightarrow> embedding_model \<Rightarrow> bool" where
  "has_identity i configuration_hash m \<longleftrightarrow> em_provider m = mi_provider i \<and> em_model_name m = mi_model_name i \<and>
    em_model_revision m = mi_model_revision i \<and> em_dimension m = mi_dimension i \<and>
    em_distance_metric m = mi_distance_metric i \<and> em_max_input_tokens m = mi_max_input_tokens i \<and>
    em_configuration_hash m = configuration_hash"

definition find_model_by_identity ::
  "model_identity \<Rightarrow> string \<Rightarrow> embedding_db \<Rightarrow> db_error + embedding_model option"
where
  "find_model_by_identity i configuration_hash d =
    one_or_none (sql_select (has_identity i configuration_hash) (edb_models d))"

subsection \<open>Vectors\<close>

definition embedding_rows ::
  "uuid \<Rightarrow> uuid \<Rightarrow> int \<Rightarrow> chunk_vector list \<Rightarrow> datetime \<Rightarrow> chunk_embedding list"
where
  "embedding_rows model_id rid dimension vectors db =
    map (\<lambda>v. \<lparr>ce_chunk_id = cv_chunk_id v, ce_model_id = model_id, ce_run_id = rid, ce_dimension = dimension,
      ce_embedding = cv_values v, ce_created_at = db\<rparr>) vectors"

definition replace_for_model ::
  "uuid \<Rightarrow> uuid \<Rightarrow> int \<Rightarrow> uuid list \<Rightarrow> chunk_vector list \<Rightarrow> datetime \<Rightarrow> embedding_db \<Rightarrow> db_error + embedding_db"
where
  "replace_for_model model_id rid dimension chunk_ids vectors db d =
    (let kept = (if chunk_ids = [] then edb_embeddings d
       else sql_delete (\<lambda>r. ce_model_id r = model_id \<and> ce_chunk_id r \<in> set chunk_ids) (edb_embeddings d)) in
     if vectors = [] then Inr (d\<lparr>edb_embeddings := kept\<rparr>)
     else and_then (insert_stmt (embedding_cs d) (embedding_rows model_id rid dimension vectors db) kept)
       (\<lambda>t. Inr (d\<lparr>edb_embeddings := t\<rparr>)))"

definition count_for_model :: "uuid \<Rightarrow> uuid list \<Rightarrow> embedding_db \<Rightarrow> nat" where
  "count_for_model model_id chunk_ids d =
    (if chunk_ids = [] then 0
     else rowcount (\<lambda>r. ce_model_id r = model_id \<and> ce_chunk_id r \<in> set chunk_ids) (edb_embeddings d))"

section \<open>The lifecycle service\<close>

definition INGESTION_ITEM_NOT_COMPLETED :: string where
  "INGESTION_ITEM_NOT_COMPLETED = ''ingestion item is not completed''"

definition CHUNK_SET_MOVED_DURING_RUN :: string where
  "CHUNK_SET_MOVED_DURING_RUN = ''chunk set no longer matches the loaded chunk set''"

definition INCOMPLETE_VECTOR_SET :: string where
  "INCOMPLETE_VECTOR_SET = ''persisted vector count does not match the chunk count''"

text \<open>The dispatcher says whether the broker took the message; a failure is only logged.\<close>

definition dispatch_best_effort :: "(uuid \<Rightarrow> bool) \<Rightarrow> uuid \<Rightarrow> embedding_db \<Rightarrow> embedding_db" where
  "dispatch_best_effort dispatch rid d = (if dispatch rid then d\<lparr>edb_sent := edb_sent d @ [rid]\<rparr> else d)"

definition commit_run :: "embedding_db \<Rightarrow> 'e + nat \<times> embedding_db \<Rightarrow> 'e + bool \<times> embedding_db" where
  "commit_run d m = and_then m (\<lambda>(c, d'). Inr (c = 1, if c = 1 then d' else d))"

definition create_embedding_run ::
  "(uuid \<Rightarrow> bool) \<Rightarrow> (json \<Rightarrow> string) \<Rightarrow> uuid \<Rightarrow> uuid \<Rightarrow> uuid \<Rightarrow> json \<Rightarrow> uuid option \<Rightarrow> datetime \<Rightarrow> embedding_db \<Rightarrow>
    embedding_error + uuid \<times> embedding_db"
where
  "create_embedding_run dispatch conf_hash rid item_id model_id configuration created_by db d =
    and_then (map_error EmbeddingDbError (is_item_embeddable item_id (edb_ingestion d))) (\<lambda>embeddable.
    and_then (raise_if (\<not> embeddable) (IngestionItemNotEmbeddable INGESTION_ITEM_NOT_COMPLETED)) (\<lambda>_.
    and_then (map_error EmbeddingDbError (find_in_flight_run item_id model_id d)) (\<lambda>running.
    and_then (raise_if (running \<noteq> None) (EmbeddingRunAlreadyInFlight item_id model_id)) (\<lambda>_.
    and_then (map_error EmbeddingDbError
        (add_embedding_run rid item_id model_id configuration (conf_hash configuration) created_by db d)) (\<lambda>d'.
      Inr (rid, dispatch_best_effort dispatch rid d'))))))"

definition load_chunks :: "uuid \<Rightarrow> embedding_db \<Rightarrow> embedding_error + embeddable_chunk list" where
  "load_chunks item_id d =
    and_then (map_error EmbeddingDbError (is_item_embeddable item_id (edb_ingestion d))) (\<lambda>embeddable.
    and_then (raise_if (\<not> embeddable) (IngestionItemNotEmbeddable INGESTION_ITEM_NOT_COMPLETED)) (\<lambda>_.
      Inr (list_chunks item_id (edb_ingestion d))))"

definition claim_run_tx ::
  "lifecycle \<Rightarrow> uuid \<Rightarrow> datetime \<Rightarrow> datetime \<Rightarrow> embedding_db \<Rightarrow> db_error + claimed_run option \<times> embedding_db"
where
  "claim_run_tx lc rid now db d =
    and_then (claim_run rid now (now + lc_lease_duration lc) (lc_max_attempts lc) db d)
      (\<lambda>(claim, d'). Inr (claim, if claim \<noteq> None then d' else d))"

definition heartbeat_run_tx ::
  "lifecycle \<Rightarrow> uuid \<Rightarrow> int \<Rightarrow> datetime \<Rightarrow> datetime \<Rightarrow> embedding_db \<Rightarrow> db_error + bool \<times> embedding_db"
where
  "heartbeat_run_tx lc rid n now db d = commit_run d (heartbeat_run rid n (now + lc_lease_duration lc) db d)"

definition schedule_run_retry_tx ::
  "(uuid \<Rightarrow> bool) \<Rightarrow> lifecycle \<Rightarrow> uuid \<Rightarrow> int \<Rightarrow> string \<Rightarrow> pystr option \<Rightarrow> datetime \<Rightarrow> datetime \<Rightarrow> embedding_db \<Rightarrow>
    db_error + bool \<times> embedding_db"
where
  "schedule_run_retry_tx dispatch lc rid n code message now db d =
    (if lc_max_attempts lc \<le> n
     then commit_run d (mark_run_failed rid n now MAX_ATTEMPTS_EXCEEDED message None db d)
     else and_then (commit_run d (release_run_for_retry rid n (Some code) message db d)) (\<lambda>(released, d').
       Inr (released, if released then dispatch_best_effort dispatch rid d' else d')))"

definition mark_run_failed_tx ::
  "uuid \<Rightarrow> int \<Rightarrow> string \<Rightarrow> pystr option \<Rightarrow> json option \<Rightarrow> datetime \<Rightarrow> datetime \<Rightarrow> embedding_db \<Rightarrow>
    db_error + bool \<times> embedding_db"
where
  "mark_run_failed_tx rid n code message meta now db d =
    commit_run d (mark_run_failed rid n now code message meta db d)"

definition persist_vectors_and_mark_completed ::
  "uuid \<Rightarrow> int \<Rightarrow> uuid \<Rightarrow> uuid \<Rightarrow> int \<Rightarrow> uuid list \<Rightarrow> chunk_vector list \<Rightarrow> json \<Rightarrow> datetime \<Rightarrow> datetime \<Rightarrow>
    embedding_db \<Rightarrow> embedding_error + bool \<times> embedding_db"
where
  "persist_vectors_and_mark_completed rid n item_id model_id dimension expected vectors meta now db d =
    and_then (raise_if (list_chunk_ids item_id (edb_ingestion d) \<noteq> expected)
      (ChunkSetChanged CHUNK_SET_MOVED_DURING_RUN)) (\<lambda>_.
    and_then (map_error EmbeddingDbError (replace_for_model model_id rid dimension expected vectors db d)) (\<lambda>d1.
    and_then (raise_if (count_for_model model_id expected d1 \<noteq> length expected)
      (ChunkSetChanged INCOMPLETE_VECTOR_SET)) (\<lambda>_.
      commit_run d (map_error EmbeddingDbError (mark_run_completed rid n now meta db d1)))))"

definition reap_expired_runs_tx ::
  "lifecycle \<Rightarrow> datetime \<Rightarrow> datetime \<Rightarrow> embedding_db \<Rightarrow> db_error + nat \<times> embedding_db"
where
  "reap_expired_runs_tx lc now db d =
    and_then (fail_exhausted_expired_runs now (lc_max_attempts lc) db d)
      (\<lambda>(c, d'). Inr (c, if 0 < c then d' else d))"

section \<open>The model registry\<close>

definition register_model ::
  "(json \<Rightarrow> string) \<Rightarrow> uuid \<Rightarrow> model_identity \<Rightarrow> datetime \<Rightarrow> embedding_db \<Rightarrow> db_error + uuid \<times> embedding_db"
where
  "register_model conf_hash mid i db d =
    and_then (find_model_by_identity i (conf_hash (mi_configuration i)) d) (\<lambda>existing. case existing of
        Some m \<Rightarrow> Inr (em_id m, d)
      | None \<Rightarrow> and_then (add_model mid i (conf_hash (mi_configuration i)) db d) (\<lambda>d'. Inr (mid, d')))"

section \<open>Recovery\<close>


record recovery =
  rv_pending_age :: timedelta
  rv_batch_size :: int

definition recovery_init :: "timedelta \<Rightarrow> int \<Rightarrow> embedding_error + recovery" where
  "recovery_init pending_age batch_size =
    (if pending_age \<le> 0 then Inl (EmbeddingValueError ''pending_age must be positive'')
     else if batch_size \<le> 0 then Inl (EmbeddingValueError ''batch_size must be positive'')
     else Inr \<lparr>rv_pending_age = pending_age, rv_batch_size = batch_size\<rparr>)"



section \<open>Interleavings\<close>

text \<open>
  One transaction of any process. A worker passes the item and the model of the run that it
  claimed to the completing transaction, so they are read from the run. Deleting a chunk
  deletes its vectors (\<open>ON DELETE CASCADE\<close>).
\<close>

datatype embedding_op =
    RegisterModel uuid model_identity
  | CreateEmbeddingRun uuid uuid uuid json "uuid option"
  | ClaimRun uuid datetime
  | HeartbeatRun uuid int datetime
  | ScheduleRunRetry uuid int string "pystr option" datetime
  | MarkRunFailed uuid int string "pystr option" "json option" datetime
  | PersistVectors uuid int int "uuid list" "chunk_vector list" json datetime
  | ReapRuns datetime
  | DispatchRun uuid
  | IngestionStep ingestion_op

definition cascade :: "ingestion_db \<Rightarrow> ingestion_db \<Rightarrow> chunk_embedding list \<Rightarrow> chunk_embedding list" where
  "cascade before after = sql_delete (\<lambda>e. \<not> list_ex (\<lambda>c. ck_id c = ce_chunk_id e \<and> c \<in> set (idb_chunks before)) (idb_chunks after))"

text \<open>The dispatcher, the hash and the settings of the two lifecycle services.\<close>

record services =
  sv_dispatch :: "uuid \<Rightarrow> bool"
  sv_conf_hash :: "json \<Rightarrow> string"
  sv_runs :: lifecycle
  sv_items :: lifecycle

fun embedding_exec :: "services \<Rightarrow> datetime \<Rightarrow> embedding_op \<Rightarrow> embedding_db \<Rightarrow> embedding_db" where
  "embedding_exec sv db (RegisterModel mid i) d = db_after d (register_model (sv_conf_hash sv) mid i db d)"
| "embedding_exec sv db (CreateEmbeddingRun rid i m conf by) d =
    db_after d (create_embedding_run (sv_dispatch sv) (sv_conf_hash sv) rid i m conf by db d)"
| "embedding_exec sv db (ClaimRun rid now) d = db_after d (claim_run_tx (sv_runs sv) rid now db d)"
| "embedding_exec sv db (HeartbeatRun rid n now) d = db_after d (heartbeat_run_tx (sv_runs sv) rid n now db d)"
| "embedding_exec sv db (ScheduleRunRetry rid n code msg now) d =
    db_after d (schedule_run_retry_tx (sv_dispatch sv) (sv_runs sv) rid n code msg now db d)"
| "embedding_exec sv db (MarkRunFailed rid n code msg meta now) d =
    db_after d (mark_run_failed_tx rid n code msg meta now db d)"
| "embedding_exec sv db (PersistVectors rid n k ids vectors meta now) d =
    (case lookup ru_id rid (edb_runs d) of
       None \<Rightarrow> d
     | Some r \<Rightarrow> db_after d (persist_vectors_and_mark_completed rid n (ru_item_id r) (ru_model_id r) k ids vectors meta now db d))"
| "embedding_exec sv db (ReapRuns now) d = db_after d (reap_expired_runs_tx (sv_runs sv) now db d)"
| "embedding_exec sv db (DispatchRun rid) d = dispatch_best_effort (sv_dispatch sv) rid d"
| "embedding_exec sv db (IngestionStep op) d =
    (let i' = ingestion_exec (sv_items sv) db op (edb_ingestion d) in
     d\<lparr>edb_ingestion := i', edb_embeddings := cascade (edb_ingestion d) i' (edb_embeddings d)\<rparr>)"

definition run_embedding :: "services \<Rightarrow> (datetime \<times> embedding_op) list \<Rightarrow> embedding_db \<Rightarrow> embedding_db" where
  "run_embedding sv ops d = fold (\<lambda>(db, op). embedding_exec sv db op) ops d"

section \<open>Constraints are kept\<close>

lemmas run_checks =
  run_requires_claim_def run_lease_only_running_def run_valid_lease_def run_terminal_completed_def
  run_completed_after_start_def

definition run_row_ok :: "embedding_run \<Rightarrow> bool" where
  "run_row_ok r \<longleftrightarrow> 0 \<le> ru_attempt_count r \<and> run_requires_claim r \<and> run_lease_only_running r \<and>
    run_valid_lease r \<and> run_terminal_completed r \<and> run_completed_after_start r"

definition embedding_ok :: "embedding_db \<Rightarrow> bool" where
  "embedding_ok d \<longleftrightarrow> ingestion_ok (edb_ingestion d) \<and> satisfies (run_cs d) (edb_runs d) \<and>
    satisfies (embedding_cs d) (edb_embeddings d) \<and> satisfies model_constraints (edb_models d)"

lemma satisfies_runs:
  "satisfies (run_cs d) t \<longleftrightarrow> list_all run_row_ok t \<and>
    distinct (map (\<lambda>r. (ru_item_id r, ru_model_id r)) (filter in_flight t)) \<and> distinct (map ru_id t) \<and>
    list_all (\<lambda>r. ru_item_id r \<in> it_id ` set (idb_items (edb_ingestion d)) \<and> ru_model_id r \<in> em_id ` set (edb_models d) \<and>
      (\<forall>p. ru_created_by r = Some p \<longrightarrow> p \<in> set (idb_principal_ids (edb_ingestion d)))) t"
  by (auto simp: run_cs_def embedding_run_constraints_def run_row_ok_def list_all_iff split: option.splits)

lemma satisfies_embeddings:
  "satisfies (embedding_cs d) t \<longleftrightarrow> distinct (map (\<lambda>r. (ce_chunk_id r, ce_model_id r)) t) \<and>
    list_all (\<lambda>r. 0 < ce_dimension r \<and> ce_dimension r \<le> MAX_VECTOR_DIMENSION \<and>
      int (length (ce_embedding r)) = ce_dimension r \<and> ce_chunk_id r \<in> ck_id ` set (idb_chunks (edb_ingestion d)) \<and>
      ce_model_id r \<in> em_id ` set (edb_models d) \<and> ce_run_id r \<in> ru_id ` set (edb_runs d)) t"
  by (auto simp: embedding_cs_def embedding_constraints_def list_all_iff)

lemma embedding_ok_runs:
  assumes "embedding_ok d"
  shows "satisfies (run_cs d) (edb_runs d)" and "distinct (map ru_id (edb_runs d))"
    and "\<And>r. r \<in> set (edb_runs d) \<Longrightarrow> run_row_ok r" and "ingestion_ok (edb_ingestion d)"
  using assms by (auto simp: embedding_ok_def satisfies_runs list_all_iff)

lemma run_set_key [simp]:
  "ru_id (run_set e r) = ru_id r" "ru_item_id (run_set e r) = ru_item_id r"
  "ru_model_id (run_set e r) = ru_model_id r" "ru_configuration (run_set e r) = ru_configuration r"
  "ru_created_by (run_set e r) = ru_created_by r" "ru_created_at (run_set e r) = ru_created_at r"
  by (cases e; simp)+

lemma run_cs_update [simp]:
  "run_cs (d\<lparr>edb_runs := t\<rparr>) = run_cs d" "run_cs (d\<lparr>edb_embeddings := es\<rparr>) = run_cs d"
  "run_cs (d\<lparr>edb_sent := ids\<rparr>) = run_cs d"
  by (simp_all add: run_cs_def)

lemma run_cs_mono:
  assumes "satisfies (run_cs d) t" and "set (map it_id (idb_items (edb_ingestion d))) \<subseteq> set (map it_id (idb_items (edb_ingestion d')))"
    and "set (edb_models d) \<subseteq> set (edb_models d')"
    and "idb_principal_ids (edb_ingestion d') = idb_principal_ids (edb_ingestion d)"
  shows "satisfies (run_cs d') t"
proof -
  have "ru_item_id r \<in> it_id ` set (idb_items (edb_ingestion d')) \<and> ru_model_id r \<in> em_id ` set (edb_models d')"
    if "r \<in> set t" for r
    using assms(1-3) that by (auto simp: satisfies_runs list_all_iff image_iff subset_iff) metis+
  with assms(1,4) show ?thesis by (simp add: satisfies_runs list_all_iff)
qed

lemma embedding_cs_update [simp]:
  "embedding_cs (d\<lparr>edb_embeddings := es\<rparr>) = embedding_cs d" "embedding_cs (d\<lparr>edb_sent := ids\<rparr>) = embedding_cs d"
  "embedding_cs (d\<lparr>edb_runs := sql_update p (run_set e) (edb_runs d)\<rparr>) = embedding_cs d"
  by (simp_all add: embedding_cs_def map_sql_update)

lemma embedding_ok_sent [simp]: "embedding_ok (d\<lparr>edb_sent := ids\<rparr>) = embedding_ok d"
  by (simp add: embedding_ok_def)






lemma update_run_Inr:
  "update_run m i e db d = Inr (c, d') \<longleftrightarrow>
    c = rowcount (\<lambda>r. ru_id r = i \<and> run_where m db e r) (edb_runs d) \<and>
    d' = d\<lparr>edb_runs := sql_update (\<lambda>r. ru_id r = i \<and> run_where m db e r) (run_set e) (edb_runs d)\<rparr> \<and>
    satisfies (run_cs d) (edb_runs d')"
  by (auto simp: update_run_def and_then_Inr_iff stmt_iffs)

lemmas run_statements =
  heartbeat_run_def release_run_for_retry_def mark_run_failed_def mark_run_completed_def

lemma run_update_ok:
  "embedding_ok d \<Longrightarrow> satisfies (run_cs d) (sql_update p (run_set e) (edb_runs d)) \<Longrightarrow>
    embedding_ok (d\<lparr>edb_runs := sql_update p (run_set e) (edb_runs d)\<rparr>)"
  by (simp add: embedding_ok_def)

lemma update_run_ok: "update_run m i e db d = Inr (c, d') \<Longrightarrow> embedding_ok d \<Longrightarrow> embedding_ok d'"
  by (auto simp: update_run_Inr intro: run_update_ok)

lemma run_embedding_simps [simp]:
  "run_embedding sv [] d = d"
  "run_embedding sv ((db, op) # ops) d = run_embedding sv ops (embedding_exec sv db op d)"
  by (simp_all add: run_embedding_def)

section \<open>One run through an interleaving\<close>

text \<open>A transaction does to a run nothing, or one statement of the lease protocol.\<close>

definition run_steps :: "int \<Rightarrow> datetime \<Rightarrow> embedding_db \<Rightarrow> embedding_db \<Rightarrow> bool" where
  "run_steps m db d d' \<longleftrightarrow> (\<forall>k r. lookup ru_id k (edb_runs d) = Some r \<longrightarrow>
    (\<exists>r'. lookup ru_id k (edb_runs d') = Some r' \<and> (r' = r \<or> (\<exists>e. run_exec m db e r = Some r'))))"

lemma run_steps_same: "edb_runs d' = edb_runs d \<Longrightarrow> run_steps m db d d'"
  by (simp add: run_steps_def)

lemma run_steps_refl [simp]:
  "run_steps m db d d" "run_steps m db d (d\<lparr>edb_models := ms\<rparr>)" "run_steps m db d (d\<lparr>edb_embeddings := es\<rparr>)"
  "run_steps m db d (d\<lparr>edb_sent := ids\<rparr>)"
  by (simp_all add: run_steps_same)

lemma run_steps_cong: "edb_runs d0 = edb_runs d \<Longrightarrow> run_steps m db d0 d' \<Longrightarrow> run_steps m db d d'"
  by (simp add: run_steps_def)

lemma run_steps_append: "edb_runs d' = edb_runs d @ rows \<Longrightarrow> run_steps m db d d'"
  by (auto simp: run_steps_def lookup_append)

lemma run_steps_update:
  "(\<And>r. p r \<Longrightarrow> run_where m db e r) \<Longrightarrow> edb_runs d' = sql_update p (run_set e) (edb_runs d) \<Longrightarrow> run_steps m db d d'"
  by (fastforce simp: run_steps_def lookup_sql_update run_exec_def)

lemma run_where_limit: "token (run_lease_event e) \<noteq> None \<Longrightarrow> run_where m db e r = run_where m' db e r"
  by (cases e) simp_all

lemma update_run_steps:
  "update_run m' i e db d = Inr (c, d') \<Longrightarrow> token (run_lease_event e) \<noteq> None \<Longrightarrow> run_steps m db d d'"
  unfolding update_run_Inr using run_where_limit [of e m' db _ m]
  by (intro run_steps_update [where p = "\<lambda>r. ru_id r = i \<and> run_where m' db e r" and e = e]) auto

lemma dispatch_simps [simp]:
  "edb_runs (dispatch_best_effort ds rid d) = edb_runs d"
  "edb_embeddings (dispatch_best_effort ds rid d) = edb_embeddings d"
  "edb_ingestion (dispatch_best_effort ds rid d) = edb_ingestion d"
  "edb_models (dispatch_best_effort ds rid d) = edb_models d"
  "embedding_ok (dispatch_best_effort ds rid d) = embedding_ok d"
  by (simp_all add: dispatch_best_effort_def)

lemma db_after_P: "P d \<Longrightarrow> (\<And>x d'. m = Inr (x, d') \<Longrightarrow> P d') \<Longrightarrow> P (db_after d m)"
  by (cases m) auto

lemma commit_run_P: "P d \<Longrightarrow> (\<And>c d'. m = Inr (c, d') \<Longrightarrow> P d') \<Longrightarrow> P (db_after d (commit_run d m))"
  by (cases m) (auto simp: commit_run_def split: prod.splits)

lemma commit_run_Inr: "commit_run d m = Inr (b, d') \<longleftrightarrow> (\<exists>c d1. m = Inr (c, d1) \<and> b = (c = 1) \<and> d' = (if c = 1 then d1 else d))"
  by (auto simp: commit_run_def and_then_Inr_iff)

lemma replace_for_model_runs: "replace_for_model m rid k ids vs db d = Inr d' \<Longrightarrow>
    edb_runs d' = edb_runs d \<and> edb_ingestion d' = edb_ingestion d \<and> edb_models d' = edb_models d"
  by (auto simp: replace_for_model_def Let_def and_then_Inr_iff split: if_splits)

lemma persist_Inr:
  assumes "persist_vectors_and_mark_completed rid n i m k ids vectors meta now db d = Inr (b, d')"
  obtains d1 where "list_chunk_ids i (edb_ingestion d) = ids" "replace_for_model m rid k ids vectors db d = Inr d1"
    "count_for_model m ids d1 = length ids"
    "b \<longrightarrow> update_run 0 rid (RunComplete n now meta) db d1 = Inr (1, d')" "\<not> b \<longrightarrow> d' = d"
proof -
  from assms obtain d1 where *: "list_chunk_ids i (edb_ingestion d) = ids" "replace_for_model m rid k ids vectors db d = Inr d1"
    "count_for_model m ids d1 = length ids"
    "commit_run d (map_error EmbeddingDbError (update_run 0 rid (RunComplete n now meta) db d1)) = Inr (b, d')"
    by (auto simp: persist_vectors_and_mark_completed_def and_then_Inr_iff map_error_Inr_iff raise_if_Inr_iff mark_run_completed_def)
  from *(4) have "b \<longrightarrow> update_run 0 rid (RunComplete n now meta) db d1 = Inr (1, d')" "\<not> b \<longrightarrow> d' = d"
    by (auto simp: commit_run_Inr map_error_Inr_iff)
  with *(1-3) show ?thesis by (rule that)
qed

lemma db_after_steps:
  "(\<And>x d'. t = Inr (x, d') \<Longrightarrow> run_steps m db d d') \<Longrightarrow> run_steps m db d (db_after d t)"
  by (rule db_after_P [where P = "run_steps m db d"]) (auto simp: run_steps_same)

lemma commit_run_steps:
  "(\<And>c d'. t = Inr (c, d') \<Longrightarrow> run_steps m db d d') \<Longrightarrow> run_steps m db d (db_after d (commit_run d t))"
  by (rule commit_run_P [where P = "run_steps m db d"]) (auto simp: run_steps_same)

lemma create_embedding_run_Inr:
  "create_embedding_run ds ch rid i m conf by db d = Inr (x, d') \<longleftrightarrow>
    (let rows = edb_runs d @ [new_embedding_run rid i m conf (ch conf) by db] in
     x = rid \<and> is_item_embeddable i (edb_ingestion d) = Inr True \<and> find_in_flight_run i m d = Inr None \<and>
     satisfies (run_cs d) rows \<and> d' = dispatch_best_effort ds rid (d\<lparr>edb_runs := rows\<rparr>))"
  by (auto simp: create_embedding_run_def add_embedding_run_def and_then_Inr_iff map_error_Inr_iff stmt_iffs
      raise_if_Inr_iff Let_def)

lemma run_update_steps:
  "run_steps m db d (d\<lparr>edb_runs := sql_update (\<lambda>r. ru_id r = i \<and> run_where m db e r) (run_set e) (edb_runs d)\<rparr>)"
  "run_steps m db d (d\<lparr>edb_runs := sql_update (run_where m db e) (run_set e) (edb_runs d)\<rparr>)"
  by (rule run_steps_update [where e = e], simp_all)+

lemma claim_run_tx_Inr:
  "claim_run_tx lc rid now db d = Inr (c, d') \<longleftrightarrow>
    (let e = RunClaim now (now + lc_lease_duration lc); p = (\<lambda>r. ru_id r = rid \<and> run_where (lc_max_attempts lc) db e r);
         d1 = d\<lparr>edb_runs := sql_update p (run_set e) (edb_runs d)\<rparr> in
     \<exists>row. satisfies (run_cs d) (edb_runs d1) \<and> one_or_none (map (run_set e) (filter p (edb_runs d))) = Inr row \<and>
       c = map_option to_claimed_run row \<and> d' = (if row = None then d else d1))"
  by (auto simp: claim_run_tx_def claim_run_def and_then_Inr_iff stmt_iffs Let_def simp del: run_where.simps run_set.simps)

lemma reap_tx_Inr:
  "reap_expired_runs_tx lc now db d = Inr (c, d') \<longleftrightarrow>
    (let p = run_where (lc_max_attempts lc) db (RunReap now);
         d1 = d\<lparr>edb_runs := sql_update p (run_set (RunReap now)) (edb_runs d)\<rparr> in
     satisfies (run_cs d) (edb_runs d1) \<and> c = rowcount p (edb_runs d) \<and> d' = (if 0 < c then d1 else d))"
  by (auto simp: reap_expired_runs_tx_def fail_exhausted_expired_runs_def and_then_Inr_iff stmt_iffs Let_def)

lemma embedding_exec_steps: "run_steps (lc_max_attempts (sv_runs sv)) db d (embedding_exec sv db op d)"
proof (cases op)
  case RegisterModel
  then show ?thesis
    by (auto simp: register_model_def add_model_def and_then_Inr_iff intro!: db_after_steps intro: run_steps_same split: option.splits)
next
  case CreateEmbeddingRun
  then show ?thesis
    by (auto simp: create_embedding_run_Inr Let_def intro!: db_after_steps) (rule run_steps_append, simp)
next
  case ClaimRun
  then show ?thesis by (auto simp: claim_run_tx_Inr Let_def intro!: db_after_steps run_update_steps
        simp del: run_where.simps)
next
  case ReapRuns
  then show ?thesis by (auto simp: reap_tx_Inr Let_def intro!: db_after_steps run_update_steps
        simp del: run_where.simps)
next
  case (ScheduleRunRetry rid n code msg now)
  have "run_steps m db d d1" if "update_run 0 rid e db d = Inr (c, d1)"
    "e = RunFail n now MAX_ATTEMPTS_EXCEEDED msg None \<or> e = RunRelease n (Some code) msg" for m c d1 e
    using that by (auto elim!: update_run_steps)
  moreover from this have "run_steps m db d (dispatch_best_effort ds rid d1)"
    if "update_run 0 rid (RunRelease n (Some code) msg) db d = Inr (c, d1)" for m c d1 ds
    using that by (simp add: run_steps_def)
  ultimately show ?thesis
    by (auto simp: ScheduleRunRetry schedule_run_retry_tx_def run_statements and_then_Inr_iff commit_run_Inr
        intro!: db_after_steps split: if_splits)
next
  case (PersistVectors rid n k ids vectors meta now)
  have "run_steps m db d d'"
    if "persist_vectors_and_mark_completed rid n i mo k ids vectors meta now db d = Inr (b, d')" for m i mo b d'
    using that
  proof (rule persist_Inr)
    fix d1 assume "replace_for_model mo rid k ids vectors db d = Inr d1"
      and b: "b \<longrightarrow> update_run 0 rid (RunComplete n now meta) db d1 = Inr (1, d')" "\<not> b \<longrightarrow> d' = d"
    then have "edb_runs d1 = edb_runs d" using replace_for_model_runs by blast
    with b update_run_steps [of 0 rid "RunComplete n now meta" db d1 1 d' m] show "run_steps m db d d'"
      by (cases b) (auto intro: run_steps_cong run_steps_same)
  qed
  then show ?thesis
    by (auto simp: PersistVectors intro!: db_after_steps intro: run_steps_same split: option.splits)
next
  case DispatchRun
  then show ?thesis by (simp add: run_steps_same)
next
  case IngestionStep
  then show ?thesis by (simp add: run_steps_same Let_def)
qed (auto simp: heartbeat_run_tx_def mark_run_failed_tx_def run_statements
    intro!: commit_run_steps elim!: update_run_steps)

section \<open>The invariant of the vectors\<close>

definition vector_stored :: "embedding_db \<Rightarrow> uuid \<Rightarrow> uuid \<Rightarrow> bool" where
  "vector_stored d chunk_id model_id \<longleftrightarrow>
    list_ex (\<lambda>e. ce_chunk_id e = chunk_id \<and> ce_model_id e = model_id) (edb_embeddings d)"

definition item_completed :: "uuid \<Rightarrow> ingestion_db \<Rightarrow> bool" where
  "item_completed i d \<longleftrightarrow> map_option it_status (lookup it_id i (idb_items d)) = Some COMPLETED"

text \<open>Runs are of completed items, and a completed run has a vector for every chunk of its item.\<close>

definition run_complete :: "embedding_db \<Rightarrow> embedding_run \<Rightarrow> bool" where
  "run_complete d r \<longleftrightarrow> item_completed (ru_item_id r) (edb_ingestion d) \<and>
    (ru_status r = COMPLETED \<longrightarrow>
      list_all (\<lambda>c. vector_stored d c (ru_model_id r)) (list_chunk_ids (ru_item_id r) (edb_ingestion d)))"

definition vectors_ok :: "embedding_db \<Rightarrow> bool" where
  "vectors_ok d \<longleftrightarrow> embedding_ok d \<and> list_all (run_complete d) (edb_runs d)"

lemma is_item_embeddable_True:
  "ingestion_ok d \<Longrightarrow> is_item_embeddable i d = Inr b \<longleftrightarrow> b = item_completed i d"
  by (auto simp: is_item_embeddable_def find_item_def one_or_none_pk ingestion_ok_items item_completed_def)

lemma list_chunk_ids_distinct: "ingestion_ok d \<Longrightarrow> distinct (list_chunk_ids i d)"
proof -
  assume "ingestion_ok d"
  then have "distinct (map ck_id (idb_chunks d))" by (simp add: ingestion_ok_def satisfies_chunks)
  then have "distinct (map ck_id (sql_select (\<lambda>r. ck_item_id r = i) (idb_chunks d)))"
    by (simp add: sql_select_def distinct_map_filter)
  then show ?thesis
    by (auto simp: list_chunk_ids_def item_chunk_rows_def distinct_map)
qed

lemma list_chunk_ids_set: "c \<in> set (list_chunk_ids i d) \<longleftrightarrow> (\<exists>r \<in> set (idb_chunks d). ck_item_id r = i \<and> ck_id r = c)"
  by (auto simp: list_chunk_ids_def item_chunk_rows_def)

subsection \<open>Ingestion underneath\<close>

lemma principals_kept: "idb_principal_ids (ingestion_exec lc db op d) = idb_principal_ids d"
proof -
  have after: "idb_principal_ids (db_after d t) = idb_principal_ids d"
    if "\<And>x d'. t = Inr (x, d') \<Longrightarrow> idb_principal_ids d' = idb_principal_ids d" for t :: "'e + 'a \<times> ingestion_db"
    using that by (cases t) auto
  have commit: "idb_principal_ids (db_after d (commit_if_one d t)) = idb_principal_ids d"
    if "\<And>c d'. t = Inr (c, d') \<Longrightarrow> idb_principal_ids d' = idb_principal_ids d" for t :: "'e + nat \<times> ingestion_db"
    using that by (cases t) (auto simp: commit_if_one_def split: prod.splits)
  show ?thesis
    by (cases op)
      (auto simp: create_run_tx_def add_run_def add_item_tx_def add_item_def claim_tx_def claim_item_def
        heartbeat_tx_def mark_failed_tx_def mark_completed_tx_def schedule_retry_tx_def on_outbox_def
        replace_chunks_and_mark_completed_tx_def replace_for_item_def reap_expired_items_tx_def
        fail_exhausted_expired_items_def item_statements update_item_def and_then_Inr_iff map_error_Inr_iff
        commit_if_one_def Let_def intro!: after split: if_splits)
qed

lemma items_kept: "set (map it_id (idb_items d)) \<subseteq> set (map it_id (idb_items (ingestion_exec lc db op d)))"
proof
  fix k assume "k \<in> set (map it_id (idb_items d))"
  then obtain r where "lookup it_id k (idb_items d) = Some r"
    by (metis lookup_None_iff not_Some_eq set_map)
  then obtain r' where "lookup it_id k (idb_items (ingestion_exec lc db op d)) = Some r'"
    using ingestion_exec_path [of lc d db op] by (auto simp: keeps_path_def)
  then show "k \<in> set (map it_id (idb_items (ingestion_exec lc db op d)))"
    by (auto dest: lookup_SomeD)
qed

lemma completed_item_kept:
  assumes "item_completed i d"
  shows "item_completed i (ingestion_exec lc db op d)"
proof -
  from assms obtain r where r: "lookup it_id i (idb_items d) = Some r" "it_status r = COMPLETED"
    by (auto simp: item_completed_def)
  with ingestion_exec_path [of lc d db op] obtain r' xs where r': "lookup it_id i (idb_items (ingestion_exec lc db op d)) = Some r'"
    "r' = run_events item_exec (lc_max_attempts lc) xs r"
    unfolding keeps_path_def item_path_def by blast
  with r items.terminal_stable [of r] have "r' = r" by (simp add: terminal_def item_view_def)
  with r r' show ?thesis by (simp add: item_completed_def)
qed

lemma completed_item_chunks:
  assumes "ingestion_ok d" and "item_completed i d"
  shows "list_chunk_ids i (ingestion_exec lc db op d) = list_chunk_ids i d"
    and "list_chunks i (ingestion_exec lc db op d) = list_chunks i d"
    and "\<And>c. c \<in> set (idb_chunks d) \<Longrightarrow> ck_item_id c = i \<Longrightarrow> c \<in> set (idb_chunks (ingestion_exec lc db op d))"
proof -
  have rows: "item_chunk_rows i (ingestion_exec lc db op d) = item_chunk_rows i d"
    using assms exec_keeps_completed_chunks [OF assms(1)] by (auto simp: item_completed_def)
  then show "list_chunk_ids i (ingestion_exec lc db op d) = list_chunk_ids i d"
    and "list_chunks i (ingestion_exec lc db op d) = list_chunks i d"
    by (simp_all add: list_chunk_ids_def list_chunks_def)
  fix c assume "c \<in> set (idb_chunks d)" "ck_item_id c = i"
  then have "c \<in> set (item_chunk_rows i d)" by (simp add: item_chunk_rows_def)
  then have "c \<in> set (item_chunk_rows i (ingestion_exec lc db op d))" by (simp only: rows)
  then show "c \<in> set (idb_chunks (ingestion_exec lc db op d))" by (simp add: item_chunk_rows_def)
qed

subsection \<open>Preservation\<close>

lemma replace_for_model_stores:
  assumes rep: "replace_for_model m rid k ids vs db d = Inr d1" and count: "count_for_model m ids d1 = length ids"
    and "distinct ids" and pk: "distinct (map (\<lambda>e. (ce_chunk_id e, ce_model_id e)) (edb_embeddings d1))"
  shows "c \<in> set ids \<Longrightarrow> vector_stored d1 c m"
    and "vector_stored d c m' \<Longrightarrow> \<not> (m' = m \<and> c \<in> set ids) \<Longrightarrow> vector_stored d1 c m'"
proof -
  let ?rows = "filter (\<lambda>e. ce_model_id e = m \<and> ce_chunk_id e \<in> set ids) (edb_embeddings d1)"
  assume c: "c \<in> set ids"
  then have "length ?rows = length ids" using count by (auto simp: count_for_model_def rowcount_def split: if_splits)
  moreover have "distinct (map ce_chunk_id ?rows)"
  proof -
    have "distinct (map (\<lambda>e. (ce_chunk_id e, ce_model_id e)) ?rows)" using pk by (rule distinct_map_filter)
    moreover have "map (\<lambda>e. (ce_chunk_id e, ce_model_id e)) ?rows = map (\<lambda>x. (x, m)) (map ce_chunk_id ?rows)"
      by (auto intro!: map_cong)
    ultimately show ?thesis by (metis distinct_map)
  qed
  ultimately have "card (set (map ce_chunk_id ?rows)) = card (set ids)"
    using \<open>distinct ids\<close> by (metis distinct_card length_map)
  moreover have "set (map ce_chunk_id ?rows) \<subseteq> set ids" by auto
  ultimately have "set (map ce_chunk_id ?rows) = set ids" by (meson List.finite_set card_subset_eq)
  with c have "c \<in> ce_chunk_id ` set ?rows" by (simp only: set_map)
  then show "vector_stored d1 c m" by (auto simp: vector_stored_def list_ex_iff)
next
  assume "vector_stored d c m'" "\<not> (m' = m \<and> c \<in> set ids)"
  with rep show "vector_stored d1 c m'"
    by (auto simp: replace_for_model_def Let_def and_then_Inr_iff stmt_iffs vector_stored_def list_ex_iff sql_delete_def
        split: if_splits)
qed

lemma satisfies_embeddings_sub:
  "satisfies (embedding_cs d) t \<Longrightarrow> satisfies (embedding_cs d) (sql_delete p t)"
  by (auto simp: satisfies_embeddings sql_delete_def list_all_iff distinct_map_filter)

lemma replace_for_model_ok:
  "replace_for_model m rid k ids vs db d = Inr d1 \<Longrightarrow> embedding_ok d \<Longrightarrow> embedding_ok d1"
  by (auto simp: replace_for_model_def Let_def and_then_Inr_iff stmt_iffs embedding_ok_def satisfies_embeddings_sub
      split: if_splits)

text \<open>A run statement completes no run but the one that is owned.\<close>

lemma run_set_status: "ru_status (run_set e r) = COMPLETED \<Longrightarrow> run_where m db e r \<Longrightarrow> \<exists>n now meta. e = RunComplete n now meta"
  by (cases e) (auto simp: run_owned_by_def)

lemma vectors_ok_update:
  assumes "vectors_ok d" and "satisfies (run_cs d) (sql_update p (run_set e) (edb_runs d))"
    and "\<And>r. p r \<Longrightarrow> run_where m db e r"
    and "\<And>r. r \<in> set (edb_runs d) \<Longrightarrow> p r \<Longrightarrow> (\<exists>n now meta. e = RunComplete n now meta) \<Longrightarrow>
      list_all (\<lambda>c. vector_stored d c (ru_model_id r)) (list_chunk_ids (ru_item_id r) (edb_ingestion d))"
  shows "vectors_ok (d\<lparr>edb_runs := sql_update p (run_set e) (edb_runs d)\<rparr>)"
proof -
  have "run_complete d (if p r then run_set e r else r)" if "r \<in> set (edb_runs d)" for r
    using that assms(1,4) run_set_status [of e r m db] assms(3) [of r]
    by (auto simp: vectors_ok_def list_all_iff run_complete_def)
  then have "list_all (run_complete d) (sql_update p (run_set e) (edb_runs d))"
    unfolding list_all_iff set_sql_update by blast
  moreover have "run_complete (d\<lparr>edb_runs := t\<rparr>) = run_complete d" for t
    by (simp add: fun_eq_iff run_complete_def vector_stored_def)
  ultimately show ?thesis
    using assms(1,2) by (simp add: vectors_ok_def run_update_ok)
qed

lemma vectors_ok_update_run:
  assumes "vectors_ok d" and "update_run 0 i e db d = Inr (c, d')" and "\<And>n now meta. e \<noteq> RunComplete n now meta"
  shows "vectors_ok d'"
proof -
  from assms(2) have d': "d' = d\<lparr>edb_runs := sql_update (\<lambda>r. ru_id r = i \<and> run_where 0 db e r) (run_set e) (edb_runs d)\<rparr>"
    and sat: "satisfies (run_cs d) (sql_update (\<lambda>r. ru_id r = i \<and> run_where 0 db e r) (run_set e) (edb_runs d))"
    by (auto simp: update_run_Inr)
  show ?thesis unfolding d' by (rule vectors_ok_update [OF assms(1) sat, of 0 db]) (use assms(3) in auto)
qed

lemma vectors_ok_cong:
  "vectors_ok d \<Longrightarrow> edb_runs d' = edb_runs d \<Longrightarrow> edb_embeddings d' = edb_embeddings d \<Longrightarrow>
    edb_ingestion d' = edb_ingestion d \<Longrightarrow> embedding_ok d' \<Longrightarrow> vectors_ok d'"
  by (simp add: vectors_ok_def list_all_iff run_complete_def vector_stored_def)

lemma vectors_ok_dispatch [simp]: "vectors_ok (dispatch_best_effort ds rid d) = vectors_ok d"
  by (auto simp: vectors_ok_def list_all_iff run_complete_def vector_stored_def)

lemma vectors_ok_persist:
  assumes ok: "vectors_ok d" and row: "lookup ru_id rid (edb_runs d) = Some r"
    and tx: "persist_vectors_and_mark_completed rid n (ru_item_id r) (ru_model_id r) k ids vectors meta now db d = Inr (b, d')"
  shows "vectors_ok d'"
  using tx
proof (rule persist_Inr)
  let ?i = "ru_item_id r" and ?m = "ru_model_id r"
  fix d1 assume ids: "list_chunk_ids ?i (edb_ingestion d) = ids"
    and rep: "replace_for_model ?m rid k ids vectors db d = Inr d1" and count: "count_for_model ?m ids d1 = length ids"
    and b: "b \<longrightarrow> update_run 0 rid (RunComplete n now meta) db d1 = Inr (1, d')" "\<not> b \<longrightarrow> d' = d"
  from ok have eok: "embedding_ok d" and complete: "\<And>r. r \<in> set (edb_runs d) \<Longrightarrow> run_complete d r"
    by (auto simp: vectors_ok_def list_all_iff)
  have same: "edb_runs d1 = edb_runs d" "edb_ingestion d1 = edb_ingestion d" using replace_for_model_runs [OF rep] by auto
  have eok1: "embedding_ok d1" using rep eok by (rule replace_for_model_ok)
  have "distinct ids" using list_chunk_ids_distinct ids eok by (auto simp: embedding_ok_def)
  moreover have "distinct (map (\<lambda>e. (ce_chunk_id e, ce_model_id e)) (edb_embeddings d1))"
    using eok1 by (simp add: embedding_ok_def satisfies_embeddings)
  ultimately have stored: "c \<in> set ids \<Longrightarrow> vector_stored d1 c ?m"
    and kept: "vector_stored d c m' \<Longrightarrow> vector_stored d1 c m'" for c m'
    using replace_for_model_stores [OF rep count] by blast+
  have "run_complete d1 q" if "q \<in> set (edb_runs d1)" for q
    using complete [of q] that kept by (auto simp: same run_complete_def list_all_iff)
  with eok1 have ok1: "vectors_ok d1" by (simp add: vectors_ok_def list_all_iff)
  show "vectors_ok d'"
  proof (cases b)
    case True
    let ?e = "RunComplete n now meta" and ?p = "\<lambda>r. ru_id r = rid \<and> run_where 0 db (RunComplete n now meta) r"
    from b(1) True have d': "d' = d1\<lparr>edb_runs := sql_update ?p (run_set ?e) (edb_runs d1)\<rparr>"
      and sat: "satisfies (run_cs d1) (sql_update ?p (run_set ?e) (edb_runs d1))"
      by (auto simp: update_run_Inr)
    show ?thesis
      unfolding d'
    proof (rule vectors_ok_update [OF ok1 sat, of 0 db])
      fix q assume "q \<in> set (edb_runs d1)" "?p q"
      then have "q = r"
        using lookup_unique [OF embedding_ok_runs(2) [OF eok], of q rid] row by (simp add: same)
      then show "list_all (\<lambda>c. vector_stored d1 c (ru_model_id q)) (list_chunk_ids (ru_item_id q) (edb_ingestion d1))"
        using stored by (simp add: same ids list_all_iff)
    qed simp
  qed (use b(2) ok in simp)
qed

lemma cascade_set:
  "e \<in> set (cascade before after es) \<Longrightarrow> e \<in> set es \<and> ce_chunk_id e \<in> ck_id ` set (idb_chunks after)"
  by (auto simp: cascade_def sql_delete_def list_ex_iff) (metis imageI)

lemma cascade_distinct: "distinct (map f es) \<Longrightarrow> distinct (map f (cascade before after es))"
  by (simp add: cascade_def sql_delete_def distinct_map_filter)

lemma vectors_ok_ingestion:
  assumes ok: "vectors_ok d"
  shows "vectors_ok (embedding_exec sv db (IngestionStep op) d)"
proof -
  let ?i = "edb_ingestion d" and ?i' = "ingestion_exec (sv_items sv) db op (edb_ingestion d)"
  let ?d' = "embedding_exec sv db (IngestionStep op) d"
  from ok have eok: "embedding_ok d" and complete: "\<And>r. r \<in> set (edb_runs d) \<Longrightarrow> run_complete d r"
    by (auto simp: vectors_ok_def list_all_iff)
  have iok: "ingestion_ok ?i" using eok by (simp add: embedding_ok_def)
  have "satisfies (run_cs ?d') (edb_runs ?d')"
    using run_cs_mono [OF embedding_ok_runs(1) [OF eok], of ?d'] items_kept [of ?i "sv_items sv" db op]
    by (simp add: Let_def principals_kept)
  moreover have "satisfies (embedding_cs ?d') (edb_embeddings ?d')"
    using eok cascade_set [of _ ?i ?i' "edb_embeddings d"]
    by (auto simp: embedding_ok_def satisfies_embeddings Let_def list_all_iff cascade_distinct)
  ultimately have "embedding_ok ?d'"
    using eok ingestion_exec_ok [OF iok] by (simp add: embedding_ok_def Let_def)
  moreover have "run_complete ?d' r" if r: "r \<in> set (edb_runs d)" for r
  proof -
    have ic: "item_completed (ru_item_id r) ?i" using complete [OF r] by (simp add: run_complete_def)
    note chunks = completed_item_chunks [OF iok ic, where lc = "sv_items sv" and db = db and op = op]
    have "vector_stored ?d' c m" if "vector_stored d c m" "c \<in> set (list_chunk_ids (ru_item_id r) ?i)" for c m
      using that chunks(3)
      by (fastforce simp: vector_stored_def list_ex_iff Let_def cascade_def sql_delete_def list_chunk_ids_set)
    with complete [OF r] completed_item_kept [OF ic] chunks(1) show ?thesis
      by (auto simp: run_complete_def list_all_iff Let_def)
  qed
  ultimately show ?thesis by (simp add: vectors_ok_def list_all_iff Let_def)
qed

lemma embedding_cs_mono:
  assumes "satisfies (embedding_cs d) t" and "edb_ingestion d' = edb_ingestion d"
    and "set (edb_models d) \<subseteq> set (edb_models d')" and "set (edb_runs d) \<subseteq> set (edb_runs d')"
  shows "satisfies (embedding_cs d') t"
  using assms(1) image_mono [OF assms(3), of em_id] image_mono [OF assms(4), of ru_id]
  by (auto simp: satisfies_embeddings list_all_iff assms(2))

lemma vectors_ok_create:
  assumes ok: "vectors_ok d" and "create_embedding_run ds ch rid i m conf by db d = Inr (x, d')"
  shows "vectors_ok d'"
proof -
  let ?r = "new_embedding_run rid i m conf (ch conf) by db"
  let ?d = "d\<lparr>edb_runs := edb_runs d @ [?r]\<rparr>"
  from ok have eok: "embedding_ok d" and complete: "list_all (run_complete d) (edb_runs d)" by (simp_all add: vectors_ok_def)
  from assms(2) have emb: "is_item_embeddable i (edb_ingestion d) = Inr True"
    and sat: "satisfies (run_cs d) (edb_runs d @ [?r])" and d': "d' = dispatch_best_effort ds rid ?d"
    by (auto simp: create_embedding_run_Inr Let_def)
  from emb have "item_completed i (edb_ingestion d)"
    using is_item_embeddable_True [of "edb_ingestion d" i True] eok by (simp add: embedding_ok_def)
  then have "run_complete d ?r" by (simp add: run_complete_def new_embedding_run_def)
  moreover have "run_complete ?d = run_complete d" by (simp add: fun_eq_iff run_complete_def vector_stored_def)
  moreover have "embedding_ok ?d"
    using eok sat embedding_cs_mono [of d "edb_embeddings d" ?d] by (auto simp: embedding_ok_def)
  ultimately have "vectors_ok ?d" using complete by (simp add: vectors_ok_def)
  then show ?thesis by (simp add: d')
qed

lemma vectors_ok_register:
  assumes ok: "vectors_ok d" and "register_model ch mid i db d = Inr (x, d')"
  shows "vectors_ok d'"
proof (cases "d' = d")
  case False
  with assms(2) obtain m where d': "d' = d\<lparr>edb_models := edb_models d @ [m]\<rparr>"
    and sat: "satisfies model_constraints (edb_models d @ [m])"
    by (auto simp: register_model_def add_model_def and_then_Inr_iff stmt_iffs split: option.splits)
  from ok have eok: "embedding_ok d" by (simp add: vectors_ok_def)
  have e: "embedding_ok d'"
    using eok sat run_cs_mono [of d "edb_runs d" d'] embedding_cs_mono [of d "edb_embeddings d" d']
    by (auto simp: embedding_ok_def d')
  show ?thesis by (rule vectors_ok_cong [OF ok _ _ _ e]) (simp_all add: d')
qed (use ok in simp)

lemma vectors_ok_claim:
  assumes "vectors_ok d" and "claim_run_tx lc rid now db d = Inr (c, d')"
  shows "vectors_ok d'"
proof (cases "d' = d")
  case False
  let ?e = "RunClaim now (now + lc_lease_duration lc)"
  let ?p = "\<lambda>r. ru_id r = rid \<and> run_where (lc_max_attempts lc) db ?e r"
  from assms(2) False have d': "d' = d\<lparr>edb_runs := sql_update ?p (run_set ?e) (edb_runs d)\<rparr>"
    and sat: "satisfies (run_cs d) (sql_update ?p (run_set ?e) (edb_runs d))"
    by (auto simp: claim_run_tx_Inr Let_def simp del: run_where.simps split: if_splits)
  show ?thesis unfolding d' by (rule vectors_ok_update [OF assms(1) sat, of "lc_max_attempts lc" db]) auto
qed (use assms in simp)

lemma vectors_ok_reap:
  assumes "vectors_ok d" and "reap_expired_runs_tx lc now db d = Inr (c, d')"
  shows "vectors_ok d'"
proof (cases "d' = d")
  case False
  let ?e = "RunReap now" and ?p = "run_where (lc_max_attempts lc) db (RunReap now)"
  from assms(2) False have d': "d' = d\<lparr>edb_runs := sql_update ?p (run_set ?e) (edb_runs d)\<rparr>"
    and sat: "satisfies (run_cs d) (sql_update ?p (run_set ?e) (edb_runs d))"
    by (auto simp: reap_tx_Inr Let_def simp del: run_where.simps split: if_splits)
  show ?thesis unfolding d' by (rule vectors_ok_update [OF assms(1) sat, of "lc_max_attempts lc" db]) auto
qed (use assms in simp)

lemma embedding_exec_ok:
  assumes ok: "vectors_ok d"
  shows "vectors_ok (embedding_exec sv db op d)"
proof -
  have after: "vectors_ok (db_after d t)" if "\<And>x d'. t = Inr (x, d') \<Longrightarrow> vectors_ok d'" for t :: "'e + 'a \<times> embedding_db"
    using that ok by (rule db_after_P [where P = vectors_ok, rotated])
  have commit: "vectors_ok (db_after d (commit_run d t))" if "\<And>c d'. t = Inr (c, d') \<Longrightarrow> vectors_ok d'" for t :: "'e + nat \<times> embedding_db"
    using that ok by (rule commit_run_P [where P = vectors_ok, rotated])
  note upd = vectors_ok_update_run [OF ok]
  show ?thesis
  proof (cases op)
    case (ScheduleRunRetry rid n code msg now)
    then show ?thesis
      using ok by (auto simp: schedule_run_retry_tx_def run_statements and_then_Inr_iff commit_run_Inr
          intro!: after elim!: upd split: if_splits)
  next
    case PersistVectors
    then show ?thesis using ok vectors_ok_persist [OF ok] by (auto intro!: after split: option.splits)
  next
    case (IngestionStep iop)
    show ?thesis unfolding IngestionStep by (rule vectors_ok_ingestion [OF ok])
  qed (use ok in \<open>auto simp: heartbeat_run_tx_def mark_run_failed_tx_def run_statements intro!: after commit
      elim!: upd intro: vectors_ok_register vectors_ok_create vectors_ok_claim vectors_ok_reap\<close>)
qed

lemma run_embedding_ok: "vectors_ok d \<Longrightarrow> vectors_ok (run_embedding sv ops d)"
  unfolding run_embedding_def by (induction ops arbitrary: d) (auto simp: embedding_exec_ok)

lemma embedding_exec_chunks:
  assumes "vectors_ok d" and "item_completed i (edb_ingestion d)"
  shows "list_chunks i (edb_ingestion (embedding_exec sv db op d)) = list_chunks i (edb_ingestion d) \<and>
    item_completed i (edb_ingestion (embedding_exec sv db op d))"
proof (cases op)
  case IngestionStep
  with assms show ?thesis
    by (simp add: vectors_ok_def embedding_ok_def Let_def completed_item_chunks(2) completed_item_kept)
next
  case (PersistVectors rid n k ids vectors meta now)
  have "edb_ingestion d' = edb_ingestion d"
    if "persist_vectors_and_mark_completed rid n j mo k ids vectors meta now db d = Inr (b, d')" for j mo b d'
    using that
  proof (rule persist_Inr)
    fix d1 assume "replace_for_model mo rid k ids vectors db d = Inr d1"
      and "b \<longrightarrow> update_run 0 rid (RunComplete n now meta) db d1 = Inr (1, d')" "\<not> b \<longrightarrow> d' = d"
    then show ?thesis using replace_for_model_runs by (cases b) (auto simp: update_run_Inr)
  qed
  then have "edb_ingestion (embedding_exec sv db op d) = edb_ingestion d"
    by (auto simp: PersistVectors split: option.split intro!: db_after_P [where P = "\<lambda>d'. edb_ingestion d' = edb_ingestion d"])
  with assms(2) show ?thesis by simp
qed (use assms(2) in \<open>auto simp: register_model_def add_model_def create_embedding_run_Inr Let_def claim_run_tx_Inr reap_tx_Inr
    heartbeat_run_tx_def mark_run_failed_tx_def schedule_run_retry_tx_def run_statements update_run_Inr commit_run_Inr
    and_then_Inr_iff intro!: db_after_P [where P = "\<lambda>d'. list_chunks i (edb_ingestion d') = list_chunks i (edb_ingestion d) \<and>
    item_completed i (edb_ingestion d')"] split: if_splits option.splits\<close>)

lemma run_path:
  assumes "lookup ru_id k (edb_runs d) = Some r"
  shows "\<exists>xs. lookup ru_id k (edb_runs (run_embedding sv ops d)) = Some (run_events run_exec (lc_max_attempts (sv_runs sv)) xs r) \<and>
    subseq (map fst xs) (map fst ops)"
  using assms
proof (induction ops arbitrary: d r)
  case Nil
  then show ?case by (intro exI [of _ "[]"]) simp
next
  case (Cons x ops)
  obtain db op where x: "x = (db, op)" by fastforce
  let ?m = "lc_max_attempts (sv_runs sv)" and ?d = "embedding_exec sv db op d"
  from embedding_exec_steps [of sv db d op] Cons.prems obtain r' where r': "lookup ru_id k (edb_runs ?d) = Some r'"
    and step: "r' = r \<or> (\<exists>e. run_exec ?m db e r = Some r')"
    unfolding run_steps_def by blast
  from Cons.IH [OF r'] obtain xs where xs: "lookup ru_id k (edb_runs (run_embedding sv ops ?d)) = Some (run_events run_exec ?m xs r')"
    "subseq (map fst xs) (map fst ops)" by blast
  from step show ?case
  proof
    assume "r' = r"
    with xs show ?thesis by (auto simp: x)
  next
    assume "\<exists>e. run_exec ?m db e r = Some r'"
    then obtain e where "run_exec ?m db e r = Some r'" ..
    with xs show ?thesis by (intro exI [of _ "(db, e) # xs"]) (simp add: x)
  qed
qed

lemma run_events_keys:
  "ru_item_id (run_events run_exec m xs r) = ru_item_id r \<and> ru_model_id (run_events run_exec m xs r) = ru_model_id r \<and>
    ru_configuration (run_events run_exec m xs r) = ru_configuration r"
  by (induction xs arbitrary: r) (auto simp: run_exec_def)

lemma run_embedding_chunks:
  assumes "vectors_ok d" and "item_completed i (edb_ingestion d)"
  shows "list_chunks i (edb_ingestion (run_embedding sv ops d)) = list_chunks i (edb_ingestion d)"
  using assms
proof (induction ops arbitrary: d)
  case (Cons x ops)
  obtain db op where "x = (db, op)" by fastforce
  with Cons embedding_exec_chunks [OF Cons.prems, of sv db op] embedding_exec_ok [OF Cons.prems(1), of sv db op]
  show ?case by simp
qed simp

lemma stored_once:
  assumes "embedding_ok d" and "vector_stored d c m"
  shows "\<exists>e. filter (\<lambda>e. ce_chunk_id e = c \<and> ce_model_id e = m) (edb_embeddings d) = [e] \<and>
    int (length (ce_embedding e)) = ce_dimension e"
proof -
  let ?key = "\<lambda>e. (ce_chunk_id e, ce_model_id e)"
  have dist: "distinct (map ?key (edb_embeddings d))" using assms(1) by (simp add: embedding_ok_def satisfies_embeddings)
  from assms(2) obtain e where e: "e \<in> set (edb_embeddings d)" "?key e = (c, m)"
    by (auto simp: vector_stored_def list_ex_iff)
  have "filter (\<lambda>e. ?key e = (c, m)) (edb_embeddings d) = [e]"
    using filter_key [OF dist, of "(c, m)" "\<lambda>_. True"] lookup_unique [OF dist e] by simp
  moreover have "int (length (ce_embedding e)) = ce_dimension e"
    using assms(1) e(1) by (auto simp: embedding_ok_def satisfies_embeddings list_all_iff)
  ultimately show ?thesis by simp
qed

section \<open>Properties\<close>

definition embedded_chunk :: chunk_row where
  "embedded_chunk = \<lparr>ck_id = 90, ck_item_id = 1, ck_draft = sample_draft, ck_created_at = 5\<rparr>"

definition running_run :: embedding_run where
  "running_run = (new_embedding_run 80 1 70 (JObj [(lit ''embedding'', run_config_as_mapping default_run_config)]) ''h'' None 5)
    \<lparr>ru_status := RUNNING, ru_attempt_count := 1, ru_claimed_at := Some 10, ru_lease_expires_at := Some 40,
     ru_started_at := Some 10\<rparr>"

definition sample_embedding_db :: "embedding_run \<Rightarrow> embedding_db" where
  "sample_embedding_db r = \<lparr>edb_ingestion = (sample_db completed_item)\<lparr>idb_chunks := [embedded_chunk]\<rparr>,
    edb_models = [sample_model], edb_runs = [r], edb_embeddings = [], edb_sent = []\<rparr>"

definition sample_services :: services where
  "sample_services = \<lparr>sv_dispatch = (\<lambda>_. True), sv_conf_hash = (\<lambda>_. ''h''), sv_runs = sample_lifecycle,
    sv_items = sample_lifecycle\<rparr>"

lemma running_run_simps [simp]:
  "ru_id running_run = 80" "ru_item_id running_run = 1" "ru_model_id running_run = 70" "ru_status running_run = RUNNING"
  "ru_attempt_count running_run = 1" "ru_lease_expires_at running_run = Some 40" "ru_created_by running_run = None"
  "ru_claimed_at running_run = Some 10" "ru_started_at running_run = Some 10" "ru_completed_at running_run = None"
  by (simp_all add: running_run_def new_embedding_run_def)

lemma completed_item_row_ok: "item_row_ok completed_item" "it_status completed_item = COMPLETED" "it_id completed_item = 1"
  "it_run_id completed_item = 50" "it_artifact_id completed_item = 60"
  by (simp_all add: completed_item_def running_item_def new_item_def item_row_ok_def item_checks)

lemma sample_ingestion_ok: "ingestion_ok ((sample_db completed_item)\<lparr>idb_chunks := [embedded_chunk]\<rparr>)"
proof -
  have "ingestion_ok (sample_db completed_item)" by (rule sample_db_ok) (simp_all add: completed_item_row_ok)
  then show ?thesis
    by (simp add: ingestion_ok_def satisfies_chunks item_cs_def)
      (simp add: embedded_chunk_def sample_draft_def content_non_empty_def pages_positive_def positive_page_def
        valid_page_range_def sample_db_def completed_item_row_ok)
qed

lemma sample_model_ok: "satisfies model_constraints [sample_model]"
proof -
  have "list_ex (\<lambda>c. c \<noteq> 32) (lit ''m'')" "list_ex (\<lambda>c. c \<noteq> 32) (lit ''1'')" by code_simp+
  then show ?thesis by (simp add: model_constraints_def sample_model_def MAX_VECTOR_DIMENSION_def)
qed

lemma sample_vectors_ok:
  assumes "run_row_ok r" and "ru_item_id r = 1" and "ru_model_id r = 70" and "ru_created_by r = None" and "ru_status r \<noteq> COMPLETED"
  shows "vectors_ok (sample_embedding_db r)"
proof -
  have "item_completed 1 (sample_db completed_item)"
    by (simp add: item_completed_def sample_db_def completed_item_row_ok)
  then show ?thesis
    using assms sample_ingestion_ok sample_model_ok
    by (simp add: vectors_ok_def embedding_ok_def satisfies_runs satisfies_embeddings run_complete_def sample_embedding_db_def)
      (simp add: sample_db_def completed_item_row_ok sample_model_def item_completed_def)
qed

text \<open>
  C28. Embedding runs refine the lease protocol. Whatever interleaving of the services'
  transactions runs (creation, claims, heartbeats, retries, failures, completions, reaping,
  dispatches, and every ingestion transaction underneath), the lease columns of a run change
  only by steps of the abstract machine \<open>lease_step\<close>, at most one for each transaction and at
  its database time. Its item, model and configuration never change, a completed or failed run
  never changes at all, and its attempts stay within the maximum.
\<close>

theorem embedding_runs_refine_lease_protocol:
  assumes "lookup ru_id k (edb_runs d) = Some r"
  shows "\<exists>r' xs. lookup ru_id k (edb_runs (run_embedding sv ops d)) = Some r' \<and>
    run_view r' = run_events lease_step (lc_max_attempts (sv_runs sv)) xs (run_view r) \<and>
    subseq (map fst xs) (map fst ops) \<and>
    ru_item_id r' = ru_item_id r \<and> ru_model_id r' = ru_model_id r \<and> ru_configuration r' = ru_configuration r \<and>
    (ru_status r \<in> {COMPLETED, FAILED} \<longrightarrow> r' = r) \<and>
    (ru_attempt_count r \<le> lc_max_attempts (sv_runs sv) \<longrightarrow> ru_attempt_count r' \<le> lc_max_attempts (sv_runs sv)) \<and>
    ru_attempt_count r \<le> ru_attempt_count r'"
proof -
  let ?m = "lc_max_attempts (sv_runs sv)"
  from run_path [OF assms] obtain xs where xs: "lookup ru_id k (edb_runs (run_embedding sv ops d)) = Some (run_events run_exec ?m xs r)"
    "subseq (map fst xs) (map fst ops)" by blast
  let ?r' = "run_events run_exec ?m xs r" and ?ys = "map (map_prod id run_lease_event) xs"
  have "map fst ?ys = map fst xs" by simp
  moreover have "ru_status r \<in> {COMPLETED, FAILED} \<longrightarrow> ?r' = r"
    using runs.terminal_stable [of r ?m xs] by (auto simp: terminal_def run_view_def)
  moreover have "ru_attempt_count r \<le> ?m \<longrightarrow> ru_attempt_count ?r' \<le> ?m" "ru_attempt_count r \<le> ru_attempt_count ?r'"
    using runs.attempts_bounded [of r ?m xs] runs.attempts_mono [of r ?m xs] by (simp_all add: run_view_def)
  ultimately show ?thesis
    using xs run_events_keys [of ?m xs r] runs.refines [of ?m xs r]
    by (intro exI [of _ ?r'] exI [of _ ?ys]) simp
qed

theorem embedding_runs_refine_lease_protocol_witness:
  "\<exists>r' xs. lookup ru_id 80 (edb_runs (run_embedding sample_services [(30, HeartbeatRun 80 1 30)] (sample_embedding_db running_run))) = Some r' \<and>
    run_view r' = run_events lease_step 3 xs (run_view running_run)"
proof -
  have "lookup ru_id 80 (edb_runs (sample_embedding_db running_run)) = Some running_run"
    by (simp add: sample_embedding_db_def)
  from embedding_runs_refine_lease_protocol [OF this, of sample_services "[(30, HeartbeatRun 80 1 30)]"] show ?thesis
    by (auto simp: sample_services_def sample_lifecycle_def)
qed

text \<open>
  C27. A completed run stays complete. In every database reached by the services, every chunk of
  the item of a completed run has exactly one vector of the run's model, of the dimension that
  is recorded with it, and the chunks that the item has are the same ever after.
\<close>

theorem completed_run_has_all_vectors:
  assumes "vectors_ok d" and "d' = run_embedding sv ops d"
    and "r \<in> set (edb_runs d')" and "ru_status r = COMPLETED"
  shows "(\<forall>c \<in> set (list_chunks (ru_item_id r) (edb_ingestion d')).
      \<exists>e. filter (\<lambda>e. ce_chunk_id e = ec_chunk_id c \<and> ce_model_id e = ru_model_id r) (edb_embeddings d') = [e] \<and>
        int (length (ce_embedding e)) = ce_dimension e) \<and>
    (\<forall>ops'. list_chunks (ru_item_id r) (edb_ingestion (run_embedding sv ops' d')) =
      list_chunks (ru_item_id r) (edb_ingestion d'))"
proof -
  have ok: "vectors_ok d'" using assms(1,2) run_embedding_ok by blast
  with assms(3) have complete: "run_complete d' r" by (simp add: vectors_ok_def list_all_iff)
  have "vector_stored d' (ec_chunk_id c) (ru_model_id r)" if "c \<in> set (list_chunks (ru_item_id r) (edb_ingestion d'))" for c
    using that complete assms(4)
    by (auto simp: run_complete_def list_all_iff list_chunks_def list_chunk_ids_def to_embeddable_chunk_def)
  with ok complete show ?thesis
    by (auto simp: vectors_ok_def run_complete_def stored_once run_embedding_chunks)
qed

theorem completed_run_has_all_vectors_witness:
  "\<exists>d' r e. d' = run_embedding sample_services
      [(20, PersistVectors 80 1 2 [90] [\<lparr>cv_chunk_id = 90, cv_values = [CFloat 1, CFloat 0]\<rparr>] (JObj []) 20)]
      (sample_embedding_db running_run) \<and> r \<in> set (edb_runs d') \<and> ru_status r = COMPLETED \<and>
    filter (\<lambda>e. ce_chunk_id e = 90 \<and> ce_model_id e = 70) (edb_embeddings d') = [e]"
proof -
  let ?v = "\<lparr>cv_chunk_id = 90, cv_values = [CFloat 1, CFloat 0]\<rparr>"
  let ?d = "sample_embedding_db running_run"
  let ?r = "run_set (RunComplete 1 20 (JObj [])) running_run"
  let ?ops = "[(20, PersistVectors 80 1 2 [90] [?v] (JObj []) 20)]"
  let ?d1 = "?d\<lparr>edb_embeddings := embedding_rows 70 80 2 [?v] 20\<rparr>"
  have row: "run_row_ok running_run" "run_row_ok ?r" by (simp_all add: run_row_ok_def run_checks)
  have ok: "vectors_ok ?d" by (rule sample_vectors_ok) (simp_all add: row)
  have ids: "list_chunk_ids 1 (edb_ingestion ?d) = [90]"
    by (simp add: sample_embedding_db_def list_chunk_ids_def item_chunk_rows_def sql_select_def embedded_chunk_def)
  have "satisfies (embedding_cs ?d) (embedding_rows 70 80 2 [?v] 20)"
    by (simp add: satisfies_embeddings embedding_rows_def sample_embedding_db_def sample_model_def MAX_VECTOR_DIMENSION_def
        embedded_chunk_def)
  then have rep: "replace_for_model 70 80 2 [90] [?v] 20 ?d = Inr ?d1"
    by (simp add: replace_for_model_def insert_stmt_def sql_write_ok)
      (simp add: sample_embedding_db_def sql_delete_def sql_write_ok)
  have count: "count_for_model 70 [90] ?d1 = 1" by (simp add: count_for_model_def rowcount_def embedding_rows_def)
  have "satisfies (run_cs ?d1) [?r]"
    using ok row(2) by (simp add: vectors_ok_def embedding_ok_def satisfies_runs sample_embedding_db_def in_flight_def)
  then have done1: "mark_run_completed 80 1 20 (JObj []) 20 ?d1 = Inr (1, ?d1\<lparr>edb_runs := [?r]\<rparr>)"
    by (simp add: mark_run_completed_def update_run_Inr sample_embedding_db_def sql_update_def rowcount_def run_owned_by_def)
  have "persist_vectors_and_mark_completed 80 1 1 70 2 [90] [?v] (JObj []) 20 20 ?d = Inr (True, ?d1\<lparr>edb_runs := [?r]\<rparr>)"
    by (simp add: persist_vectors_and_mark_completed_def ids [unfolded One_nat_def] rep count done1 [unfolded One_nat_def] commit_run_def)
  then have d': "run_embedding sample_services ?ops ?d = ?d1\<lparr>edb_runs := [?r]\<rparr>"
    by simp (simp add: sample_embedding_db_def)
  have mem: "?r \<in> set (edb_runs (?d1\<lparr>edb_runs := [?r]\<rparr>))" and st: "ru_status ?r = COMPLETED" by simp_all
  have c: "to_embeddable_chunk embedded_chunk \<in> set (list_chunks (ru_item_id ?r) (edb_ingestion (?d1\<lparr>edb_runs := [?r]\<rparr>)))"
    by (simp add: list_chunks_def sample_embedding_db_def item_chunk_rows_def sql_select_def embedded_chunk_def)
  from completed_run_has_all_vectors [OF ok d' [symmetric] mem st] c obtain e where
    "filter (\<lambda>e. ce_chunk_id e = ec_chunk_id (to_embeddable_chunk embedded_chunk) \<and> ce_model_id e = ru_model_id ?r)
      (edb_embeddings (?d1\<lparr>edb_runs := [?r]\<rparr>)) = [e]" by blast
  then have "filter (\<lambda>e. ce_chunk_id e = 90 \<and> ce_model_id e = 70) (edb_embeddings (?d1\<lparr>edb_runs := [?r]\<rparr>)) = [e]"
    by (simp add: to_embeddable_chunk_def embedded_chunk_def)
  from d' [symmetric] mem st this show ?thesis by (intro exI conjI)
qed






end
