(* ===== verification/Documents.thy ===== *)
theory Documents
  imports PyText "HOL-Library.Product_Lexorder"
begin

text \<open>
  Documents and their access control: the tables of \<open>modules/knowledge/models\<close> with their
  constraints (versions and artifacts included, since one unit of work spans them all), the
  statements of \<open>repositories/document.py\<close>, \<open>document_acl.py\<close> and \<open>document_access.py\<close>, and
  the services \<open>document_management.py\<close>, \<open>document_acl_management.py\<close> and
  \<open>document_authorization.py\<close>.

  A service operation is one transaction: it maps the database to the raised error or to its
  result and the committed database. An \<open>IntegrityError\<close> that the repository recognises by
  the constraint's name becomes the domain error; any other one is passed on (\<open>DbError\<close>).
\<close>

section \<open>Tables\<close>

datatype document_permission = READ | MANAGE
datatype version_status = DRAFT | PUBLISHED | WITHDRAWN | ARCHIVED
datatype artifact_status = AVAILABLE | MISSING | RETIRED | DELETED

record document =
  kd_id :: uuid
  kd_created_by :: "uuid option"
  kd_canonical_key :: pystr
  kd_title :: pystr
  kd_description :: "pystr option"
  kd_document_type :: "pystr option"
  kd_department :: "pystr option"
  kd_default_language_code :: "pystr option"
  kd_metadata :: json
  kd_created_at :: datetime
  kd_updated_at :: datetime
  kd_deleted_at :: "datetime option"

record acl_grant =
  ag_id :: uuid
  ag_document_id :: uuid
  ag_principal_id :: uuid
  ag_permission :: document_permission
  ag_granted_at :: datetime
  ag_granted_by :: "uuid option"
  ag_expires_at :: "datetime option"
  ag_revoked_at :: "datetime option"
  ag_revoked_by :: "uuid option"

record version_row =
  vr_id :: uuid
  vr_document_id :: uuid
  vr_label :: pystr
  vr_effective_from :: "datetime option"
  vr_effective_to :: "datetime option"
  vr_published_at :: "datetime option"
  vr_status :: version_status
  vr_created_by :: "uuid option"
  vr_metadata :: json
  vr_created_at :: datetime
  vr_updated_at :: datetime

record artifact_row =
  ar_id :: uuid
  ar_version_id :: uuid
  ar_key :: pystr
  ar_language_code :: pystr
  ar_source_name :: pystr
  ar_source_uri :: "pystr option"
  ar_source_updated_at :: "datetime option"
  ar_storage_provider :: pystr
  ar_storage_key :: pystr
  ar_mime_type :: pystr
  ar_file_hash :: string
  ar_file_size_bytes :: int
  ar_status :: artifact_status
  ar_created_by :: "uuid option"
  ar_metadata :: json
  ar_created_at :: datetime
  ar_updated_at :: datetime
  ar_retired_at :: "datetime option"
  ar_deleted_at :: "datetime option"

record knowledge_db =
  kdb_documents :: "document list"
  kdb_acl :: "acl_grant list"
  kdb_versions :: "version_row list"
  kdb_artifacts :: "artifact_row list"
  kdb_principal_ids :: "uuid list"

definition document_constraints :: "document constraint list" where
  "document_constraints =
    [unique_index ''uq_documents_canonical_key'' (\<lambda>_. True) kd_canonical_key,
     unique_index ''pk_documents'' (\<lambda>_. True) kd_id]"

definition expires_after_grant :: "acl_grant \<Rightarrow> bool" where
  "expires_after_grant r \<longleftrightarrow> (case ag_expires_at r of None \<Rightarrow> True | Some e \<Rightarrow> ag_granted_at r < e)"

definition revoked_not_before_grant :: "acl_grant \<Rightarrow> bool" where
  "revoked_not_before_grant r \<longleftrightarrow>
    (case ag_revoked_at r of None \<Rightarrow> True | Some e \<Rightarrow> ag_granted_at r \<le> e)"

definition acl_constraints :: "uuid list \<Rightarrow> uuid list \<Rightarrow> acl_grant constraint list" where
  "acl_constraints document_ids principal_ids =
    [check ''ck_document_acl_expires_after_grant'' expires_after_grant,
     check ''ck_document_acl_revoked_not_before_grant'' revoked_not_before_grant,
     unique_index ''uq_document_acl_active_grant'' (\<lambda>r. ag_revoked_at r = None)
       (\<lambda>r. (ag_document_id r, ag_principal_id r, ag_permission r)),
     unique_index ''pk_document_acl'' (\<lambda>_. True) ag_id,
     check ''fk_document_acl_document_id_documents'' (\<lambda>r. ag_document_id r \<in> set document_ids),
     check ''fk_document_acl_principal_id_principals'' (\<lambda>r. ag_principal_id r \<in> set principal_ids)]"

definition document_ids :: "knowledge_db \<Rightarrow> uuid list" where
  "document_ids d = map kd_id (kdb_documents d)"

definition acl_cs :: "knowledge_db \<Rightarrow> acl_grant constraint list" where
  "acl_cs d = acl_constraints (document_ids d) (kdb_principal_ids d)"

datatype document_error =
    DocumentNotFound uuid
  | DocumentDeleted uuid
  | DocumentCanonicalKeyConflict pystr
  | DocumentAclGrantConflict uuid uuid document_permission
  | DocumentAclGrantNotFound uuid uuid
  | DocumentAclPrincipalNotFound uuid
  | DocumentAclExpirationInvalid datetime datetime
  | DocumentVersionNotFound uuid uuid
  | DocumentVersionConflict uuid pystr
  | DocumentVersionInvalidTransition uuid uuid version_status version_status
  | DocumentVersionOverlap uuid uuid
  | DocumentVersionInvalidEffectiveRange datetime datetime
  | DocumentVersionDocumentNotFound uuid
  | DocumentArtifactNotFound uuid uuid
  | DocumentArtifactConflict uuid pystr
  | DocumentArtifactEmpty
  | DocumentArtifactTooLarge int int
  | DocumentArtifactKeyInvalid pystr
  | DocumentArtifactLanguageCodeInvalid pystr
  | DocumentArtifactContentTypeInvalid pystr
  | DocumentArtifactStorageLocationConflict pystr pystr
  | DocumentArtifactVersionNotDraft uuid version_status
  | DocumentArtifactNotAvailable uuid artifact_status
  | DocumentArtifactObjectMissing uuid pystr
  | DocumentArtifactInvalidTransition uuid artifact_status artifact_status
  | DbError db_error

text \<open>
  The handlers \<open>except IntegrityError\<close> of the repositories: the named constraints become domain
  errors (\<open>is_integrity_error_for_constraint\<close>), the rest is raised again.
\<close>

definition translate_integrity_error ::
  "(string \<times> document_error) list \<Rightarrow> db_error \<Rightarrow> document_error"
where
  "translate_integrity_error table e = (case e of
      IntegrityError n \<Rightarrow> (case map_of table n of Some x \<Rightarrow> x | None \<Rightarrow> DbError e)
    | MultipleResultsFound \<Rightarrow> DbError e)"

section \<open>The document repository\<close>

definition canonical_key_exists :: "pystr \<Rightarrow> knowledge_db \<Rightarrow> bool" where
  "canonical_key_exists key d = sql_exists (\<lambda>r. kd_canonical_key r = key) (kdb_documents d)"

definition create_document_row :: "document \<Rightarrow> knowledge_db \<Rightarrow> document_error + document \<times> knowledge_db" where
  "create_document_row doc d =
    and_then (map_error (translate_integrity_error
        [(''uq_documents_canonical_key'', DocumentCanonicalKeyConflict (kd_canonical_key doc))])
      (insert_stmt document_constraints [doc] (kdb_documents d)))
      (\<lambda>t. Inr (doc, d\<lparr>kdb_documents := t\<rparr>))"

definition find_document :: "uuid \<Rightarrow> knowledge_db \<Rightarrow> document_error + document option" where
  "find_document i d =
    map_error DbError (one_or_none (sql_select (\<lambda>r. kd_id r = i) (kdb_documents d)))"

definition find_active_document :: "uuid \<Rightarrow> knowledge_db \<Rightarrow> document_error + document option" where
  "find_active_document i d = map_error DbError
    (one_or_none (sql_select (\<lambda>r. kd_id r = i \<and> kd_deleted_at r = None) (kdb_documents d)))"

datatype document_field = TITLE | DESCRIPTION | DOCUMENT_TYPE | DEPARTMENT | DEFAULT_LANGUAGE_CODE | METADATA

record document_patch =
  dp_fields :: "document_field list"
  dp_title :: pystr
  dp_description :: "pystr option"
  dp_document_type :: "pystr option"
  dp_department :: "pystr option"
  dp_default_language_code :: "pystr option"
  dp_metadata :: json

definition apply_patch :: "document_patch \<Rightarrow> datetime \<Rightarrow> document \<Rightarrow> document" where
  "apply_patch p updated_at r = (let f = set (dp_fields p) in
    r\<lparr>kd_updated_at := updated_at,
      kd_title := if TITLE \<in> f then dp_title p else kd_title r,
      kd_description := if DESCRIPTION \<in> f then dp_description p else kd_description r,
      kd_document_type := if DOCUMENT_TYPE \<in> f then dp_document_type p else kd_document_type r,
      kd_department := if DEPARTMENT \<in> f then dp_department p else kd_department r,
      kd_default_language_code := if DEFAULT_LANGUAGE_CODE \<in> f then dp_default_language_code p
        else kd_default_language_code r,
      kd_metadata := if METADATA \<in> f then dp_metadata p else kd_metadata r\<rparr>)"

definition active_document :: "uuid \<Rightarrow> document \<Rightarrow> bool" where
  "active_document i r \<longleftrightarrow> kd_id r = i \<and> kd_deleted_at r = None"

definition update_active ::
  "uuid \<Rightarrow> document_patch \<Rightarrow> datetime \<Rightarrow> knowledge_db \<Rightarrow> document_error + document option \<times> knowledge_db"
where
  "update_active i p updated_at d =
    and_then (map_error DbError (update_returning document_constraints (active_document i)
        (apply_patch p updated_at) (kdb_documents d))) (\<lambda>(rows, t).
    and_then (map_error DbError (one_or_none rows)) (\<lambda>row.
      Inr (row, d\<lparr>kdb_documents := t\<rparr>)))"

definition soft_delete :: "uuid \<Rightarrow> datetime \<Rightarrow> knowledge_db \<Rightarrow> document_error + bool \<times> knowledge_db" where
  "soft_delete i deleted_at d =
    and_then (map_error DbError (update_returning document_constraints (active_document i)
        (\<lambda>r. r\<lparr>kd_deleted_at := Some deleted_at, kd_updated_at := deleted_at\<rparr>) (kdb_documents d)))
      (\<lambda>(rows, t). Inr (rows \<noteq> [], d\<lparr>kdb_documents := t\<rparr>))"

section \<open>The ACL repositories\<close>

definition in_force :: "datetime \<Rightarrow> acl_grant \<Rightarrow> bool" where
  "in_force when r \<longleftrightarrow> ag_granted_at r \<le> when \<and> ag_revoked_at r = None \<and>
    (ag_expires_at r = None \<or> null_gt (ag_expires_at r) when)"

definition list_grants :: "uuid \<Rightarrow> datetime \<Rightarrow> bool \<Rightarrow> knowledge_db \<Rightarrow> acl_grant list" where
  "list_grants i when include_history d =
    sort_key (\<lambda>r. (ag_granted_at r, ag_id r))
      (sql_select (\<lambda>r. ag_document_id r = i \<and> (include_history \<or> in_force when r)) (kdb_acl d))"

definition has_unrevoked_grant :: "uuid \<Rightarrow> uuid \<Rightarrow> document_permission \<Rightarrow> knowledge_db \<Rightarrow> bool" where
  "has_unrevoked_grant i p perm d = sql_exists (\<lambda>r. ag_document_id r = i \<and> ag_principal_id r = p \<and>
    ag_permission r = perm \<and> ag_revoked_at r = None) (kdb_acl d)"

definition create_grant :: "acl_grant \<Rightarrow> knowledge_db \<Rightarrow> document_error + acl_grant \<times> knowledge_db" where
  "create_grant g d =
    and_then (map_error (translate_integrity_error
        [(''uq_document_acl_active_grant'',
          DocumentAclGrantConflict (ag_document_id g) (ag_principal_id g) (ag_permission g))])
      (insert_stmt (acl_cs d) [g] (kdb_acl d)))
      (\<lambda>t. Inr (g, d\<lparr>kdb_acl := t\<rparr>))"

definition revoke_grant ::
  "uuid \<Rightarrow> uuid \<Rightarrow> datetime \<Rightarrow> uuid \<Rightarrow> knowledge_db \<Rightarrow> document_error + bool \<times> knowledge_db"
where
  "revoke_grant i g revoked_at revoked_by d =
    and_then (map_error DbError (update_returning (acl_cs d)
        (\<lambda>r. ag_document_id r = i \<and> ag_id r = g \<and> ag_revoked_at r = None)
        (\<lambda>r. r\<lparr>ag_revoked_at := Some revoked_at, ag_revoked_by := Some revoked_by\<rparr>) (kdb_acl d)))
      (\<lambda>(rows, t). Inr (rows \<noteq> [], d\<lparr>kdb_acl := t\<rparr>))"

definition has_active_read_grant :: "uuid \<Rightarrow> uuid set \<Rightarrow> datetime \<Rightarrow> knowledge_db \<Rightarrow> bool" where
  "has_active_read_grant i principals when d \<longleftrightarrow>
    sql_exists (active_document i) (kdb_documents d) \<and>
    sql_exists (\<lambda>r. ag_document_id r = i \<and> ag_principal_id r \<in> principals \<and>
      ag_permission r \<in> {READ, MANAGE} \<and> in_force when r) (kdb_acl d)"

section \<open>The services\<close>

text \<open>\<open>now\<close> is the service's clock; identifiers generated by \<open>uuid4()\<close> are arguments.\<close>

definition create_document ::
  "uuid \<Rightarrow> datetime \<Rightarrow> pystr \<Rightarrow> pystr \<Rightarrow> uuid \<Rightarrow> pystr option \<Rightarrow> pystr option \<Rightarrow> pystr option \<Rightarrow>
    pystr option \<Rightarrow> json \<Rightarrow> knowledge_db \<Rightarrow> document_error + document \<times> knowledge_db"
where
  "create_document i now key title actor description document_type department language metadata d =
    (let doc = \<lparr>kd_id = i, kd_created_by = Some actor, kd_canonical_key = key, kd_title = title,
        kd_description = description, kd_document_type = document_type, kd_department = department,
        kd_default_language_code = language, kd_metadata = metadata, kd_created_at = now,
        kd_updated_at = now, kd_deleted_at = None\<rparr> in
     and_then (raise_if (canonical_key_exists key d) (DocumentCanonicalKeyConflict key)) (\<lambda>_.
       create_document_row doc d))"

definition update_document ::
  "uuid \<Rightarrow> document_patch \<Rightarrow> datetime \<Rightarrow> knowledge_db \<Rightarrow> document_error + document \<times> knowledge_db"
where
  "update_document i p now d =
    and_then (update_active i p now d) (\<lambda>(row, d'). case row of
      None \<Rightarrow> Inl (DocumentNotFound i) | Some r \<Rightarrow> Inr (r, d'))"

definition delete_document :: "uuid \<Rightarrow> datetime \<Rightarrow> knowledge_db \<Rightarrow> document_error + unit \<times> knowledge_db" where
  "delete_document i now d =
    and_then (soft_delete i now d) (\<lambda>(deleted, d').
      if deleted then Inr ((), d') else Inl (DocumentNotFound i))"

definition require_active_document :: "uuid \<Rightarrow> knowledge_db \<Rightarrow> document_error + unit" where
  "require_active_document i d =
    and_then (find_active_document i d) (\<lambda>row. raise_if (row = None) (DocumentNotFound i))"

definition list_acl_grants ::
  "uuid \<Rightarrow> bool \<Rightarrow> datetime \<Rightarrow> knowledge_db \<Rightarrow> document_error + acl_grant list"
where
  "list_acl_grants i include_history now d =
    and_then (require_active_document i d) (\<lambda>_. Inr (list_grants i now include_history d))"

definition grant_acl ::
  "uuid \<Rightarrow> datetime \<Rightarrow> uuid \<Rightarrow> uuid \<Rightarrow> document_permission \<Rightarrow> datetime option \<Rightarrow> uuid \<Rightarrow> knowledge_db \<Rightarrow>
    document_error + acl_grant \<times> knowledge_db"
where
  "grant_acl grant_id now i who perm expires_at actor d =
    and_then (case expires_at of
        Some e \<Rightarrow> raise_if (e \<le> now) (DocumentAclExpirationInvalid e now) | None \<Rightarrow> Inr ()) (\<lambda>_.
    and_then (require_active_document i d) (\<lambda>_.
    and_then (raise_if (who \<notin> set (kdb_principal_ids d)) (DocumentAclPrincipalNotFound who)) (\<lambda>_.
    and_then (raise_if (has_unrevoked_grant i who perm d)
        (DocumentAclGrantConflict i who perm)) (\<lambda>_.
      create_grant \<lparr>ag_id = grant_id, ag_document_id = i, ag_principal_id = who,
        ag_permission = perm, ag_granted_at = now, ag_granted_by = Some actor,
        ag_expires_at = expires_at, ag_revoked_at = None, ag_revoked_by = None\<rparr> d))))"

definition revoke_acl ::
  "uuid \<Rightarrow> uuid \<Rightarrow> uuid \<Rightarrow> datetime \<Rightarrow> knowledge_db \<Rightarrow> document_error + unit \<times> knowledge_db"
where
  "revoke_acl i grant_id actor now d =
    and_then (require_active_document i d) (\<lambda>_.
    and_then (revoke_grant i grant_id now actor d) (\<lambda>(revoked, d').
      if revoked then Inr ((), d') else Inl (DocumentAclGrantNotFound i grant_id)))"

definition can_read_document :: "uuid \<Rightarrow> uuid set \<Rightarrow> datetime \<Rightarrow> knowledge_db \<Rightarrow> bool" where
  "can_read_document i principals when d \<longleftrightarrow>
    principals \<noteq> {} \<and> has_active_read_grant i principals when d"


section \<open>Interleavings of the document and ACL transactions\<close>

datatype document_op =
    CreateDocument uuid datetime pystr pystr uuid "pystr option" "pystr option" "pystr option" "pystr option" json
  | UpdateDocument uuid document_patch datetime
  | DeleteDocument uuid datetime
  | GrantAcl uuid datetime uuid uuid document_permission "datetime option" uuid
  | RevokeAcl uuid uuid uuid datetime

fun document_exec :: "document_op \<Rightarrow> knowledge_db \<Rightarrow> knowledge_db" where
  "document_exec (CreateDocument i now key title actor descr ty dep lang meta) d =
    db_after d (create_document i now key title actor descr ty dep lang meta d)"
| "document_exec (UpdateDocument i p now) d = db_after d (update_document i p now d)"
| "document_exec (DeleteDocument i now) d = db_after d (delete_document i now d)"
| "document_exec (GrantAcl g now i who perm e actor) d =
    db_after d (grant_acl g now i who perm e actor d)"
| "document_exec (RevokeAcl i g actor now) d = db_after d (revoke_acl i g actor now d)"

section \<open>What every transaction keeps\<close>

definition documents_ok :: "knowledge_db \<Rightarrow> bool" where
  "documents_ok d \<longleftrightarrow> satisfies document_constraints (kdb_documents d) \<and> satisfies (acl_cs d) (kdb_acl d)"

lemma documents_ok_keys:
  assumes "documents_ok d"
  shows "distinct (map kd_id (kdb_documents d))" and "distinct (map ag_id (kdb_acl d))"
  using assms by (simp_all add: documents_ok_def document_constraints_def acl_cs_def acl_constraints_def)

lemma apply_patch_key [simp]:
  "kd_id (apply_patch p now r) = kd_id r" "kd_deleted_at (apply_patch p now r) = kd_deleted_at r"
  by (simp_all add: apply_patch_def Let_def)

text \<open>The possible effects of a transaction on the two tables.\<close>

lemma create_document_row_effect:
  "create_document_row doc d = Inr (r, d') \<Longrightarrow>
    d' = d\<lparr>kdb_documents := kdb_documents d @ [doc]\<rparr> \<and> satisfies document_constraints (kdb_documents d') \<and> r = doc"
  by (auto simp: create_document_row_def and_then_Inr_iff map_error_Inr_iff stmt_iffs)

lemma create_document_effect:
  "create_document i now key title actor descr ty dep lang meta d = Inr (r, d') \<Longrightarrow>
    d' = d\<lparr>kdb_documents := kdb_documents d @ [r]\<rparr> \<and> satisfies document_constraints (kdb_documents d')"
  by (auto simp: create_document_def Let_def and_then_Inr_iff dest!: create_document_row_effect)

lemma update_document_effect:
  "update_document i p now d = Inr (r, d') \<Longrightarrow>
    d' = d\<lparr>kdb_documents := sql_update (active_document i) (apply_patch p now) (kdb_documents d)\<rparr> \<and>
    satisfies document_constraints (kdb_documents d')"
  by (auto simp: update_document_def update_active_def and_then_Inr_iff map_error_Inr_iff stmt_iffs
      split: option.splits)

definition mark_deleted :: "datetime \<Rightarrow> document \<Rightarrow> document" where
  "mark_deleted now r = r\<lparr>kd_deleted_at := Some now, kd_updated_at := now\<rparr>"

lemma delete_document_effect:
  "delete_document i now d = Inr (r, d') \<Longrightarrow>
    d' = d\<lparr>kdb_documents := sql_update (active_document i) (mark_deleted now) (kdb_documents d)\<rparr> \<and>
    satisfies document_constraints (kdb_documents d') \<and> (\<exists>x \<in> set (kdb_documents d). active_document i x)"
  by (auto simp: delete_document_def soft_delete_def and_then_Inr_iff map_error_Inr_iff stmt_iffs
      mark_deleted_def [abs_def] filter_empty_conv split: if_splits)

lemma create_grant_effect:
  "create_grant g d = Inr (r, d') \<Longrightarrow>
    d' = d\<lparr>kdb_acl := kdb_acl d @ [g]\<rparr> \<and> satisfies (acl_cs d) (kdb_acl d') \<and> r = g"
  by (auto simp: create_grant_def and_then_Inr_iff map_error_Inr_iff stmt_iffs)

lemma grant_acl_effect:
  "grant_acl g now i who perm e actor d = Inr (r, d') \<Longrightarrow>
    d' = d\<lparr>kdb_acl := kdb_acl d @ [r]\<rparr> \<and> satisfies (acl_cs d) (kdb_acl d')"
  by (auto simp: grant_acl_def and_then_Inr_iff dest!: create_grant_effect)

definition mark_revoked :: "datetime \<Rightarrow> uuid \<Rightarrow> acl_grant \<Rightarrow> acl_grant" where
  "mark_revoked now actor r = r\<lparr>ag_revoked_at := Some now, ag_revoked_by := Some actor\<rparr>"

definition unrevoked :: "uuid \<Rightarrow> uuid \<Rightarrow> acl_grant \<Rightarrow> bool" where
  "unrevoked i g r \<longleftrightarrow> ag_document_id r = i \<and> ag_id r = g \<and> ag_revoked_at r = None"

lemma revoke_acl_effect:
  "revoke_acl i g actor now d = Inr (r, d') \<Longrightarrow>
    d' = d\<lparr>kdb_acl := sql_update (unrevoked i g) (mark_revoked now actor) (kdb_acl d)\<rparr> \<and>
    satisfies (acl_cs d) (kdb_acl d')"
  by (auto simp: revoke_acl_def revoke_grant_def and_then_Inr_iff map_error_Inr_iff stmt_iffs
      mark_revoked_def [abs_def] unrevoked_def [abs_def] split: if_splits)

lemma acl_cs_documents:
  "set (map kd_id (kdb_documents d)) \<subseteq> set (map kd_id (kdb_documents d')) \<Longrightarrow>
    kdb_principal_ids d' = kdb_principal_ids d \<Longrightarrow> satisfies (acl_cs d) t \<Longrightarrow> satisfies (acl_cs d') t"
  by (auto simp: acl_cs_def acl_constraints_def document_ids_def list_all_iff)

lemma acl_cs_acl [simp]: "acl_cs (d\<lparr>kdb_acl := t\<rparr>) = acl_cs d"
  by (simp add: acl_cs_def document_ids_def)

lemma acl_cs_update [simp]:
  "(\<And>r. kd_id (f r) = kd_id r) \<Longrightarrow>
    acl_cs (d\<lparr>kdb_documents := sql_update p f (kdb_documents d)\<rparr>) = acl_cs d"
  by (simp add: acl_cs_def document_ids_def map_sql_update)

lemma mark_deleted_id [simp]: "kd_id (mark_deleted now r) = kd_id r"
  by (simp add: mark_deleted_def)

lemma document_exec_cases:
  assumes "documents_ok d"
  obtains (same) "document_exec op d = d"
  | (create) doc where "document_exec op d = d\<lparr>kdb_documents := kdb_documents d @ [doc]\<rparr>"
  | (patch) i p now where
      "document_exec op d = d\<lparr>kdb_documents := sql_update (active_document i) (apply_patch p now) (kdb_documents d)\<rparr>"
  | (delete) i now where "op = DeleteDocument i now"
      "document_exec op d = d\<lparr>kdb_documents := sql_update (active_document i) (mark_deleted now) (kdb_documents d)\<rparr>"
  | (grant) g where "document_exec op d = d\<lparr>kdb_acl := kdb_acl d @ [g]\<rparr>"
  | (revoke) i g actor now where "op = RevokeAcl i g actor now"
      "document_exec op d = d\<lparr>kdb_acl := sql_update (unrevoked i g) (mark_revoked now actor) (kdb_acl d)\<rparr>"
proof (cases op)
  case (CreateDocument i now key title actor descr ty dep lang meta)
  show ?thesis
  proof (cases rule: db_after_cases [of d "create_document i now key title actor descr ty dep lang meta d"])
    case Raised
    with CreateDocument show ?thesis by (intro same) simp
  next
    case (Done x d')
    from create_document_effect [OF Done(1)] Done(2) CreateDocument show ?thesis
      by (intro create [of x]) simp_all
  qed
next
  case (UpdateDocument i p now)
  show ?thesis
  proof (cases rule: db_after_cases [of d "update_document i p now d"])
    case Raised
    with UpdateDocument show ?thesis by (intro same) simp
  next
    case (Done x d')
    from update_document_effect [OF Done(1)] Done(2) UpdateDocument show ?thesis
      by (intro patch [of i p now]) simp_all
  qed
next
  case (DeleteDocument i now)
  show ?thesis
  proof (cases rule: db_after_cases [of d "delete_document i now d"])
    case Raised
    with DeleteDocument show ?thesis by (intro same) simp
  next
    case (Done x d')
    from delete_document_effect [OF Done(1)] Done(2) DeleteDocument show ?thesis
      by (intro delete [of i now]) simp_all
  qed
next
  case (GrantAcl g now i who perm e actor)
  show ?thesis
  proof (cases rule: db_after_cases [of d "grant_acl g now i who perm e actor d"])
    case Raised
    with GrantAcl show ?thesis by (intro same) simp
  next
    case (Done x d')
    from grant_acl_effect [OF Done(1)] Done(2) GrantAcl show ?thesis
      by (intro grant [of x]) simp_all
  qed
next
  case (RevokeAcl i g actor now)
  show ?thesis
  proof (cases rule: db_after_cases [of d "revoke_acl i g actor now d"])
    case Raised
    with RevokeAcl show ?thesis by (intro same) simp
  next
    case (Done x d')
    from revoke_acl_effect [OF Done(1)] Done(2) RevokeAcl show ?thesis
      by (intro revoke [of i g actor now]) simp_all
  qed
qed

lemma document_exec_ok:
  assumes "documents_ok d"
  shows "documents_ok (document_exec op d)"
proof -
  note effects = update_document_effect delete_document_effect
    create_grant_effect revoke_acl_effect
  show ?thesis
  proof (cases op)
    case (CreateDocument i now key title actor descr ty dep lang meta)
    with assms show ?thesis
      by (cases "create_document i now key title actor descr ty dep lang meta d")
        (auto simp: documents_ok_def dest!: create_document_effect elim!: acl_cs_documents [rotated 2])
  next
    case (UpdateDocument i p now)
    with assms show ?thesis
      by (cases "update_document i p now d") (auto simp: documents_ok_def dest!: effects)
  next
    case (DeleteDocument i now)
    with assms show ?thesis
      by (cases "delete_document i now d") (auto simp: documents_ok_def dest!: effects)
  next
    case (GrantAcl g now i who perm e actor)
    with assms show ?thesis
      by (cases "grant_acl g now i who perm e actor d")
        (auto simp: documents_ok_def grant_acl_def and_then_Inr_iff dest!: effects)
  next
    case (RevokeAcl i g actor now)
    with assms show ?thesis
      by (cases "revoke_acl i g actor now d") (auto simp: documents_ok_def dest!: effects)
  qed
qed

lemma document_run_ok: "documents_ok d \<Longrightarrow> documents_ok (fold document_exec ops d)"
  by (induction ops arbitrary: d) (simp_all add: document_exec_ok)


section \<open>Rows through an interleaving\<close>

lemma document_row_step:
  assumes "documents_ok d" and "lookup kd_id i (kdb_documents d) = Some r"
  shows "\<exists>r'. lookup kd_id i (kdb_documents (document_exec op d)) = Some r' \<and>
    (kd_deleted_at r \<noteq> None \<longrightarrow> r' = r) \<and>
    (kd_deleted_at r = None \<longrightarrow> (\<forall>now. op \<noteq> DeleteDocument i now) \<longrightarrow> kd_deleted_at r' = None)"
  using lookup_SomeD [OF assms(2)] assms(2)
  by (cases rule: document_exec_cases [OF assms(1), of op])
    (auto simp: lookup_append lookup_sql_update active_document_def)

lemma grant_row_step:
  assumes "documents_ok d" and "lookup ag_id g (kdb_acl d) = Some r"
  shows "\<exists>r'. lookup ag_id g (kdb_acl (document_exec op d)) = Some r' \<and>
    (ag_revoked_at r \<noteq> None \<or> (\<forall>actor now. op \<noteq> RevokeAcl (ag_document_id r) g actor now) \<longrightarrow> r' = r)"
  using lookup_SomeD [OF assms(2)] assms(2)
  by (cases rule: document_exec_cases [OF assms(1), of op])
    (auto simp: lookup_append lookup_sql_update unrevoked_def mark_revoked_def)

lemma deleted_row_run:
  "documents_ok d \<Longrightarrow> lookup kd_id i (kdb_documents d) = Some r \<Longrightarrow> kd_deleted_at r \<noteq> None \<Longrightarrow>
    lookup kd_id i (kdb_documents (fold document_exec ops d)) = Some r"
proof (induction ops arbitrary: d)
  case (Cons op ops)
  with document_row_step [OF Cons.prems(1,2), of op] show ?case by (auto intro: document_exec_ok)
qed simp

lemma revoked_row_run:
  "documents_ok d \<Longrightarrow> lookup ag_id g (kdb_acl d) = Some r \<Longrightarrow> ag_revoked_at r \<noteq> None \<Longrightarrow>
    lookup ag_id g (kdb_acl (fold document_exec ops d)) = Some r"
proof (induction ops arbitrary: d)
  case (Cons op ops)
  with grant_row_step [OF Cons.prems(1,2), of op] show ?case by (auto intro: document_exec_ok)
qed simp




section \<open>Properties\<close>

definition sample_document_row :: document where
  "sample_document_row = \<lparr>kd_id = 1, kd_created_by = None, kd_canonical_key = [107], kd_title = [116],
    kd_description = None, kd_document_type = None, kd_department = None,
    kd_default_language_code = None, kd_metadata = JObj [], kd_created_at = 0, kd_updated_at = 0,
    kd_deleted_at = None\<rparr>"

definition sample_knowledge :: knowledge_db where
  "sample_knowledge = \<lparr>kdb_documents = [sample_document_row], kdb_acl = [], kdb_versions = [],
    kdb_artifacts = [], kdb_principal_ids = [5, 6]\<rparr>"

lemma sample_knowledge_ok: "documents_ok sample_knowledge"
  by (simp add: documents_ok_def sample_knowledge_def document_constraints_def acl_cs_def acl_constraints_def)



text \<open>
  Deletion ends access for good. Once a document is deleted nobody can read it at any
  instant, whatever is granted, updated or created afterwards; its row never changes again.
\<close>

theorem deleted_document_is_unreadable:
  assumes "documents_ok d" and "delete_document i now d = Inr ((), d')"
  shows "\<not> can_read_document i principals when (fold document_exec ops d') \<and>
    lookup kd_id i (kdb_documents (fold document_exec ops d')) = lookup kd_id i (kdb_documents d')"
proof -
  from delete_document_effect [OF assms(2)] obtain x where x: "x \<in> set (kdb_documents d)" "active_document i x"
    and d': "d' = d\<lparr>kdb_documents := sql_update (active_document i) (mark_deleted now) (kdb_documents d)\<rparr>"
    by blast
  have ok': "documents_ok d'"
    using document_exec_ok [OF assms(1), of "DeleteDocument i now"] assms(2) by simp
  from x documents_ok_keys(1) [OF assms(1)] have "lookup kd_id i (kdb_documents d) = Some x"
    by (auto simp: active_document_def intro: lookup_unique)
  with x have row: "lookup kd_id i (kdb_documents d') = Some (mark_deleted now x)"
    by (simp add: d' lookup_sql_update)
  then have run: "lookup kd_id i (kdb_documents (fold document_exec ops d')) = Some (mark_deleted now x)"
    by (rule deleted_row_run [OF ok']) (simp add: mark_deleted_def)
  have "kd_deleted_at r \<noteq> None"
    if "r \<in> set (kdb_documents (fold document_exec ops d'))" "kd_id r = i" for r
    using lookup_unique [OF documents_ok_keys(1) [OF document_run_ok [OF ok', of ops]] that] run
    by (auto simp: mark_deleted_def)
  then have "\<not> can_read_document i principals when (fold document_exec ops d')"
    by (auto simp: can_read_document_def has_active_read_grant_def sql_exists_iff active_document_def)
  with row run show ?thesis by simp
qed

theorem deleted_document_is_unreadable_witness:
  "\<exists>d'. delete_document 1 30 sample_knowledge = Inr ((), d') \<and>
    \<not> can_read_document 1 {5} 40 (document_exec (GrantAcl 9 35 1 5 READ None 6) d')"
proof -
  obtain d' where del: "delete_document 1 30 sample_knowledge = Inr ((), d')"
    by (simp add: delete_document_def soft_delete_def update_returning_def sql_write_ok sql_update_def
        sample_knowledge_def sample_document_row_def active_document_def document_constraints_def)
  from deleted_document_is_unreadable [OF sample_knowledge_ok del, of "{5}" 40 "[GrantAcl 9 35 1 5 READ None 6]"] del
  show ?thesis by auto
qed

text \<open>
  A grant that has expired but was never revoked blocks a new one: the uniqueness check
  and the index look at \<open>revoked_at\<close> only, so granting the same permission again raises
  \<open>DocumentAclGrantConflict\<close> although nobody can read by the old grant.
\<close>

theorem expired_grant_blocks_regrant:
  assumes "documents_ok d" and "a \<in> set (kdb_acl d)" and "ag_document_id a = i" and "ag_principal_id a = who"
    and "ag_permission a = perm" and "ag_revoked_at a = None" and "null_le (ag_expires_at a) now"
    and "require_active_document i d = Inr ()" and "expires = None \<or> null_gt expires now"
  shows "\<not> in_force now a \<and>
    grant_acl g now i who perm expires actor d = Inl (DocumentAclGrantConflict i who perm)"
proof -
  have "\<not> in_force now a"
    using assms(7) null_le_gt [OF assms(7)] by (auto simp: in_force_def)
  moreover have "has_unrevoked_grant i who perm d"
    using assms(2-6) by (auto simp: has_unrevoked_grant_def sql_exists_iff)
  moreover have "who \<in> set (kdb_principal_ids d)"
    using assms(1,2,4) by (auto simp: documents_ok_def acl_cs_def acl_constraints_def list_all_iff)
  ultimately show ?thesis
    using assms(8,9) by (cases expires) (simp_all add: grant_acl_def)
qed

theorem expired_grant_blocks_regrant_witness:
  "grant_acl 10 60 1 5 READ None 6
    (sample_knowledge\<lparr>kdb_acl := [\<lparr>ag_id = 9, ag_document_id = 1, ag_principal_id = 5, ag_permission = READ,
      ag_granted_at = 10, ag_granted_by = None, ag_expires_at = Some 50, ag_revoked_at = None,
      ag_revoked_by = None\<rparr>]\<rparr>) = Inl (DocumentAclGrantConflict 1 5 READ)"
  (is "grant_acl _ _ _ _ _ _ _ ?d = _")
proof -
  have "documents_ok ?d"
    by (simp add: documents_ok_def sample_knowledge_def sample_document_row_def document_constraints_def
        acl_cs_def acl_constraints_def expires_after_grant_def revoked_not_before_grant_def document_ids_def)
  moreover have "require_active_document 1 ?d = Inr ()"
    by (simp add: require_active_document_def find_active_document_def sql_select_def
        sample_knowledge_def sample_document_row_def)
  ultimately show ?thesis
    using expired_grant_blocks_regrant [of ?d "hd (kdb_acl ?d)" 1 5 READ 60 None 10 6] by simp
qed

end
