(* ===== verification/Versions.thy ===== *)
theory Versions
  imports Documents
begin

text \<open>
  Document versions: the constraints of \<open>models/document_version.py\<close> (with the exclusion
  constraint on effective periods), the statements of \<open>repositories/document_version.py\<close> and
  the service \<open>services/document_version_management.py\<close>. A version is a draft, then published
  with an effective period [from, to), then withdrawn, then archived; the periods of one
  document never overlap, so at every instant at most one version is in effect.
\<close>

section \<open>Constraints\<close>

definition effective_to_after_from :: "version_row \<Rightarrow> bool" where
  "effective_to_after_from r \<longleftrightarrow> (case (vr_effective_from r, vr_effective_to r) of
      (Some f, Some t) \<Rightarrow> f < t | _ \<Rightarrow> True)"

definition published_requires_dates :: "version_row \<Rightarrow> bool" where
  "published_requires_dates r \<longleftrightarrow> vr_status r \<noteq> PUBLISHED \<or>
    vr_published_at r \<noteq> None \<and> vr_effective_from r \<noteq> None"

definition closed_requires_dates :: "version_row \<Rightarrow> bool" where
  "closed_requires_dates r \<longleftrightarrow> vr_status r \<notin> {WITHDRAWN, ARCHIVED} \<or>
    vr_published_at r \<noteq> None \<and> vr_effective_from r \<noteq> None \<and> vr_effective_to r \<noteq> None"

text \<open>\<open>a && b\<close> on the ranges \<open>[from, to)\<close>, an absent upper bound being infinite.\<close>

definition before_end :: "datetime \<Rightarrow> datetime option \<Rightarrow> bool" where
  "before_end f t \<longleftrightarrow> (case t of None \<Rightarrow> True | Some u \<Rightarrow> f < u)"

definition periods_conflict :: "version_row \<Rightarrow> version_row \<Rightarrow> bool" where
  "periods_conflict r s \<longleftrightarrow> vr_document_id r = vr_document_id s \<and>
    (case (vr_effective_from r, vr_effective_from s) of
       (Some f, Some g) \<Rightarrow> before_end f (vr_effective_to s) \<and> before_end g (vr_effective_to r)
     | _ \<Rightarrow> False)"

fun no_overlap :: "version_row list \<Rightarrow> bool" where
  "no_overlap [] = True"
| "no_overlap (r # t) = (list_all (\<lambda>s. \<not> periods_conflict r s) t \<and> no_overlap t)"

definition overlap_constraint :: string where
  "overlap_constraint = ''ex_document_versions_no_overlapping_effective_period''"

definition version_constraints :: "uuid list \<Rightarrow> version_row constraint list" where
  "version_constraints docs =
    [check ''ck_document_versions_effective_to_after_from'' effective_to_after_from,
     check ''ck_document_versions_published_requires_dates'' published_requires_dates,
     check ''ck_document_versions_closed_requires_dates'' closed_requires_dates,
     (overlap_constraint, no_overlap),
     unique_index ''uq_document_versions_document_id_version_label'' (\<lambda>_. True)
       (\<lambda>r. (vr_document_id r, vr_label r)),
     unique_index ''pk_document_versions'' (\<lambda>_. True) vr_id,
     check ''fk_document_versions_document_id_documents'' (\<lambda>r. vr_document_id r \<in> set docs)]"

definition version_cs :: "knowledge_db \<Rightarrow> version_row constraint list" where
  "version_cs d = version_constraints (document_ids d)"

section \<open>The repository\<close>

definition version_of :: "uuid \<Rightarrow> uuid \<Rightarrow> version_row \<Rightarrow> bool" where
  "version_of doc v r \<longleftrightarrow> vr_id r = v \<and> vr_document_id r = doc"

definition find_version :: "uuid \<Rightarrow> uuid \<Rightarrow> knowledge_db \<Rightarrow> document_error + version_row option" where
  "find_version doc v d =
    map_error DbError (one_or_none (sql_select (version_of doc v) (kdb_versions d)))"

definition find_by_document_and_label ::
  "uuid \<Rightarrow> pystr \<Rightarrow> knowledge_db \<Rightarrow> document_error + version_row option"
where
  "find_by_document_and_label doc label d = map_error DbError
    (one_or_none (sql_select (\<lambda>r. vr_document_id r = doc \<and> vr_label r = label) (kdb_versions d)))"

definition list_versions_for_document :: "uuid \<Rightarrow> knowledge_db \<Rightarrow> version_row list" where
  "list_versions_for_document doc d = sort_key (\<lambda>r. (vr_created_at r, vr_id r))
    (sql_select (\<lambda>r. vr_document_id r = doc) (kdb_versions d))"

definition in_effect :: "uuid \<Rightarrow> datetime \<Rightarrow> version_row \<Rightarrow> bool" where
  "in_effect doc when r \<longleftrightarrow> vr_document_id r = doc \<and> null_le (vr_effective_from r) when \<and>
    (vr_effective_to r = None \<or> null_gt (vr_effective_to r) when)"

definition find_effective_at ::
  "uuid \<Rightarrow> datetime \<Rightarrow> knowledge_db \<Rightarrow> document_error + version_row option"
where
  "find_effective_at doc when d =
    map_error DbError (one_or_none (sql_select (in_effect doc when) (kdb_versions d)))"

definition open_version :: "uuid \<Rightarrow> version_row \<Rightarrow> bool" where
  "open_version doc r \<longleftrightarrow> vr_document_id r = doc \<and> vr_effective_from r \<noteq> None \<and> vr_effective_to r = None"

definition find_open_effective_version ::
  "uuid \<Rightarrow> knowledge_db \<Rightarrow> document_error + version_row option"
where
  "find_open_effective_version doc d =
    map_error DbError (one_or_none (sql_select (open_version doc) (kdb_versions d)))"

definition create_version_row ::
  "version_row \<Rightarrow> knowledge_db \<Rightarrow> document_error + version_row \<times> knowledge_db"
where
  "create_version_row v d =
    and_then (map_error (translate_integrity_error
        [(''uq_document_versions_document_id_version_label'',
          DocumentVersionConflict (vr_document_id v) (vr_label v))])
      (insert_stmt (version_cs d) [v] (kdb_versions d)))
      (\<lambda>t. Inr (v, d\<lparr>kdb_versions := t\<rparr>))"

text \<open>The SET clauses of the four updates.\<close>

definition publish_row :: "datetime \<Rightarrow> datetime \<Rightarrow> version_row \<Rightarrow> version_row" where
  "publish_row now start r = r\<lparr>vr_status := PUBLISHED, vr_published_at := Some now,
    vr_effective_from := Some start, vr_updated_at := now\<rparr>"

definition close_row :: "datetime \<Rightarrow> datetime \<Rightarrow> version_row \<Rightarrow> version_row" where
  "close_row until now r = r\<lparr>vr_effective_to := Some until, vr_updated_at := now\<rparr>"

definition withdraw_row :: "datetime \<Rightarrow> datetime \<Rightarrow> version_row \<Rightarrow> version_row" where
  "withdraw_row until now r = r\<lparr>vr_status := WITHDRAWN, vr_effective_to := Some until, vr_updated_at := now\<rparr>"

definition archive_row :: "datetime \<Rightarrow> version_row \<Rightarrow> version_row" where
  "archive_row now r = r\<lparr>vr_status := ARCHIVED, vr_updated_at := now\<rparr>"

definition set_published ::
  "uuid \<Rightarrow> uuid \<Rightarrow> datetime \<Rightarrow> datetime \<Rightarrow> knowledge_db \<Rightarrow>
    document_error + version_row option \<times> knowledge_db"
where
  "set_published doc v now start d =
    and_then (map_error (translate_integrity_error [(overlap_constraint, DocumentVersionOverlap doc v)])
      (update_returning (version_cs d) (version_of doc v)
        (publish_row now start) (kdb_versions d))) (\<lambda>(rows, t).
    and_then (map_error DbError (one_or_none rows)) (\<lambda>row. Inr (row, d\<lparr>kdb_versions := t\<rparr>)))"

definition close_effective_period ::
  "uuid \<Rightarrow> uuid \<Rightarrow> datetime \<Rightarrow> datetime \<Rightarrow> knowledge_db \<Rightarrow> document_error + knowledge_db"
where
  "close_effective_period doc v until now d =
    and_then (map_error DbError (update_stmt (version_cs d) (version_of doc v)
        (close_row until now) (kdb_versions d)))
      (\<lambda>(_, t). Inr (d\<lparr>kdb_versions := t\<rparr>))"

definition set_withdrawn ::
  "uuid \<Rightarrow> uuid \<Rightarrow> datetime \<Rightarrow> datetime \<Rightarrow> knowledge_db \<Rightarrow>
    document_error + version_row option \<times> knowledge_db"
where
  "set_withdrawn doc v until now d =
    and_then (map_error DbError (update_returning (version_cs d) (version_of doc v)
        (withdraw_row until now)
        (kdb_versions d))) (\<lambda>(rows, t).
    and_then (map_error DbError (one_or_none rows)) (\<lambda>row. Inr (row, d\<lparr>kdb_versions := t\<rparr>)))"

definition set_archived ::
  "uuid \<Rightarrow> uuid \<Rightarrow> datetime \<Rightarrow> knowledge_db \<Rightarrow> document_error + version_row option \<times> knowledge_db"
where
  "set_archived doc v now d =
    and_then (map_error DbError (update_returning (version_cs d) (version_of doc v)
        (archive_row now) (kdb_versions d))) (\<lambda>(rows, t).
    and_then (map_error DbError (one_or_none rows)) (\<lambda>row. Inr (row, d\<lparr>kdb_versions := t\<rparr>)))"

section \<open>The service\<close>

definition require_active_version_document :: "uuid \<Rightarrow> knowledge_db \<Rightarrow> document_error + unit" where
  "require_active_version_document doc d =
    and_then (find_active_document doc d) (\<lambda>row.
      raise_if (row = None) (DocumentVersionDocumentNotFound doc))"

definition create_version ::
  "uuid \<Rightarrow> datetime \<Rightarrow> uuid \<Rightarrow> pystr \<Rightarrow> uuid option \<Rightarrow> json \<Rightarrow> knowledge_db \<Rightarrow>
    document_error + version_row \<times> knowledge_db"
where
  "create_version v now doc label actor metadata d =
    and_then (require_active_version_document doc d) (\<lambda>_.
      create_version_row \<lparr>vr_id = v, vr_document_id = doc, vr_label = label, vr_effective_from = None,
        vr_effective_to = None, vr_published_at = None, vr_status = DRAFT, vr_created_by = actor,
        vr_metadata = metadata, vr_created_at = now, vr_updated_at = now\<rparr> d)"

definition require_version_status ::
  "uuid \<Rightarrow> uuid \<Rightarrow> version_status \<Rightarrow> version_status \<Rightarrow> knowledge_db \<Rightarrow> document_error + version_row"
where
  "require_version_status doc v expected target d =
    and_then (find_version doc v d) (\<lambda>row. case row of
      None \<Rightarrow> Inl (DocumentVersionNotFound doc v)
    | Some r \<Rightarrow> and_then (raise_if (vr_status r \<noteq> expected)
        (DocumentVersionInvalidTransition doc v (vr_status r) target)) (\<lambda>_. Inr r))"

definition updated_or_missing ::
  "uuid \<Rightarrow> uuid \<Rightarrow> version_row option \<times> knowledge_db \<Rightarrow> document_error + version_row \<times> knowledge_db"
where
  "updated_or_missing doc v res = (case fst res of
      None \<Rightarrow> Inl (DocumentVersionNotFound doc v) | Some r \<Rightarrow> Inr (r, snd res))"

definition close_open_version ::
  "uuid \<Rightarrow> datetime \<Rightarrow> datetime \<Rightarrow> knowledge_db \<Rightarrow> document_error + knowledge_db"
where
  "close_open_version doc start now d =
    and_then (find_open_effective_version doc d) (\<lambda>row. case row of
      None \<Rightarrow> Inr d
    | Some r \<Rightarrow> and_then (case vr_effective_from r of
          Some f \<Rightarrow> raise_if (start \<le> f) (DocumentVersionInvalidEffectiveRange f start)
        | None \<Rightarrow> Inr ()) (\<lambda>_.
        close_effective_period doc (vr_id r) start now d))"

definition publish_version ::
  "uuid \<Rightarrow> uuid \<Rightarrow> datetime \<Rightarrow> datetime \<Rightarrow> knowledge_db \<Rightarrow> document_error + version_row \<times> knowledge_db"
where
  "publish_version doc v start now d =
    and_then (require_version_status doc v DRAFT PUBLISHED d) (\<lambda>_.
    and_then (close_open_version doc start now d) (\<lambda>d1.
    and_then (set_published doc v now start d1) (updated_or_missing doc v)))"

definition withdraw_version ::
  "uuid \<Rightarrow> uuid \<Rightarrow> datetime \<Rightarrow> datetime \<Rightarrow> knowledge_db \<Rightarrow> document_error + version_row \<times> knowledge_db"
where
  "withdraw_version doc v until now d =
    and_then (require_version_status doc v PUBLISHED WITHDRAWN d) (\<lambda>r.
    and_then (case vr_effective_from r of
        Some f \<Rightarrow> raise_if (until \<le> f) (DocumentVersionInvalidEffectiveRange f until)
      | None \<Rightarrow> Inr ()) (\<lambda>_.
    and_then (set_withdrawn doc v until now d) (updated_or_missing doc v)))"

definition archive_version ::
  "uuid \<Rightarrow> uuid \<Rightarrow> datetime \<Rightarrow> knowledge_db \<Rightarrow> document_error + version_row \<times> knowledge_db"
where
  "archive_version doc v now d =
    and_then (require_version_status doc v WITHDRAWN ARCHIVED d) (\<lambda>_.
    and_then (set_archived doc v now d) (updated_or_missing doc v))"

definition get_version :: "uuid \<Rightarrow> uuid \<Rightarrow> knowledge_db \<Rightarrow> document_error + version_row" where
  "get_version doc v d = and_then (find_version doc v d) (\<lambda>row. case row of
      None \<Rightarrow> Inl (DocumentVersionNotFound doc v) | Some r \<Rightarrow> Inr r)"

definition list_versions :: "uuid \<Rightarrow> knowledge_db \<Rightarrow> document_error + version_row list" where
  "list_versions doc d = and_then (require_active_version_document doc d) (\<lambda>_.
      Inr (list_versions_for_document doc d))"

definition get_effective_version ::
  "uuid \<Rightarrow> datetime option \<Rightarrow> datetime \<Rightarrow> knowledge_db \<Rightarrow> document_error + version_row option"
where
  "get_effective_version doc when now d =
    and_then (require_active_version_document doc d) (\<lambda>_. find_effective_at doc (coalesce when now) d)"

text \<open>Interleavings of the version transactions.\<close>

datatype version_op =
    CreateVersion uuid datetime uuid pystr "uuid option" json
  | PublishVersion uuid uuid datetime datetime
  | WithdrawVersion uuid uuid datetime datetime
  | ArchiveVersion uuid uuid datetime

fun version_exec :: "version_op \<Rightarrow> knowledge_db \<Rightarrow> knowledge_db" where
  "version_exec (CreateVersion v now doc label actor meta) d =
    db_after d (create_version v now doc label actor meta d)"
| "version_exec (PublishVersion doc v start now) d = db_after d (publish_version doc v start now d)"
| "version_exec (WithdrawVersion doc v until now) d = db_after d (withdraw_version doc v until now d)"
| "version_exec (ArchiveVersion doc v now) d = db_after d (archive_version doc v now d)"

section \<open>Periods that do not overlap\<close>

lemmas version_rows = publish_row_def close_row_def withdraw_row_def archive_row_def

lemma version_rows_keys [simp]:
  "vr_id (publish_row now start r) = vr_id r" "vr_document_id (publish_row now start r) = vr_document_id r"
  "vr_label (publish_row now start r) = vr_label r"
  "vr_id (close_row until now r) = vr_id r" "vr_document_id (close_row until now r) = vr_document_id r"
  "vr_label (close_row until now r) = vr_label r"
  "vr_id (withdraw_row until now r) = vr_id r" "vr_document_id (withdraw_row until now r) = vr_document_id r"
  "vr_label (withdraw_row until now r) = vr_label r"
  "vr_id (archive_row now r) = vr_id r" "vr_document_id (archive_row now r) = vr_document_id r"
  "vr_label (archive_row now r) = vr_label r"
  by (simp_all add: version_rows)

lemma periods_conflict_sym: "periods_conflict r s \<longleftrightarrow> periods_conflict s r"
  by (auto simp: periods_conflict_def split: option.splits)

lemma no_overlap_filter:
  "no_overlap t \<Longrightarrow> (\<And>r s. p r \<Longrightarrow> p s \<Longrightarrow> periods_conflict r s) \<Longrightarrow> length (filter p t) \<le> 1"
  by (induction t) (auto simp: list_all_iff filter_empty_conv)

lemma no_overlap_append:
  "no_overlap (t @ u) \<longleftrightarrow> no_overlap t \<and> no_overlap u \<and> (\<forall>r \<in> set t. \<forall>s \<in> set u. \<not> periods_conflict r s)"
  by (induction t) (auto simp: list_all_iff)

text \<open>An update of rows that only shrinks their periods keeps them disjoint.\<close>

lemma no_overlap_shrink:
  assumes "no_overlap t"
    and "\<And>r s. r \<in> set t \<Longrightarrow> s \<in> set t \<Longrightarrow> periods_conflict (f r) (f s) \<Longrightarrow> periods_conflict r s"
  shows "no_overlap (map f t)"
  using assms by (induction t) (auto simp: list_all_iff)

text \<open>An update of one row: the others keep their periods.\<close>

lemma no_overlap_update_one:
  assumes "distinct (map vr_id t)" and "no_overlap t"
    and "\<And>r s. r \<in> set t \<Longrightarrow> s \<in> set t \<Longrightarrow> vr_id r = v \<Longrightarrow> vr_id s \<noteq> v \<Longrightarrow> \<not> periods_conflict (f r) s"
  shows "no_overlap (map (\<lambda>r. if vr_id r = v \<and> q r then f r else r) t)"
  using assms
proof (induction t)
  case (Cons a t)
  have rest: "no_overlap (map (\<lambda>r. if vr_id r = v \<and> q r then f r else r) t)"
    using Cons by simp
  have "\<not> periods_conflict (if vr_id a = v \<and> q a then f a else a) (if vr_id s = v \<and> q s then f s else s)"
    if "s \<in> set t" for s
  proof -
    have ids: "vr_id s \<noteq> vr_id a"
      using Cons.prems(1) imageI [OF that, of vr_id] by force
    have old: "\<not> periods_conflict a s"
      using Cons.prems(2) that by (simp add: list_all_iff)
    show ?thesis
      using ids old Cons.prems(3) [of a s] Cons.prems(3) [of s a] that periods_conflict_sym [of a "f s"]
      by auto
  qed
  then show ?case using rest
    by (simp only: list.map no_overlap.simps list_all_iff set_map) blast
qed simp

lemma no_overlap_in:
  "no_overlap t \<Longrightarrow> r \<in> set t \<Longrightarrow> s \<in> set t \<Longrightarrow> vr_id r \<noteq> vr_id s \<Longrightarrow> \<not> periods_conflict r s"
  by (induction t) (auto simp: list_all_iff periods_conflict_sym)

section \<open>The invariant\<close>

text \<open>The declared constraints, and drafts without dates (a version is created that way).\<close>

definition draft_clean :: "version_row \<Rightarrow> bool" where
  "draft_clean r \<longleftrightarrow> vr_status r = DRAFT \<longrightarrow>
    vr_published_at r = None \<and> vr_effective_from r = None \<and> vr_effective_to r = None"

definition versions_ok :: "knowledge_db \<Rightarrow> bool" where
  "versions_ok d \<longleftrightarrow> satisfies (version_cs d) (kdb_versions d) \<and> list_all draft_clean (kdb_versions d)"

lemma version_cs_versions [simp]: "version_cs (d\<lparr>kdb_versions := t\<rparr>) = version_cs d"
  by (simp add: version_cs_def document_ids_def)

lemma snd_overlap: "satisfies (version_cs d) t \<Longrightarrow> no_overlap t"
  by (simp add: version_cs_def version_constraints_def overlap_constraint_def)

lemma versions_ok_facts:
  assumes "versions_ok d"
  shows "distinct (map vr_id (kdb_versions d))" and "no_overlap (kdb_versions d)"
  using assms by (simp_all add: versions_ok_def version_cs_def version_constraints_def)

lemma satisfies_version_cs:
  "satisfies (version_cs d) t \<longleftrightarrow> list_all effective_to_after_from t \<and> list_all published_requires_dates t \<and>
    list_all closed_requires_dates t \<and> no_overlap t \<and> distinct (map (\<lambda>r. (vr_document_id r, vr_label r)) t) \<and>
    distinct (map vr_id t) \<and> list_all (\<lambda>r. vr_document_id r \<in> set (document_ids d)) t"
  by (simp add: version_cs_def version_constraints_def)

lemma versions_ok_unique:
  assumes "versions_ok d"
  shows "distinct (map (\<lambda>r. (vr_document_id r, vr_label r)) (kdb_versions d))"
    and "distinct (map vr_id (kdb_versions d))"
  using assms by (simp_all add: versions_ok_def satisfies_version_cs)

lemma versions_ok_row:
  assumes "versions_ok d" and "r \<in> set (kdb_versions d)"
  shows "effective_to_after_from r" "published_requires_dates r" "closed_requires_dates r"
    "draft_clean r" "vr_document_id r \<in> set (document_ids d)"
  using assms by (auto simp: versions_ok_def version_cs_def version_constraints_def list_all_iff)

lemma in_effect_conflict: "in_effect doc when r \<Longrightarrow> in_effect doc when s \<Longrightarrow> periods_conflict r s"
  by (cases "vr_effective_from r"; cases "vr_effective_from s"; cases "vr_effective_to r";
      cases "vr_effective_to s") (auto simp: in_effect_def periods_conflict_def before_end_def)

lemma open_conflict: "open_version doc r \<Longrightarrow> open_version doc s \<Longrightarrow> periods_conflict r s"
  by (auto simp: open_version_def periods_conflict_def before_end_def)

lemma find_effective_at_eq:
  assumes "versions_ok d"
  shows "find_effective_at doc when d = Inr (find (in_effect doc when) (kdb_versions d))"
proof -
  have "length (filter (in_effect doc when) (kdb_versions d)) \<le> 1"
    by (intro no_overlap_filter versions_ok_facts(2) [OF assms] in_effect_conflict)
  then show ?thesis
    by (simp add: find_effective_at_def sql_select_def one_or_none_find)
qed

lemma find_open_effective_version_eq:
  assumes "versions_ok d"
  shows "find_open_effective_version doc d = Inr (find (open_version doc) (kdb_versions d))"
proof -
  have "length (filter (open_version doc) (kdb_versions d)) \<le> 1"
    by (intro no_overlap_filter versions_ok_facts(2) [OF assms] open_conflict)
  then show ?thesis
    by (simp add: find_open_effective_version_def sql_select_def one_or_none_find)
qed

lemma find_version_eq:
  assumes "versions_ok d"
  shows "find_version doc v d = Inr (case lookup vr_id v (kdb_versions d) of
    None \<Rightarrow> None | Some r \<Rightarrow> if vr_document_id r = doc then Some r else None)"
  using one_or_none_key [OF versions_ok_facts(1) [OF assms], of v "\<lambda>r. vr_document_id r = doc"]
  by (simp add: find_version_def version_of_def [abs_def])

text \<open>What each operation does to the table, and when it succeeds.\<close>

definition published_table :: "uuid \<Rightarrow> uuid \<Rightarrow> datetime \<Rightarrow> datetime \<Rightarrow> knowledge_db \<Rightarrow> version_row list" where
  "published_table doc v start now d = map (\<lambda>r. if vr_id r = v then publish_row now start r
    else if open_version doc r then close_row start now r else r) (kdb_versions d)"

lemma require_version_status_Inr:
  assumes "versions_ok d" and "require_version_status doc v expected target d = Inr r"
  shows "lookup vr_id v (kdb_versions d) = Some r" "vr_document_id r = doc" "vr_status r = expected"
  using assms(2) by (auto simp: require_version_status_def find_version_eq [OF assms(1)] and_then_Inr_iff
      raise_if_Inr_iff split: option.splits if_splits)

lemma require_version_status_ok:
  assumes "versions_ok d" and "lookup vr_id v (kdb_versions d) = Some r" "vr_document_id r = doc"
    "vr_status r = expected"
  shows "require_version_status doc v expected target d = Inr r"
  using assms(2-) by (simp add: require_version_status_def find_version_eq [OF assms(1)])

lemma version_of_row:
  assumes "versions_ok d" and "lookup vr_id v (kdb_versions d) = Some r" and "vr_document_id r = doc"
    and "x \<in> set (kdb_versions d)"
  shows "version_of doc v x \<longleftrightarrow> vr_id x = v"
proof
  assume "vr_id x = v"
  with lookup_unique [OF versions_ok_facts(1) [OF assms(1)] assms(4)] assms(2,3)
  show "version_of doc v x" by (simp add: version_of_def)
qed (simp add: version_of_def)

lemma sql_update_version:
  assumes "versions_ok d" and "lookup vr_id v (kdb_versions d) = Some r" and "vr_document_id r = doc"
  shows "sql_update (version_of doc v) f (kdb_versions d) =
    map (\<lambda>x. if vr_id x = v then f x else x) (kdb_versions d)"
  unfolding sql_update_def by (simp add: version_of_row [OF assms])

lemma updated_or_missing_Inr:
  "updated_or_missing doc v res = Inr (r, d') \<longleftrightarrow> res = (Some r, d')"
  by (cases res) (auto simp: updated_or_missing_def split: option.splits)

lemma create_version_effect:
  "create_version v now doc label actor meta d = Inr (r, d') \<Longrightarrow>
    d' = d\<lparr>kdb_versions := kdb_versions d @ [r]\<rparr> \<and> satisfies (version_cs d) (kdb_versions d') \<and>
    vr_status r = DRAFT \<and> draft_clean r \<and> vr_id r = v \<and> vr_document_id r = doc"
  by (auto simp: create_version_def create_version_row_def and_then_Inr_iff map_error_Inr_iff stmt_iffs
      draft_clean_def)

lemma withdraw_version_effect:
  assumes "versions_ok d" and "withdraw_version doc v until now d = Inr (r', d')"
  obtains r where "lookup vr_id v (kdb_versions d) = Some r" "vr_document_id r = doc" "vr_status r = PUBLISHED"
    "null_gt (Some until) (the (vr_effective_from r))"
    "d' = d\<lparr>kdb_versions := map (\<lambda>x. if vr_id x = v then withdraw_row until now x else x) (kdb_versions d)\<rparr>"
    "satisfies (version_cs d) (kdb_versions d')"
proof -
  from assms(2) obtain r where req: "require_version_status doc v PUBLISHED WITHDRAWN d = Inr r"
    by (auto simp: withdraw_version_def and_then_Inr_iff)
  note r = require_version_status_Inr [OF assms(1) req]
  from r lookup_SomeD [OF r(1)] versions_ok_row(2) [OF assms(1)] obtain f where "vr_effective_from r = Some f"
    by (auto simp: published_requires_dates_def)
  with assms(2) req sql_update_version [OF assms(1) r(1,2)] r show ?thesis
    by (intro that [of r]) (auto simp: withdraw_version_def set_withdrawn_def and_then_Inr_iff map_error_Inr_iff
        updated_or_missing_Inr stmt_iffs raise_if_Inr_iff)
qed

lemma archive_version_effect:
  assumes "versions_ok d" and "archive_version doc v now d = Inr (r', d')"
  obtains r where "lookup vr_id v (kdb_versions d) = Some r" "vr_document_id r = doc" "vr_status r = WITHDRAWN"
    "d' = d\<lparr>kdb_versions := map (\<lambda>x. if vr_id x = v then archive_row now x else x) (kdb_versions d)\<rparr>"
    "satisfies (version_cs d) (kdb_versions d')"
proof -
  from assms(2) obtain r where req: "require_version_status doc v WITHDRAWN ARCHIVED d = Inr r"
    by (auto simp: archive_version_def and_then_Inr_iff)
  note r = require_version_status_Inr [OF assms(1) req]
  with assms(2) req sql_update_version [OF assms(1) r(1,2)] show ?thesis
    by (intro that [of r]) (auto simp: archive_version_def set_archived_def and_then_Inr_iff map_error_Inr_iff
        updated_or_missing_Inr stmt_iffs)
qed

lemma find_unique_open:
  assumes "versions_ok d"
  shows "find (open_version doc) (kdb_versions d) = Some r \<longleftrightarrow> r \<in> set (kdb_versions d) \<and> open_version doc r"
proof
  assume r: "r \<in> set (kdb_versions d) \<and> open_version doc r"
  then obtain s where s: "find (open_version doc) (kdb_versions d) = Some s"
    by (cases "find (open_version doc) (kdb_versions d)") (auto simp: find_None_iff)
  then have in_s: "s \<in> set (kdb_versions d)" "open_version doc s" by (auto simp: find_Some_iff)
  have "vr_id r = vr_id s"
    using no_overlap_in [OF versions_ok_facts(2) [OF assms], of r s] r in_s open_conflict [of doc r s] by auto
  with r in_s versions_ok_facts(1) [OF assms] have "r = s" by (auto simp: distinct_map inj_on_def)
  with s show "find (open_version doc) (kdb_versions d) = Some r" by simp
qed (auto simp: find_Some_iff)

lemma close_open_version_effect:
  assumes "versions_ok d" and "close_open_version doc start now d = Inr d1"
  shows "d1 = d\<lparr>kdb_versions :=
      map (\<lambda>x. if open_version doc x then close_row start now x else x) (kdb_versions d)\<rparr>"
    and "satisfies (version_cs d) (kdb_versions d1)"
    and "\<And>s. s \<in> set (kdb_versions d) \<Longrightarrow> open_version doc s \<Longrightarrow> the (vr_effective_from s) < start"
proof -
  let ?ov = "find (open_version doc) (kdb_versions d)"
  have "d1 = d\<lparr>kdb_versions := map (\<lambda>x. if open_version doc x then close_row start now x else x) (kdb_versions d)\<rparr>
    \<and> satisfies (version_cs d) (kdb_versions d1)
    \<and> (\<forall>s \<in> set (kdb_versions d). open_version doc s \<longrightarrow> the (vr_effective_from s) < start)"
  proof (cases ?ov)
    case None
    then have none: "\<not> open_version doc x" if "x \<in> set (kdb_versions d)" for x
      using that by (auto simp: find_None_iff)
    then have "map (\<lambda>x. if open_version doc x then close_row start now x else x) (kdb_versions d) = kdb_versions d"
      by (simp add: map_idI)
    with None none assms show ?thesis
      by (auto simp: close_open_version_def find_open_effective_version_eq versions_ok_def)
  next
    case (Some r)
    with find_unique_open [OF assms(1)] have r: "r \<in> set (kdb_versions d)" "open_version doc r" by auto
    have only: "open_version doc x \<longleftrightarrow> vr_id x = vr_id r" if "x \<in> set (kdb_versions d)" for x
    proof
      assume "open_version doc x"
      with find_unique_open [OF assms(1), of doc x] that Some show "vr_id x = vr_id r" by simp
    next
      assume "vr_id x = vr_id r"
      with versions_ok_facts(1) [OF assms(1)] r(1) that have "x = r" by (auto simp: distinct_map inj_on_def)
      with r show "open_version doc x" by simp
    qed
    have look: "lookup vr_id (vr_id r) (kdb_versions d) = Some r" and doc: "vr_document_id r = doc"
      using lookup_unique [OF versions_ok_facts(1) [OF assms(1)] r(1)] r(2) by (auto simp: open_version_def)
    obtain f where f: "vr_effective_from r = Some f" using r(2) by (auto simp: open_version_def)
    have eq: "map (\<lambda>x. if open_version doc x then close_row start now x else x) (kdb_versions d) =
        map (\<lambda>x. if vr_id x = vr_id r then close_row start now x else x) (kdb_versions d)"
      by (simp add: only)
    have "f < start" and "satisfies (version_cs d) (kdb_versions d1)"
      and "d1 = d\<lparr>kdb_versions :=
        map (\<lambda>x. if open_version doc x then close_row start now x else x) (kdb_versions d)\<rparr>"
      using assms(2) Some f unfolding eq
      by (auto simp: close_open_version_def find_open_effective_version_eq [OF assms(1)] and_then_Inr_iff
          raise_if_Inr_iff close_effective_period_def map_error_Inr_iff stmt_iffs
          sql_update_version [OF assms(1) look doc])
    moreover have "the (vr_effective_from s) < start" if "s \<in> set (kdb_versions d)" "open_version doc s" for s
      using find_unique_open [OF assms(1), of doc s] that Some f \<open>f < start\<close> by auto
    ultimately show ?thesis by blast
  qed
  then show "d1 = d\<lparr>kdb_versions :=
      map (\<lambda>x. if open_version doc x then close_row start now x else x) (kdb_versions d)\<rparr>"
    and "satisfies (version_cs d) (kdb_versions d1)"
    and "\<And>s. s \<in> set (kdb_versions d) \<Longrightarrow> open_version doc s \<Longrightarrow> the (vr_effective_from s) < start"
    by blast+
qed

lemma draft_clean_close: "draft_clean r \<Longrightarrow> open_version doc r \<Longrightarrow> draft_clean (close_row until now r)"
  by (auto simp: draft_clean_def open_version_def close_row_def)

lemma close_open_version_ok:
  assumes "versions_ok d" and "close_open_version doc start now d = Inr d1"
  shows "versions_ok d1"
  using close_open_version_effect(1,2) [OF assms] assms(1)
  by (auto simp: versions_ok_def list_all_iff draft_clean_close)

lemma publish_version_effect:
  assumes "versions_ok d" and "publish_version doc v start now d = Inr (r', d')"
  obtains r where "lookup vr_id v (kdb_versions d) = Some r" "vr_document_id r = doc" "vr_status r = DRAFT"
    "\<And>s. s \<in> set (kdb_versions d) \<Longrightarrow> open_version doc s \<Longrightarrow> the (vr_effective_from s) < start"
    "d' = d\<lparr>kdb_versions := published_table doc v start now d\<rparr>"
    "satisfies (version_cs d) (kdb_versions d')" "r' = publish_row now start r"
proof -
  from assms(2) obtain r d1 where req: "require_version_status doc v DRAFT PUBLISHED d = Inr r"
    and close: "close_open_version doc start now d = Inr d1"
    and set: "set_published doc v now start d1 = Inr (Some r', d')"
    by (auto simp: publish_version_def and_then_Inr_iff updated_or_missing_Inr)
  note r = require_version_status_Inr [OF assms(1) req]
  note rin = lookup_SomeD [OF r(1)]
  note d1 = close_open_version_effect [OF assms(1) close]
  note ok1 = close_open_version_ok [OF assms(1) close]
  have closed: "\<not> open_version doc x" if "x \<in> set (kdb_versions d)" "vr_id x = v" for x
    using versions_ok_row(4) [OF assms(1)] rin r lookup_unique [OF versions_ok_facts(1) [OF assms(1)] that]
    by (auto simp: draft_clean_def open_version_def)
  have "r \<in> set (kdb_versions d1)" using rin closed [of r] by (force simp: d1(1))
  then have look: "lookup vr_id v (kdb_versions d1) = Some r"
    using rin by (intro lookup_unique [OF versions_ok_facts(1) [OF ok1]]) auto
  have "d' = d1\<lparr>kdb_versions := sql_update (version_of doc v) (publish_row now start) (kdb_versions d1)\<rparr>"
    and sat: "satisfies (version_cs d) (kdb_versions d')" and "r' = publish_row now start r"
    using set filter_key [OF versions_ok_facts(1) [OF ok1], of v "\<lambda>r. vr_document_id r = doc"] look r(2)
    by (auto simp: set_published_def and_then_Inr_iff map_error_Inr_iff stmt_iffs version_of_def [abs_def] d1(1))
  moreover have "sql_update (version_of doc v) (publish_row now start) (kdb_versions d1) =
      published_table doc v start now d"
    unfolding sql_update_version [OF ok1 look r(2)] published_table_def by (auto simp: d1(1) closed)
  ultimately show ?thesis
    using r d1(3) by (intro that [of r]) (auto simp: d1(1))
qed

section \<open>The life of one version\<close>

text \<open>
  The state machine of a version row: published from draft, its period closed when a later
  version is published, withdrawn from published, archived from withdrawn.
\<close>

inductive version_step :: "version_row \<Rightarrow> version_row \<Rightarrow> bool" where
  publish: "vr_status r = DRAFT \<Longrightarrow> version_step r (publish_row now start r)"
| close: "open_version doc r \<Longrightarrow> version_step r (close_row start now r)"
| withdraw: "vr_status r = PUBLISHED \<Longrightarrow> version_step r (withdraw_row until now r)"
| archive: "vr_status r = WITHDRAWN \<Longrightarrow> version_step r (archive_row now r)"

inductive_cases version_stepE: "version_step r r'"

instantiation version_status :: linorder
begin

primrec version_rank :: "version_status \<Rightarrow> nat" where
  "version_rank DRAFT = 0"
| "version_rank PUBLISHED = 1"
| "version_rank WITHDRAWN = 2"
| "version_rank ARCHIVED = 3"

definition less_eq_version_status :: "version_status \<Rightarrow> version_status \<Rightarrow> bool" where
  "less_eq_version_status s t \<longleftrightarrow> version_rank s \<le> version_rank t"

definition less_version_status :: "version_status \<Rightarrow> version_status \<Rightarrow> bool" where
  "less_version_status s t \<longleftrightarrow> version_rank s < version_rank t"

instance
proof
  fix x y z :: version_status
  show "x < y \<longleftrightarrow> x \<le> y \<and> \<not> y \<le> x"
    by (auto simp: less_eq_version_status_def less_version_status_def)
  show "x \<le> x" by (simp add: less_eq_version_status_def)
  show "x \<le> y \<Longrightarrow> y \<le> z \<Longrightarrow> x \<le> z" by (simp add: less_eq_version_status_def)
  show "x \<le> y \<Longrightarrow> y \<le> x \<Longrightarrow> x = y" by (cases x; cases y) (simp_all add: less_eq_version_status_def)
  show "x \<le> y \<or> y \<le> x" by (auto simp: less_eq_version_status_def)
qed

end

lemmas version_order = less_eq_version_status_def less_version_status_def

text \<open>What a row keeps along its life.\<close>

definition row_ok :: "version_row \<Rightarrow> bool" where
  "row_ok r \<longleftrightarrow> draft_clean r \<and> published_requires_dates r \<and> closed_requires_dates r"

lemma version_step_facts:
  assumes "version_step r r'" and "row_ok r"
  shows "row_ok r' \<and> vr_id r' = vr_id r \<and> vr_document_id r' = vr_document_id r \<and> vr_label r' = vr_label r \<and>
    vr_status r \<le> vr_status r' \<and> vr_status r \<noteq> ARCHIVED \<and>
    (vr_effective_from r \<noteq> None \<longrightarrow> vr_effective_from r' = vr_effective_from r) \<and>
    (vr_effective_to r \<noteq> None \<longrightarrow> vr_effective_to r' \<noteq> None)"
  using assms
  by (elim version_stepE; cases "vr_status r")
    (auto simp: row_ok_def draft_clean_def published_requires_dates_def closed_requires_dates_def
      version_rows version_order open_version_def)

lemma version_steps_facts:
  assumes "version_step\<^sup>*\<^sup>* r r'" and "row_ok r"
  shows "row_ok r' \<and> vr_id r' = vr_id r \<and> vr_document_id r' = vr_document_id r \<and> vr_label r' = vr_label r \<and>
    vr_status r \<le> vr_status r' \<and> (vr_status r = ARCHIVED \<longrightarrow> r' = r) \<and>
    (vr_effective_from r \<noteq> None \<longrightarrow> vr_effective_from r' = vr_effective_from r) \<and>
    (vr_effective_to r \<noteq> None \<longrightarrow> vr_effective_to r' \<noteq> None)"
  using assms
proof (induction rule: rtranclp_induct)
  case (step y z)
  from version_step_facts [OF step.hyps(2)] step show ?case by auto
qed simp

lemma versions_ok_row_ok: "versions_ok d \<Longrightarrow> r \<in> set (kdb_versions d) \<Longrightarrow> row_ok r"
  by (simp add: row_ok_def versions_ok_row)

text \<open>A transaction moves every row by at most one step, and keeps the invariant.\<close>

definition rows_step :: "version_row list \<Rightarrow> version_row list \<Rightarrow> bool" where
  "rows_step t t' \<longleftrightarrow> (\<exists>f new. t' = map f t @ new \<and> (\<forall>r \<in> set t. f r = r \<or> version_step r (f r)) \<and>
    list_all draft_clean new)"

lemma rows_step_refl: "rows_step t t"
  unfolding rows_step_def by (intro exI [of _ id] exI [of _ "[]"]) simp

lemma rows_step_map:
  "(\<And>r. r \<in> set t \<Longrightarrow> f r = r \<or> version_step r (f r)) \<Longrightarrow> rows_step t (map f t)"
  unfolding rows_step_def by (intro exI [of _ f] exI [of _ "[]"]) simp

lemma rows_step_append: "draft_clean r \<Longrightarrow> rows_step t (t @ [r])"
  unfolding rows_step_def by (intro exI [of _ id] exI [of _ "[r]"]) simp

lemma version_exec_step:
  assumes "versions_ok d"
  shows "rows_step (kdb_versions d) (kdb_versions (version_exec op d)) \<and>
    satisfies (version_cs (version_exec op d)) (kdb_versions (version_exec op d)) \<and>
    (\<exists>t. version_exec op d = d\<lparr>kdb_versions := t\<rparr>)"
proof -
  have here: ?thesis if "version_exec op d = d"
    using that assms rows_step_refl by (auto simp: versions_ok_def intro: exI [of _ "kdb_versions d"])
  have changed: ?thesis if "rows_step (kdb_versions d) t" "version_exec op d = d\<lparr>kdb_versions := t\<rparr>"
    "satisfies (version_cs d) t" for t
    using that by auto
  have unique: "vr_status x = vr_status r" if "lookup vr_id v (kdb_versions d) = Some r"
    "x \<in> set (kdb_versions d)" "vr_id x = v" for v r x
    using lookup_unique [OF versions_ok_facts(1) [OF assms] that(2,3)] that(1) by simp
  show ?thesis
  proof (cases op)
    case (CreateVersion v now doc label actor meta)
    show ?thesis
    proof (cases rule: db_after_cases [of d "create_version v now doc label actor meta d"])
      case (Done r d')
      with create_version_effect [OF Done(1)] CreateVersion show ?thesis
        by (intro changed [of "kdb_versions d @ [r]"]) (auto intro: rows_step_append)
    next
      case Raised
      then show ?thesis by (intro here) (simp add: CreateVersion)
    qed
  next
    case (PublishVersion doc v start now)
    show ?thesis
    proof (cases rule: db_after_cases [of d "publish_version doc v start now d"])
      case (Done r d')
      from publish_version_effect [OF assms Done(1)] obtain r0 where
        r0: "lookup vr_id v (kdb_versions d) = Some r0" "vr_status r0 = DRAFT" and
        d': "d' = d\<lparr>kdb_versions := published_table doc v start now d\<rparr>" "satisfies (version_cs d) (kdb_versions d')"
        by blast
      have "rows_step (kdb_versions d) (published_table doc v start now d)"
        unfolding published_table_def
        by (intro rows_step_map) (simp add: unique [OF r0(1)] r0(2) version_step.publish version_step.close)
      with d' Done(2) PublishVersion show ?thesis by (intro changed) auto
    next
      case Raised
      then show ?thesis by (intro here) (simp add: PublishVersion)
    qed
  next
    case (WithdrawVersion doc v until now)
    show ?thesis
    proof (cases rule: db_after_cases [of d "withdraw_version doc v until now d"])
      case (Done r d')
      from withdraw_version_effect [OF assms Done(1)] obtain r0 where
        r0: "lookup vr_id v (kdb_versions d) = Some r0" "vr_status r0 = PUBLISHED" and d': "d' = d\<lparr>kdb_versions :=
          map (\<lambda>x. if vr_id x = v then withdraw_row until now x else x) (kdb_versions d)\<rparr>"
          "satisfies (version_cs d) (kdb_versions d')" by blast
      have "rows_step (kdb_versions d) (kdb_versions d')"
        unfolding d' knowledge_db.simps
        by (simp, intro rows_step_map) (simp add: unique [OF r0(1)] r0(2) version_step.withdraw version_step.archive)
      with d' Done(2) WithdrawVersion show ?thesis by (intro changed) auto
    next
      case Raised
      then show ?thesis by (intro here) (simp add: WithdrawVersion)
    qed
  next
    case (ArchiveVersion doc v now)
    show ?thesis
    proof (cases rule: db_after_cases [of d "archive_version doc v now d"])
      case (Done r d')
      from archive_version_effect [OF assms Done(1)] obtain r0 where
        r0: "lookup vr_id v (kdb_versions d) = Some r0" "vr_status r0 = WITHDRAWN" and d': "d' = d\<lparr>kdb_versions :=
          map (\<lambda>x. if vr_id x = v then archive_row now x else x) (kdb_versions d)\<rparr>"
          "satisfies (version_cs d) (kdb_versions d')" by blast
      have "rows_step (kdb_versions d) (kdb_versions d')"
        unfolding d' knowledge_db.simps
        by (simp, intro rows_step_map) (simp add: unique [OF r0(1)] r0(2) version_step.withdraw version_step.archive)
      with d' Done(2) ArchiveVersion show ?thesis by (intro changed) auto
    next
      case Raised
      then show ?thesis by (intro here) (simp add: ArchiveVersion)
    qed
  qed
qed

lemma version_exec_ok:
  assumes "versions_ok d"
  shows "versions_ok (version_exec op d)"
proof -
  from version_exec_step [OF assms, of op] obtain f new where
    t': "kdb_versions (version_exec op d) = map f (kdb_versions d) @ new" and
    f: "\<And>r. r \<in> set (kdb_versions d) \<Longrightarrow> f r = r \<or> version_step r (f r)" and "list_all draft_clean new"
    by (auto simp: rows_step_def)
  have "draft_clean (f r)" if "r \<in> set (kdb_versions d)" for r
    using f [OF that] version_step_facts versions_ok_row_ok [OF assms that] by (force simp: row_ok_def)
  with t' \<open>list_all draft_clean new\<close> version_exec_step [OF assms, of op] show ?thesis
    by (auto simp: versions_ok_def list_all_iff)
qed

lemma version_run_ok: "versions_ok d \<Longrightarrow> versions_ok (fold version_exec ops d)"
  by (induction ops arbitrary: d) (simp_all add: version_exec_ok)

lemma version_row_step:
  assumes "versions_ok d" and "lookup vr_id v (kdb_versions d) = Some r"
  shows "\<exists>r'. lookup vr_id v (kdb_versions (version_exec op d)) = Some r' \<and> version_step\<^sup>*\<^sup>* r r'"
proof -
  from version_exec_step [OF assms(1), of op] obtain f new where
    t': "kdb_versions (version_exec op d) = map f (kdb_versions d) @ new" and
    f: "\<And>r. r \<in> set (kdb_versions d) \<Longrightarrow> f r = r \<or> version_step r (f r)"
    by (auto simp: rows_step_def)
  note r = lookup_SomeD [OF assms(2)]
  have "vr_id (f r) = v"
    using f [of r] r version_step_facts versions_ok_row_ok [OF assms(1), of r] by force
  with r t' have "lookup vr_id v (kdb_versions (version_exec op d)) = Some (f r)"
    by (intro lookup_unique versions_ok_facts(1) version_exec_ok assms(1)) auto
  with f [of r] r show ?thesis by (auto intro: r_into_rtranclp)
qed

lemma version_row_run:
  "versions_ok d \<Longrightarrow> lookup vr_id v (kdb_versions d) = Some r \<Longrightarrow>
    \<exists>r'. lookup vr_id v (kdb_versions (fold version_exec ops d)) = Some r' \<and> version_step\<^sup>*\<^sup>* r r'"
proof (induction ops arbitrary: d r)
  case (Cons op ops)
  from version_row_step [OF Cons.prems, of op] obtain r1 where
    "lookup vr_id v (kdb_versions (version_exec op d)) = Some r1" "version_step\<^sup>*\<^sup>* r r1" by blast
  with Cons.IH [OF version_exec_ok [OF Cons.prems(1), of op]] show ?case
    by (auto intro: rtranclp_trans)
qed auto

section \<open>Outcome of publishing\<close>

text \<open>The periods that a published version [start, infinity) would meet.\<close>

definition closed_after :: "uuid \<Rightarrow> datetime \<Rightarrow> version_row \<Rightarrow> bool" where
  "closed_after doc start r \<longleftrightarrow> vr_document_id r = doc \<and> vr_effective_from r \<noteq> None \<and>
    null_gt (vr_effective_to r) start"

lemma close_open_version_succeeds:
  assumes "versions_ok d"
    and "\<And>s. s \<in> set (kdb_versions d) \<Longrightarrow> open_version doc s \<Longrightarrow> the (vr_effective_from s) < start"
  shows "\<exists>d1. close_open_version doc start now d = Inr d1"
proof (cases "find (open_version doc) (kdb_versions d)")
  case None
  then show ?thesis by (simp add: close_open_version_def find_open_effective_version_eq [OF assms(1)])
next
  case (Some r)
  with find_unique_open [OF assms(1)] have r: "r \<in> set (kdb_versions d)" "open_version doc r" by auto
  then obtain f where f: "vr_effective_from r = Some f" "f < start" and doc: "vr_document_id r = doc"
    using assms(2) [of r] by (auto simp: open_version_def)
  have look: "lookup vr_id (vr_id r) (kdb_versions d) = Some r"
    using lookup_unique [OF versions_ok_facts(1) [OF assms(1)] r(1)] by simp
  have same: "x = r" if "x \<in> set (kdb_versions d)" "vr_id x = vr_id r" for x
    using lookup_unique [OF versions_ok_facts(1) [OF assms(1)] that] look by simp
  let ?t = "map (\<lambda>x. if vr_id x = vr_id r then close_row start now x else x) (kdb_versions d)"
  have row: "effective_to_after_from (close_row start now r)" "published_requires_dates (close_row start now r)"
    "closed_requires_dates (close_row start now r)"
    using versions_ok_row [OF assms(1) r(1)] f
    by (auto simp: effective_to_after_from_def published_requires_dates_def closed_requires_dates_def close_row_def)
  have shrink: "periods_conflict r s" if "periods_conflict (close_row start now r) s" for s
    using that r(2) by (auto simp: periods_conflict_def close_row_def open_version_def before_end_def
        split: option.splits)
  have shrink': "periods_conflict s r" if "periods_conflict s (close_row start now r)" for s
    using shrink [of s] that by (simp add: periods_conflict_sym [of s])
  have each: "list_all P ?t" if "\<And>y. y \<in> set (kdb_versions d) \<Longrightarrow> P y" "P (close_row start now r)" for P
    using that by (auto simp: list_all_iff dest: same)
  have "no_overlap ?t"
  proof (rule no_overlap_shrink [OF versions_ok_facts(2) [OF assms(1)]])
    fix x y
    assume xy: "x \<in> set (kdb_versions d)" "y \<in> set (kdb_versions d)"
      "periods_conflict (if vr_id x = vr_id r then close_row start now x else x)
         (if vr_id y = vr_id r then close_row start now y else y)"
    have self: "periods_conflict r r" using r(2) by (rule open_conflict) (rule r(2))
    show "periods_conflict x y"
      using xy(3) same [OF xy(1)] same [OF xy(2)] self shrink [of y] shrink' [of x]
      by (cases "vr_id x = vr_id r"; cases "vr_id y = vr_id r") auto
  qed
  moreover have "distinct (map vr_id ?t)" "distinct (map (\<lambda>r. (vr_document_id r, vr_label r)) ?t)"
    using versions_ok_unique [OF assms(1)] by (simp_all add: o_def if_distrib cong: if_cong)
  moreover have "list_all (\<lambda>x. vr_document_id x \<in> set (document_ids d)) ?t"
    by (rule each) (use versions_ok_row(5) [OF assms(1)] r in auto)
  moreover have "list_all effective_to_after_from ?t" "list_all published_requires_dates ?t"
      "list_all closed_requires_dates ?t"
    by (rule each; use versions_ok_row [OF assms(1)] row in blast)+
  ultimately have "satisfies (version_cs d) ?t"
    by (simp only: satisfies_version_cs)
  with f Some look doc show ?thesis
    by (simp add: close_open_version_def find_open_effective_version_eq [OF assms(1)] close_effective_period_def
        sql_update_version [OF assms(1) look doc] update_stmt_def sql_write_ok)
qed

lemma violated_overlap:
  assumes "list_all effective_to_after_from t" "list_all published_requires_dates t"
    "list_all closed_requires_dates t" "\<not> no_overlap t"
  shows "violated (version_cs d) t = Some overlap_constraint"
  using assms by (simp add: version_cs_def version_constraints_def violated_def check_def)

lemma publish_outcome_rows:
  assumes ok: "versions_ok d" and look: "lookup vr_id v (kdb_versions d) = Some r"
    and doc: "vr_document_id r = doc" and draft: "vr_status r = DRAFT"
    and before: "\<And>s. s \<in> set (kdb_versions d) \<Longrightarrow> open_version doc s \<Longrightarrow> the (vr_effective_from s) < start"
    and x: "x \<in> set (published_table doc v start now d)"
  shows "effective_to_after_from x" "published_requires_dates x" "closed_requires_dates x"
proof -
  from x obtain s where s: "s \<in> set (kdb_versions d)" and
    x: "x = (if vr_id s = v then publish_row now start s
      else if open_version doc s then close_row start now s else s)"
    by (auto simp: published_table_def)
  have "draft_clean r" "vr_id s = v \<Longrightarrow> s = r"
    using versions_ok_row(4) [OF ok, of r] lookup_SomeD [OF look] lookup_unique [OF versions_ok_facts(1) [OF ok] s] look
    by auto
  with x draft have "vr_id s = v \<Longrightarrow> effective_to_after_from x \<and> published_requires_dates x \<and> closed_requires_dates x"
    by (simp add: effective_to_after_from_def published_requires_dates_def closed_requires_dates_def publish_row_def
        draft_clean_def)
  moreover have "effective_to_after_from x \<and> published_requires_dates x \<and> closed_requires_dates x"
    if "vr_id s \<noteq> v"
  proof (cases "open_version doc s")
    case True
    with before [OF s] obtain f where "vr_effective_from s = Some f" "f < start"
      by (auto simp: open_version_def)
    with versions_ok_row [OF ok s] True that x show ?thesis
      by (auto simp: effective_to_after_from_def published_requires_dates_def closed_requires_dates_def close_row_def)
  qed (use versions_ok_row [OF ok s] that x in simp)
  ultimately show "effective_to_after_from x" "published_requires_dates x" "closed_requires_dates x" by blast+
qed

lemma publish_conflicts:
  assumes ok: "versions_ok d" and look: "lookup vr_id v (kdb_versions d) = Some r"
    and doc: "vr_document_id r = doc" and draft: "vr_status r = DRAFT"
    and close: "close_open_version doc start now d = Inr d1"
  shows "no_overlap (published_table doc v start now d) \<longleftrightarrow> \<not> (\<exists>s \<in> set (kdb_versions d). closed_after doc start s)"
proof -
  let ?t1 = "kdb_versions d1" and ?t' = "published_table doc v start now d"
  note r = lookup_SomeD [OF look]
  note same = lookup_unique [OF versions_ok_facts(1) [OF ok]]
  have clean: "vr_effective_from r = None" "vr_effective_to r = None"
    using versions_ok_row(4) [OF ok] r draft by (auto simp: draft_clean_def)
  note t1 = close_open_version_effect(1) [OF ok close]
  note ok1 = close_open_version_ok [OF ok close]
  have r1: "r \<in> set ?t1" using r clean by (force simp: t1 open_version_def)
  have in1: "x \<in> set ?t1 \<Longrightarrow> vr_id x = v \<Longrightarrow> x = r" for x
    using lookup_unique [OF versions_ok_facts(1) [OF ok1]] r1 r by (metis option.inject)
  have vclosed: "\<not> open_version doc x" if "x \<in> set (kdb_versions d)" "vr_id x = v" for x
    using same [OF that] look clean by (auto simp: open_version_def)
  have eq: "?t' = map (\<lambda>x. if vr_id x = v \<and> True then publish_row now start x else x) ?t1"
    by (auto simp: t1 published_table_def vclosed)
  show ?thesis
  proof (cases "\<exists>s \<in> set (kdb_versions d). closed_after doc start s")
    case True
    then obtain s where s: "s \<in> set (kdb_versions d)" "closed_after doc start s" by blast
    then have "\<not> open_version doc s" by (cases "vr_effective_to s") (auto simp: closed_after_def open_version_def)
    moreover have sv: "vr_id s \<noteq> v" using same [OF s(1)] look s(2) clean by (auto simp: closed_after_def)
    ultimately have "s \<in> set ?t'" "publish_row now start r \<in> set ?t'"
      using s r by (force simp: published_table_def)+
    moreover have "periods_conflict (publish_row now start r) s"
      using s(2) doc clean by (auto simp: periods_conflict_def closed_after_def before_end_def publish_row_def
          split: option.splits)
    moreover have "vr_id (publish_row now start r) \<noteq> vr_id s" using sv r by simp
    ultimately have "\<not> no_overlap ?t'" using no_overlap_in by blast
    with True show ?thesis by simp
  next
    case False
    have "no_overlap ?t'" unfolding eq
    proof (rule no_overlap_update_one [OF versions_ok_facts(1,2) [OF ok1]])
      fix x s assume x: "x \<in> set ?t1" "vr_id x = v" and s: "s \<in> set ?t1" "vr_id s \<noteq> v"
      from s obtain s0 where s0: "s0 \<in> set (kdb_versions d)"
        "s = (if open_version doc s0 then close_row start now s0 else s0)" by (auto simp: t1)
      with False have "\<not> closed_after doc start s0" by blast
      with s0(2) show "\<not> periods_conflict (publish_row now start x) s"
        using in1 [OF x] clean doc by (auto simp: periods_conflict_def before_end_def closed_after_def
            open_version_def publish_row_def close_row_def split: option.splits if_splits)
    qed
    with False show ?thesis by simp
  qed
qed

lemma publish_version_outcome:
  assumes ok: "versions_ok d" and look: "lookup vr_id v (kdb_versions d) = Some r"
    and doc: "vr_document_id r = doc" and draft: "vr_status r = DRAFT"
    and before: "\<And>s. s \<in> set (kdb_versions d) \<Longrightarrow> open_version doc s \<Longrightarrow> the (vr_effective_from s) < start"
  shows "publish_version doc v start now d =
    (if \<exists>s \<in> set (kdb_versions d). closed_after doc start s then Inl (DocumentVersionOverlap doc v)
     else Inr (publish_row now start r, d\<lparr>kdb_versions := published_table doc v start now d\<rparr>))"
proof -
  from close_open_version_succeeds [OF ok before] obtain d1 where close: "close_open_version doc start now d = Inr d1"
    by blast
  let ?t' = "published_table doc v start now d"
  note t1 = close_open_version_effect(1) [OF ok close]
  note ok1 = close_open_version_ok [OF ok close]
  have clean: "vr_effective_from r = None"
    using versions_ok_row(4) [OF ok] lookup_SomeD [OF look] draft by (auto simp: draft_clean_def)
  have "r \<in> set (kdb_versions d1)" using lookup_SomeD [OF look] clean by (force simp: t1 open_version_def)
  then have look1: "lookup vr_id v (kdb_versions d1) = Some r"
    using lookup_SomeD [OF look] by (intro lookup_unique [OF versions_ok_facts(1) [OF ok1]]) auto
  have vclosed: "\<not> open_version doc x" if "x \<in> set (kdb_versions d)" "vr_id x = v" for x
    using lookup_unique [OF versions_ok_facts(1) [OF ok] that] look clean by (auto simp: open_version_def)
  have upd: "sql_update (version_of doc v) (publish_row now start) (kdb_versions d1) = ?t'"
    unfolding sql_update_version [OF ok1 look1 doc] published_table_def by (auto simp: t1 vclosed)
  have rows: "map (publish_row now start) (filter (version_of doc v) (kdb_versions d1)) = [publish_row now start r]"
    using filter_key [OF versions_ok_facts(1) [OF ok1], of v "\<lambda>r. vr_document_id r = doc"] look1 doc
    by (simp add: version_of_def [abs_def])
  have steps: "publish_version doc v start now d =
      and_then (set_published doc v now start d1) (updated_or_missing doc v)"
    by (simp add: publish_version_def require_version_status_ok [OF ok look doc draft] close)
  have cs1: "version_cs d1 = version_cs d" by (simp add: t1)
  note checks = publish_outcome_rows [OF ok look doc draft before, of _ now]
  have lists: "list_all effective_to_after_from ?t'" "list_all published_requires_dates ?t'"
    "list_all closed_requires_dates ?t'"
    unfolding list_all_iff using checks by blast+
  note overlap = publish_conflicts [OF ok look doc draft close]
  show ?thesis
  proof (cases "\<exists>s \<in> set (kdb_versions d). closed_after doc start s")
    case True
    with overlap have "violated (version_cs d) ?t' = Some overlap_constraint"
      by (intro violated_overlap lists) simp
    with True show ?thesis
      by (simp add: steps set_published_def update_returning_def sql_write_def upd cs1 translate_integrity_error_def)
  next
    case False
    have "map vr_id ?t' = map vr_id (kdb_versions d)"
      "map (\<lambda>r. (vr_document_id r, vr_label r)) ?t' = map (\<lambda>r. (vr_document_id r, vr_label r)) (kdb_versions d)"
      by (auto simp: published_table_def)
    moreover have "list_all (\<lambda>r. vr_document_id r \<in> set (document_ids d)) ?t'"
      using versions_ok_row(5) [OF ok] by (auto simp: list_all_iff published_table_def)
    ultimately have "satisfies (version_cs d) ?t'"
      using lists overlap False ok by (simp add: versions_ok_def version_cs_def version_constraints_def)
    with False show ?thesis
      by (simp add: steps set_published_def update_returning_def sql_write_ok upd cs1 rows updated_or_missing_def)
        (simp add: t1)
  qed
qed

text \<open>The identifier that \<open>find_effective_at\<close> answers with.\<close>

definition effective_id :: "uuid \<Rightarrow> datetime \<Rightarrow> knowledge_db \<Rightarrow> uuid option" where
  "effective_id doc when d = (case find_effective_at doc when d of
      Inr (Some r) \<Rightarrow> Some (vr_id r) | _ \<Rightarrow> None)"

lemma effective_id_eq:
  "versions_ok d \<Longrightarrow> effective_id doc when d = map_option vr_id (find (in_effect doc when) (kdb_versions d))"
  by (simp add: effective_id_def find_effective_at_eq split: option.split)

lemma find_map_same:
  "(\<And>x. x \<in> set xs \<Longrightarrow> p (g x) \<longleftrightarrow> p x) \<Longrightarrow> find p (map g xs) = map_option g (find p xs)"
  by (induction xs) auto

lemma find_is:
  assumes "versions_ok d" and "r \<in> set (kdb_versions d)" and "in_effect doc when r"
  shows "find (in_effect doc when) (kdb_versions d) = Some r"
proof -
  from assms(2,3) obtain s where s: "find (in_effect doc when) (kdb_versions d) = Some s"
    by (cases "find (in_effect doc when) (kdb_versions d)") (auto simp: find_None_iff)
  then have "s \<in> set (kdb_versions d)" "in_effect doc when s" by (auto simp: find_Some_iff)
  with assms no_overlap_in [OF versions_ok_facts(2) [OF assms(1)], of r s] in_effect_conflict [of doc "when" r s]
    versions_ok_facts(1) [OF assms(1)] have "r = s" by (auto simp: distinct_map inj_on_def)
  with s show ?thesis by simp
qed

lemma publish_keeps_the_past:
  assumes ok: "versions_ok d" and look: "lookup vr_id v (kdb_versions d) = Some r"
    and doc: "vr_document_id r = doc" and draft: "vr_status r = DRAFT"
    and ok': "versions_ok (d\<lparr>kdb_versions := published_table doc v start now d\<rparr>)" (is "versions_ok ?d'")
    and other: "when < start \<or> doc' \<noteq> doc"
  shows "effective_id doc' when ?d' = effective_id doc' when d"
proof -
  have vr: "vr_document_id x = doc \<and> \<not> in_effect doc' when x" if "x \<in> set (kdb_versions d)" "vr_id x = v" for x
    using lookup_unique [OF versions_ok_facts(1) [OF ok] that] look doc draft versions_ok_row(4) [OF ok that(1)]
    by (auto simp: draft_clean_def in_effect_def)
  let ?g = "\<lambda>x. if vr_id x = v then publish_row now start x
      else if open_version doc x then close_row start now x else x"
  have "in_effect doc' when (?g x) \<longleftrightarrow> in_effect doc' when x" if "x \<in> set (kdb_versions d)" for x
    using vr [OF that] other
    by (cases "vr_effective_from x") (auto simp: in_effect_def publish_row_def close_row_def open_version_def)
  from find_map_same [of "kdb_versions d" "in_effect doc' when" ?g, OF this] show ?thesis
    unfolding effective_id_eq [OF ok] effective_id_eq [OF ok']
    by (cases "find (in_effect doc' when) (kdb_versions d)") (simp_all add: published_table_def)
qed

section \<open>Properties\<close>

definition sample_version :: "uuid \<Rightarrow> pystr \<Rightarrow> version_row" where
  "sample_version v label = \<lparr>vr_id = v, vr_document_id = 1, vr_label = label, vr_effective_from = None,
    vr_effective_to = None, vr_published_at = None, vr_status = DRAFT, vr_created_by = None,
    vr_metadata = JObj [], vr_created_at = 0, vr_updated_at = 0\<rparr>"

text \<open>One published open version, from 10, and a draft.\<close>

definition sample_versions :: knowledge_db where
  "sample_versions = sample_knowledge\<lparr>kdb_versions :=
    [publish_row 5 10 (sample_version 11 [49]), sample_version 12 [50]]\<rparr>"

text \<open>The first version closed at 100 by the second one.\<close>

definition sample_history :: knowledge_db where
  "sample_history = sample_knowledge\<lparr>kdb_versions :=
    [close_row 100 50 (publish_row 5 10 (sample_version 11 [49])), publish_row 50 100 (sample_version 12 [50])]\<rparr>"

lemmas sample_version_defs = sample_versions_def sample_history_def sample_knowledge_def sample_document_row_def
  sample_version_def version_rows document_ids_def effective_to_after_from_def published_requires_dates_def
  closed_requires_dates_def draft_clean_def periods_conflict_def before_end_def

lemma sample_versions_ok: "versions_ok sample_versions" "versions_ok sample_history"
  by (simp_all add: versions_ok_def satisfies_version_cs sample_version_defs)

text \<open>
  C15. At every instant at most one version of a document is in effect. In every database
  that version transactions lead to, \<open>find_effective_at\<close> never raises
  \<open>MultipleResultsFound\<close>: it returns the one version whose period contains the instant,
  and \<open>None\<close> only when there is none.
\<close>

theorem effective_version_is_unique:
  assumes "versions_ok d"
  shows "\<exists>row. find_effective_at doc when (fold version_exec ops d) = Inr row \<and>
    (\<forall>r \<in> set (kdb_versions (fold version_exec ops d)). in_effect doc when r \<longleftrightarrow> row = Some r)"
proof -
  let ?d = "fold version_exec ops d"
  have ok: "versions_ok ?d" by (rule version_run_ok [OF assms])
  have "in_effect doc when r \<longleftrightarrow> find (in_effect doc when) (kdb_versions ?d) = Some r"
    if "r \<in> set (kdb_versions ?d)" for r
    using find_is [OF ok that] by (auto simp: find_Some_iff)
  with find_effective_at_eq [OF ok] show ?thesis by blast
qed

theorem effective_version_is_unique_witness:
  "\<exists>row. find_effective_at 1 70 (fold version_exec [PublishVersion 1 12 60 55] sample_versions) = Inr row"
  using effective_version_is_unique [OF sample_versions_ok(1), of 1 70 "[PublishVersion 1 12 60 55]"] by blast

text \<open>
  C14. The outcome of publishing a draft whose start comes after the start of the version
  now open: it fails with \<open>DocumentVersionOverlap\<close> exactly when a closed version reaches
  past the new start. Otherwise it commits, and from the new start on the published version is
  the effective one; before it every lookup finds the same version as it did.
\<close>

theorem publish_switches_effective_version:
  assumes "versions_ok d" and "lookup vr_id v (kdb_versions d) = Some r" and "vr_document_id r = doc"
    and "vr_status r = DRAFT"
    and "\<forall>s \<in> set (kdb_versions d). open_version doc s \<longrightarrow> the (vr_effective_from s) < start"
  shows "if \<exists>s \<in> set (kdb_versions d). closed_after doc start s
    then publish_version doc v start now d = Inl (DocumentVersionOverlap doc v)
    else \<exists>d'. publish_version doc v start now d = Inr (publish_row now start r, d') \<and>
      (\<forall>when. start \<le> when \<longrightarrow> find_effective_at doc when d' = Inr (Some (publish_row now start r))) \<and>
      (\<forall>when. when < start \<longrightarrow> effective_id doc when d' = effective_id doc when d) \<and>
      (\<forall>doc' when. doc' \<noteq> doc \<longrightarrow> effective_id doc' when d' = effective_id doc' when d)"
proof (cases "\<exists>s \<in> set (kdb_versions d). closed_after doc start s")
  case False
  let ?d' = "d\<lparr>kdb_versions := published_table doc v start now d\<rparr>"
  have publish: "publish_version doc v start now d = Inr (publish_row now start r, ?d')"
    using publish_version_outcome [OF assms(1-4), of start now] assms(5) False by simp
  have ok': "versions_ok ?d'"
    using version_exec_ok [OF assms(1), of "PublishVersion doc v start now"] publish by simp
  have "publish_row now start r \<in> set (kdb_versions ?d')"
    using lookup_SomeD [OF assms(2)] by (force simp: published_table_def)
  moreover have "in_effect doc when (publish_row now start r)" if "start \<le> when" for "when"
    using that assms(3,4) versions_ok_row(4) [OF assms(1)] lookup_SomeD [OF assms(2)]
    by (auto simp: in_effect_def publish_row_def draft_clean_def)
  ultimately have "find_effective_at doc when ?d' = Inr (Some (publish_row now start r))" if "start \<le> when" for "when"
    unfolding find_effective_at_eq [OF ok'] using find_is [OF ok'] that by blast
  with False publish publish_keeps_the_past [OF assms(1-4) ok'] show ?thesis by auto
qed (use publish_version_outcome [OF assms(1-4), of start now] assms(5) in simp)

theorem publish_switches_effective_version_witness:
  "\<exists>r d'. publish_version 1 12 60 55 sample_versions = Inr (r, d') \<and>
    find_effective_at 1 70 d' = Inr (Some r) \<and> effective_id 1 30 d' = Some 11"
proof -
  have "lookup vr_id 12 (kdb_versions sample_versions) = Some (sample_version 12 [50])"
    by (simp add: sample_version_defs)
  moreover have "effective_id 1 30 sample_versions = Some 11"
    unfolding effective_id_eq [OF sample_versions_ok(1)] by (simp add: in_effect_def sample_version_defs)
  ultimately show ?thesis
    using publish_switches_effective_version [OF sample_versions_ok(1), of 12 "sample_version 12 [50]" 1 60 55]
    by (auto simp: sample_version_defs open_version_def closed_after_def)
qed

text \<open>
  The life of a version. Through any transactions a version keeps its row, which moves
  only along draft, published, withdrawn, archived; its identity, document and label never
  change, nor does the start of its period once it has one, a closed period never opens
  again, and an archived row does not change at all.
\<close>

theorem version_lifecycle:
  assumes "versions_ok d" and "lookup vr_id v (kdb_versions d) = Some r"
  shows "\<exists>r'. lookup vr_id v (kdb_versions (fold version_exec ops d)) = Some r' \<and> version_step\<^sup>*\<^sup>* r r' \<and>
    vr_document_id r' = vr_document_id r \<and> vr_label r' = vr_label r \<and> vr_status r \<le> vr_status r' \<and>
    (vr_status r = ARCHIVED \<longrightarrow> r' = r) \<and>
    (vr_effective_from r \<noteq> None \<longrightarrow> vr_effective_from r' = vr_effective_from r) \<and>
    (vr_effective_to r \<noteq> None \<longrightarrow> vr_effective_to r' \<noteq> None)"
proof -
  from version_row_run [OF assms] obtain r' where
    r': "lookup vr_id v (kdb_versions (fold version_exec ops d)) = Some r'" "version_step\<^sup>*\<^sup>* r r'" by blast
  from version_steps_facts [OF r'(2) versions_ok_row_ok [OF assms(1)]] lookup_SomeD [OF assms(2)] r' show ?thesis
    by auto
qed

theorem version_lifecycle_witness:
  "\<exists>r'. lookup vr_id 11 (kdb_versions (fold version_exec [PublishVersion 1 12 60 55, WithdrawVersion 1 11 50 56,
      ArchiveVersion 1 11 57] sample_versions)) = Some r' \<and> vr_effective_from r' = Some 10 \<and> PUBLISHED \<le> vr_status r'"
proof -
  have "lookup vr_id 11 (kdb_versions sample_versions) = Some (publish_row 5 10 (sample_version 11 [49]))"
    by (simp add: sample_version_defs)
  from version_lifecycle [OF sample_versions_ok(1) this, of "[PublishVersion 1 12 60 55, WithdrawVersion 1 11 50 56,
      ArchiveVersion 1 11 57]"] show ?thesis by (auto simp: publish_row_def)
qed

text \<open>
  Withdrawing a published version whose period another version already follows, with an
  end past the follower's start, violates the exclusion constraint, and \<open>set_withdrawn\<close> does
  not translate the error as \<open>set_published\<close> does: the caller sees a raw \<open>IntegrityError\<close>.
\<close>

theorem withdraw_past_successor_raises:
  assumes "versions_ok d" and "lookup vr_id v (kdb_versions d) = Some r" and "vr_document_id r = doc"
    and "vr_status r = PUBLISHED" and "vr_effective_from r = Some f" and "f < until"
    and "s \<in> set (kdb_versions d)" and "vr_document_id s = doc" and "vr_id s \<noteq> v"
    and "vr_effective_from s = Some g" and "f \<le> g" and "g < until"
  shows "withdraw_version doc v until now d = Inl (DbError (IntegrityError overlap_constraint))"
proof -
  let ?t = "map (\<lambda>x. if vr_id x = v then withdraw_row until now x else x) (kdb_versions d)"
  note r = lookup_SomeD [OF assms(2)]
  have same: "x = r" if "x \<in> set (kdb_versions d)" "vr_id x = v" for x
    using lookup_unique [OF versions_ok_facts(1) [OF assms(1)] that] assms(2) by simp
  have each: "list_all P ?t" if "\<And>y. y \<in> set (kdb_versions d) \<Longrightarrow> P y" "P (withdraw_row until now r)" for P
    using that by (auto simp: list_all_iff dest: same)
  have row: "effective_to_after_from (withdraw_row until now r)" "published_requires_dates (withdraw_row until now r)"
    "closed_requires_dates (withdraw_row until now r)"
    using versions_ok_row [OF assms(1)] r assms(4-6)
    by (auto simp: effective_to_after_from_def published_requires_dates_def closed_requires_dates_def withdraw_row_def)
  have "list_all effective_to_after_from ?t" "list_all published_requires_dates ?t" "list_all closed_requires_dates ?t"
    by (rule each; use versions_ok_row [OF assms(1)] row in blast)+
  moreover have "effective_to_after_from s" using versions_ok_row(1) [OF assms(1,7)] .
  then have "periods_conflict (withdraw_row until now r) s"
    using assms by (auto simp: periods_conflict_def withdraw_row_def before_end_def effective_to_after_from_def
        split: option.splits)
  then have "\<not> no_overlap ?t"
    using no_overlap_in [of ?t "withdraw_row until now r" s] r assms(7,9) by force
  ultimately have "violated (version_cs d) ?t = Some overlap_constraint"
    by (rule violated_overlap)
  with require_version_status_ok [OF assms(1-4)] assms(5,6) show ?thesis
    by (simp add: withdraw_version_def set_withdrawn_def update_returning_def sql_write_def
        sql_update_version [OF assms(1-3)])
qed

theorem withdraw_past_successor_raises_witness:
  "withdraw_version 1 11 150 120 sample_history = Inl (DbError (IntegrityError overlap_constraint))"
proof -
  have "lookup vr_id 11 (kdb_versions sample_history) = Some (close_row 100 50 (publish_row 5 10 (sample_version 11 [49])))"
    by (simp add: sample_version_defs)
  from withdraw_past_successor_raises [OF sample_versions_ok(2) this, of 1 10 150
      "publish_row 50 100 (sample_version 12 [50])" 100 120] show ?thesis
    by (simp add: sample_version_defs)
qed

end
