(* ===== verification/Artifacts.thy ===== *)
theory Artifacts
  imports Versions
begin

text \<open>
  Document artifacts: the constraints of \<open>models/document_artifact.py\<close>, the statements of
  \<open>repositories/document_artifact.py\<close> and the services \<open>document_artifact_management.py\<close> and
  \<open>document_artifact_query.py\<close>; then the transactions of the whole knowledge module run
  together, to show what a published version guarantees.
\<close>

section \<open>Constraints\<close>

definition version_ids :: "knowledge_db \<Rightarrow> uuid list" where
  "version_ids d = map vr_id (kdb_versions d)"

definition artifact_constraints :: "uuid list \<Rightarrow> artifact_row constraint list" where
  "artifact_constraints versions =
    [check ''ck_document_artifacts_document_artifact_file_size_non_negative'' (\<lambda>r. 0 \<le> ar_file_size_bytes r),
     unique_index ''uq_document_artifacts_version_artifact_key'' (\<lambda>_. True)
       (\<lambda>r. (ar_version_id r, ar_key r)),
     unique_index ''uq_document_artifacts_storage_location'' (\<lambda>_. True)
       (\<lambda>r. (ar_storage_provider r, ar_storage_key r)),
     unique_index ''pk_document_artifacts'' (\<lambda>_. True) ar_id,
     check ''fk_document_artifacts_document_version_id_document_versions''
       (\<lambda>r. ar_version_id r \<in> set versions)]"

definition artifact_cs :: "knowledge_db \<Rightarrow> artifact_row constraint list" where
  "artifact_cs d = artifact_constraints (version_ids d)"

section \<open>The repository\<close>

definition artifact_of :: "uuid \<Rightarrow> uuid \<Rightarrow> artifact_row \<Rightarrow> bool" where
  "artifact_of v a r \<longleftrightarrow> ar_id r = a \<and> ar_version_id r = v"

definition find_for_ingestion :: "uuid \<Rightarrow> knowledge_db \<Rightarrow> document_error + artifact_row option" where
  "find_for_ingestion a d =
    map_error DbError (one_or_none (sql_select (\<lambda>r. ar_id r = a) (kdb_artifacts d)))"

definition find_artifact :: "uuid \<Rightarrow> uuid \<Rightarrow> knowledge_db \<Rightarrow> document_error + artifact_row option" where
  "find_artifact v a d =
    map_error DbError (one_or_none (sql_select (artifact_of v a) (kdb_artifacts d)))"

definition find_by_version_and_key ::
  "uuid \<Rightarrow> pystr \<Rightarrow> knowledge_db \<Rightarrow> document_error + artifact_row option"
where
  "find_by_version_and_key v key d = map_error DbError
    (one_or_none (sql_select (\<lambda>r. ar_version_id r = v \<and> ar_key r = key) (kdb_artifacts d)))"

definition artifact_key_exists :: "uuid \<Rightarrow> pystr \<Rightarrow> knowledge_db \<Rightarrow> bool" where
  "artifact_key_exists v key d =
    sql_exists (\<lambda>r. ar_version_id r = v \<and> ar_key r = key) (kdb_artifacts d)"

definition storage_key_exists :: "pystr \<Rightarrow> pystr \<Rightarrow> knowledge_db \<Rightarrow> bool" where
  "storage_key_exists provider key d =
    sql_exists (\<lambda>r. ar_storage_provider r = provider \<and> ar_storage_key r = key) (kdb_artifacts d)"

definition list_artifacts_for_version :: "uuid \<Rightarrow> bool \<Rightarrow> knowledge_db \<Rightarrow> artifact_row list" where
  "list_artifacts_for_version v include_deleted d = sort_key (\<lambda>r. (ar_created_at r, ar_id r))
    (sql_select (\<lambda>r. ar_version_id r = v \<and> (include_deleted \<or> ar_status r \<noteq> DELETED)) (kdb_artifacts d))"

record create_artifact_command =
  ca_artifact_id :: uuid
  ca_version_id :: uuid
  ca_key :: pystr
  ca_language_code :: pystr
  ca_source_name :: pystr
  ca_source_uri :: "pystr option"
  ca_source_updated_at :: "datetime option"
  ca_storage_provider :: pystr
  ca_storage_key :: pystr
  ca_mime_type :: pystr
  ca_file_hash :: string
  ca_file_size_bytes :: int
  ca_created_by :: "uuid option"
  ca_metadata :: json
  ca_created_at :: datetime

definition new_artifact :: "create_artifact_command \<Rightarrow> artifact_row" where
  "new_artifact c = \<lparr>ar_id = ca_artifact_id c, ar_version_id = ca_version_id c, ar_key = ca_key c,
    ar_language_code = ca_language_code c, ar_source_name = ca_source_name c, ar_source_uri = ca_source_uri c,
    ar_source_updated_at = ca_source_updated_at c, ar_storage_provider = ca_storage_provider c,
    ar_storage_key = ca_storage_key c, ar_mime_type = ca_mime_type c, ar_file_hash = ca_file_hash c,
    ar_file_size_bytes = ca_file_size_bytes c, ar_status = AVAILABLE, ar_created_by = ca_created_by c,
    ar_metadata = ca_metadata c, ar_created_at = ca_created_at c, ar_updated_at = ca_created_at c,
    ar_retired_at = None, ar_deleted_at = None\<rparr>"

definition add_artifact ::
  "create_artifact_command \<Rightarrow> knowledge_db \<Rightarrow> document_error + artifact_row \<times> knowledge_db"
where
  "add_artifact c d =
    and_then (map_error (translate_integrity_error
        [(''uq_document_artifacts_version_artifact_key'',
          DocumentArtifactConflict (ca_version_id c) (ca_key c)),
         (''uq_document_artifacts_storage_location'',
          DocumentArtifactStorageLocationConflict (ca_storage_provider c) (ca_storage_key c))])
      (insert_stmt (artifact_cs d) [new_artifact c] (kdb_artifacts d)))
      (\<lambda>t. Inr (new_artifact c, d\<lparr>kdb_artifacts := t\<rparr>))"

definition status_row ::
  "artifact_status \<Rightarrow> datetime \<Rightarrow> datetime option \<Rightarrow> datetime option \<Rightarrow> artifact_row \<Rightarrow> artifact_row"
where
  "status_row s now retired deleted r = r\<lparr>ar_status := s, ar_updated_at := now, ar_retired_at := retired,
    ar_deleted_at := deleted\<rparr>"

definition set_artifact_status ::
  "uuid \<Rightarrow> uuid \<Rightarrow> artifact_status \<Rightarrow> datetime \<Rightarrow> datetime option \<Rightarrow> datetime option \<Rightarrow> knowledge_db \<Rightarrow>
    document_error + artifact_row option \<times> knowledge_db"
where
  "set_artifact_status v a s now retired deleted d =
    and_then (map_error DbError (update_returning (artifact_cs d) (artifact_of v a)
        (status_row s now retired deleted) (kdb_artifacts d))) (\<lambda>(rows, t).
    and_then (map_error DbError (one_or_none rows)) (\<lambda>row. Inr (row, d\<lparr>kdb_artifacts := t\<rparr>)))"

section \<open>The management service\<close>

fun valid_transitions :: "artifact_status \<Rightarrow> artifact_status list" where
  "valid_transitions AVAILABLE = [MISSING, RETIRED]"
| "valid_transitions MISSING = [AVAILABLE, RETIRED]"
| "valid_transitions RETIRED = [DELETED]"
| "valid_transitions DELETED = []"

definition require_draft :: "uuid \<Rightarrow> uuid \<Rightarrow> knowledge_db \<Rightarrow> document_error + unit" where
  "require_draft doc v d =
    and_then (find_version doc v d) (\<lambda>row. case row of
      None \<Rightarrow> Inl (DocumentVersionNotFound doc v)
    | Some r \<Rightarrow> raise_if (vr_status r \<noteq> DRAFT) (DocumentArtifactVersionNotDraft v (vr_status r)))"

text \<open>The two statements of the transaction; the first one does not lock the version.\<close>

definition create_artifact ::
  "uuid \<Rightarrow> create_artifact_command \<Rightarrow> knowledge_db \<Rightarrow> document_error + artifact_row \<times> knowledge_db"
where
  "create_artifact doc c d = and_then (require_draft doc (ca_version_id c) d) (\<lambda>_. add_artifact c d)"

definition require_version :: "uuid \<Rightarrow> uuid \<Rightarrow> knowledge_db \<Rightarrow> document_error + unit" where
  "require_version doc v d =
    and_then (find_version doc v d) (\<lambda>row. raise_if (row = None) (DocumentVersionNotFound doc v))"

definition transition ::
  "uuid \<Rightarrow> uuid \<Rightarrow> uuid \<Rightarrow> artifact_status \<Rightarrow> datetime \<Rightarrow> datetime option \<Rightarrow> datetime option \<Rightarrow>
    knowledge_db \<Rightarrow> document_error + artifact_row \<times> knowledge_db"
where
  "transition doc v a target now retired deleted d =
    and_then (require_version doc v d) (\<lambda>_.
    and_then (find_artifact v a d) (\<lambda>row. case row of
      None \<Rightarrow> Inl (DocumentArtifactNotFound v a)
    | Some r \<Rightarrow>
        and_then (raise_if (target \<notin> set (valid_transitions (ar_status r)))
          (DocumentArtifactInvalidTransition a (ar_status r) target)) (\<lambda>_.
        and_then (set_artifact_status v a target now
          (if retired \<noteq> None then retired else ar_retired_at r)
          (if deleted \<noteq> None then deleted else ar_deleted_at r) d) (\<lambda>(updated, d').
        case updated of None \<Rightarrow> Inl (DocumentArtifactNotFound v a) | Some r' \<Rightarrow> Inr (r', d')))))"

definition mark_missing ::
  "uuid \<Rightarrow> uuid \<Rightarrow> uuid \<Rightarrow> datetime \<Rightarrow> knowledge_db \<Rightarrow> document_error + artifact_row \<times> knowledge_db"
where
  "mark_missing doc v a now d = transition doc v a MISSING now None None d"

definition mark_available ::
  "uuid \<Rightarrow> uuid \<Rightarrow> uuid \<Rightarrow> datetime \<Rightarrow> knowledge_db \<Rightarrow> document_error + artifact_row \<times> knowledge_db"
where
  "mark_available doc v a now d = transition doc v a AVAILABLE now None None d"

text \<open>The clock is read twice: for the date and for \<open>updated_at\<close>.\<close>

definition retire_artifact ::
  "uuid \<Rightarrow> uuid \<Rightarrow> uuid \<Rightarrow> datetime \<Rightarrow> datetime \<Rightarrow> knowledge_db \<Rightarrow> document_error + artifact_row \<times> knowledge_db"
where
  "retire_artifact doc v a retired now d = transition doc v a RETIRED now (Some retired) None d"

definition delete_artifact ::
  "uuid \<Rightarrow> uuid \<Rightarrow> uuid \<Rightarrow> datetime \<Rightarrow> datetime \<Rightarrow> knowledge_db \<Rightarrow> document_error + artifact_row \<times> knowledge_db"
where
  "delete_artifact doc v a deleted now d = transition doc v a DELETED now None (Some deleted) d"

section \<open>The query service\<close>

definition require_readable_version :: "uuid \<Rightarrow> uuid \<Rightarrow> knowledge_db \<Rightarrow> document_error + unit" where
  "require_readable_version doc v d =
    and_then (find_active_document doc d) (\<lambda>row.
    and_then (raise_if (row = None) (DocumentNotFound doc)) (\<lambda>_. require_version doc v d))"

definition get_artifact :: "uuid \<Rightarrow> uuid \<Rightarrow> uuid \<Rightarrow> knowledge_db \<Rightarrow> document_error + artifact_row" where
  "get_artifact doc v a d =
    and_then (require_readable_version doc v d) (\<lambda>_.
    and_then (find_artifact v a d) (\<lambda>row. case row of
      None \<Rightarrow> Inl (DocumentArtifactNotFound v a) | Some r \<Rightarrow> Inr r))"

definition list_artifacts :: "uuid \<Rightarrow> uuid \<Rightarrow> knowledge_db \<Rightarrow> document_error + artifact_row list" where
  "list_artifacts doc v d =
    and_then (require_readable_version doc v d) (\<lambda>_. Inr (list_artifacts_for_version v False d))"

section \<open>Transactions of the knowledge module\<close>

datatype artifact_op =
    CreateArtifact uuid create_artifact_command
  | MarkMissing uuid uuid uuid datetime
  | MarkAvailable uuid uuid uuid datetime
  | RetireArtifact uuid uuid uuid datetime datetime
  | DeleteArtifact uuid uuid uuid datetime datetime

fun artifact_exec :: "artifact_op \<Rightarrow> knowledge_db \<Rightarrow> knowledge_db" where
  "artifact_exec (CreateArtifact doc c) d = db_after d (create_artifact doc c d)"
| "artifact_exec (MarkMissing doc v a now) d = db_after d (mark_missing doc v a now d)"
| "artifact_exec (MarkAvailable doc v a now) d = db_after d (mark_available doc v a now d)"
| "artifact_exec (RetireArtifact doc v a retired now) d = db_after d (retire_artifact doc v a retired now d)"
| "artifact_exec (DeleteArtifact doc v a deleted now) d = db_after d (delete_artifact doc v a deleted now d)"

datatype knowledge_op = DocumentOp document_op | VersionOp version_op | ArtifactOp artifact_op

fun knowledge_exec :: "knowledge_op \<Rightarrow> knowledge_db \<Rightarrow> knowledge_db" where
  "knowledge_exec (DocumentOp op) d = document_exec op d"
| "knowledge_exec (VersionOp op) d = version_exec op d"
| "knowledge_exec (ArtifactOp op) d = artifact_exec op d"

definition knowledge_ok :: "knowledge_db \<Rightarrow> bool" where
  "knowledge_ok d \<longleftrightarrow> documents_ok d \<and> versions_ok d \<and> satisfies (artifact_cs d) (kdb_artifacts d)"

section \<open>Effects\<close>

inductive artifact_step :: "artifact_row \<Rightarrow> artifact_row \<Rightarrow> bool" where
  "s \<in> set (valid_transitions (ar_status r)) \<Longrightarrow>
    (s = RETIRED \<Longrightarrow> retired \<noteq> None) \<Longrightarrow> (s = DELETED \<Longrightarrow> deleted \<noteq> None) \<Longrightarrow>
    (ar_retired_at r \<noteq> None \<Longrightarrow> retired \<noteq> None) \<Longrightarrow>
    artifact_step r (status_row s now retired deleted r)"

inductive_cases artifact_stepE: "artifact_step r r'"

lemma artifact_cs_artifacts [simp]: "artifact_cs (d\<lparr>kdb_artifacts := t\<rparr>) = artifact_cs d"
  by (simp add: artifact_cs_def version_ids_def)

lemma knowledge_ok_artifact_keys:
  "satisfies (artifact_cs d) t \<Longrightarrow> distinct (map ar_id t)"
  by (simp add: artifact_cs_def artifact_constraints_def)

lemma find_artifact_eq:
  assumes "satisfies (artifact_cs d) (kdb_artifacts d)"
  shows "find_artifact v a d = Inr (case lookup ar_id a (kdb_artifacts d) of
    None \<Rightarrow> None | Some r \<Rightarrow> if ar_version_id r = v then Some r else None)"
  using one_or_none_key [OF knowledge_ok_artifact_keys [OF assms], of a "\<lambda>r. ar_version_id r = v"]
  by (simp add: find_artifact_def artifact_of_def [abs_def])

lemma create_artifact_effect:
  assumes "versions_ok d" and "create_artifact doc c d = Inr (r, d')"
  obtains w where "r = new_artifact c" "d' = d\<lparr>kdb_artifacts := kdb_artifacts d @ [r]\<rparr>"
    "satisfies (artifact_cs d) (kdb_artifacts d')"
    "lookup vr_id (ca_version_id c) (kdb_versions d) = Some w" "vr_status w = DRAFT"
proof -
  from assms(2) have "require_draft doc (ca_version_id c) d = Inr ()" and add: "add_artifact c d = Inr (r, d')"
    by (auto simp: create_artifact_def and_then_Inr_iff)
  then obtain w where "lookup vr_id (ca_version_id c) (kdb_versions d) = Some w" "vr_status w = DRAFT"
    by (auto simp: require_draft_def find_version_eq [OF assms(1)] and_then_Inr_iff raise_if_Inr_iff
        split: option.splits if_splits)
  with add show ?thesis
    by (intro that [of w]) (auto simp: add_artifact_def and_then_Inr_iff map_error_Inr_iff stmt_iffs)
qed

lemma transition_effect:
  assumes "satisfies (artifact_cs d) (kdb_artifacts d)" and "transition doc v a target now retired deleted d = Inr (r', d')"
  obtains r where "lookup ar_id a (kdb_artifacts d) = Some r" "ar_version_id r = v"
    "target \<in> set (valid_transitions (ar_status r))"
    "r' = status_row target now (if retired \<noteq> None then retired else ar_retired_at r)
      (if deleted \<noteq> None then deleted else ar_deleted_at r) r"
    "d' = d\<lparr>kdb_artifacts := map (\<lambda>x. if ar_id x = a then r' else x) (kdb_artifacts d)\<rparr>"
    "satisfies (artifact_cs d) (kdb_artifacts d')"
proof -
  note keys = knowledge_ok_artifact_keys [OF assms(1)]
  from assms(2) obtain r where r: "lookup ar_id a (kdb_artifacts d) = Some r" "ar_version_id r = v"
    "target \<in> set (valid_transitions (ar_status r))" and
    set: "set_artifact_status v a target now (if retired \<noteq> None then retired else ar_retired_at r)
        (if deleted \<noteq> None then deleted else ar_deleted_at r) d = Inr (Some r', d')"
    by (auto simp: transition_def find_artifact_eq [OF assms(1)] and_then_Inr_iff raise_if_Inr_iff
        split: option.splits if_splits)
  let ?f = "status_row target now (if retired \<noteq> None then retired else ar_retired_at r)
      (if deleted \<noteq> None then deleted else ar_deleted_at r)"
  have same: "x = r" if "x \<in> set (kdb_artifacts d)" "ar_id x = a" for x
    using lookup_unique [OF keys that] r(1) by simp
  have "filter (artifact_of v a) (kdb_artifacts d) = [r]"
    using filter_key [OF keys, of a "\<lambda>r. ar_version_id r = v"] r(1,2) by (simp add: artifact_of_def [abs_def])
  with set have r': "r' = ?f r"
    and d': "d' = d\<lparr>kdb_artifacts := sql_update (artifact_of v a) ?f (kdb_artifacts d)\<rparr>"
    and sat: "satisfies (artifact_cs d) (kdb_artifacts d')"
    by (auto simp: set_artifact_status_def and_then_Inr_iff map_error_Inr_iff stmt_iffs)
  have "sql_update (artifact_of v a) ?f (kdb_artifacts d) = map (\<lambda>x. if ar_id x = a then r' else x) (kdb_artifacts d)"
    using same r(2) r' by (auto simp: sql_update_def artifact_of_def)
  with r r' d' sat show ?thesis by (intro that [of r]) simp_all
qed

text \<open>A transaction moves each artifact by at most one step and adds rows to drafts only.\<close>

definition artifacts_move :: "knowledge_db \<Rightarrow> artifact_row list \<Rightarrow> bool" where
  "artifacts_move d t' \<longleftrightarrow> (\<exists>f new. t' = map f (kdb_artifacts d) @ new \<and>
    (\<forall>r \<in> set (kdb_artifacts d). f r = r \<or> artifact_step r (f r)) \<and>
    (\<forall>n \<in> set new. \<exists>w. lookup vr_id (ar_version_id n) (kdb_versions d) = Some w \<and> vr_status w = DRAFT))"

lemma artifacts_move_refl: "artifacts_move d (kdb_artifacts d)"
  unfolding artifacts_move_def by (intro exI [of _ id] exI [of _ "[]"]) simp

lemma create_artifact_move:
  assumes "versions_ok d" and "create_artifact doc c d = Inr (r, d')"
  shows "artifacts_move d (kdb_artifacts d')"
proof (rule create_artifact_effect [OF assms])
  fix w assume "r = new_artifact c" "d' = d\<lparr>kdb_artifacts := kdb_artifacts d @ [r]\<rparr>"
    "lookup vr_id (ca_version_id c) (kdb_versions d) = Some w" "vr_status w = DRAFT"
  then show ?thesis
    unfolding artifacts_move_def by (intro exI [of _ id] exI [of _ "[r]"]) (simp add: new_artifact_def)
qed

lemma transition_move:
  assumes ok: "satisfies (artifact_cs d) (kdb_artifacts d)"
    and "transition doc v a target now retired deleted d = Inr (r', d')"
    and "target = RETIRED \<Longrightarrow> retired \<noteq> None" and "target = DELETED \<Longrightarrow> deleted \<noteq> None"
  shows "artifacts_move d (kdb_artifacts d')"
proof -
  from transition_effect [OF assms(1,2)] obtain r where r: "lookup ar_id a (kdb_artifacts d) = Some r"
    "target \<in> set (valid_transitions (ar_status r))"
    and r': "r' = status_row target now (if retired \<noteq> None then retired else ar_retired_at r)
      (if deleted \<noteq> None then deleted else ar_deleted_at r) r"
    and d': "d' = d\<lparr>kdb_artifacts := map (\<lambda>x. if ar_id x = a then r' else x) (kdb_artifacts d)\<rparr>" by blast
  have "artifact_step r r'"
    unfolding r' using r(2) assms(3,4) by (intro artifact_step.intros) auto
  moreover have "x = r" if "x \<in> set (kdb_artifacts d)" "ar_id x = a" for x
    using lookup_unique [OF knowledge_ok_artifact_keys [OF ok] that] r(1) by simp
  ultimately show ?thesis
    unfolding artifacts_move_def d'
    by (intro exI [of _ "\<lambda>x. if ar_id x = a then r' else x"] exI [of _ "[]"]) auto
qed

lemma transition_frame:
  assumes "satisfies (artifact_cs d) (kdb_artifacts d)"
    and "transition doc v a target now retired deleted d = Inr (r', d')"
  shows "(\<exists>t. d' = d\<lparr>kdb_artifacts := t\<rparr>) \<and> satisfies (artifact_cs d) (kdb_artifacts d')"
  using transition_effect [OF assms] by metis

lemma artifact_exec_move:
  assumes "versions_ok d" and ok: "satisfies (artifact_cs d) (kdb_artifacts d)"
  shows "artifacts_move d (kdb_artifacts (artifact_exec op d)) \<and>
    satisfies (artifact_cs d) (kdb_artifacts (artifact_exec op d)) \<and>
    (\<exists>t. artifact_exec op d = d\<lparr>kdb_artifacts := t\<rparr>)"
proof -
  have keep: "artifacts_move d (kdb_artifacts (db_after d m)) \<and>
      satisfies (artifact_cs d) (kdb_artifacts (db_after d m)) \<and> (\<exists>t. db_after d m = d\<lparr>kdb_artifacts := t\<rparr>)"
    if "\<And>r d'. m = Inr (r, d') \<Longrightarrow> artifacts_move d (kdb_artifacts d') \<and>
      satisfies (artifact_cs d) (kdb_artifacts d') \<and> (\<exists>t. d' = d\<lparr>kdb_artifacts := t\<rparr>)"
    for m :: "document_error + artifact_row \<times> knowledge_db"
  proof (cases rule: db_after_cases [of d m])
    case Raised
    with ok artifacts_move_refl show ?thesis by (auto intro: exI [of _ "kdb_artifacts d"])
  qed (use that in simp)
  have move: "artifacts_move d (kdb_artifacts d') \<and> satisfies (artifact_cs d) (kdb_artifacts d') \<and>
      (\<exists>t. d' = d\<lparr>kdb_artifacts := t\<rparr>)"
    if "transition doc v a target now retired deleted d = Inr (r, d')"
      "target = RETIRED \<Longrightarrow> retired \<noteq> None" "target = DELETED \<Longrightarrow> deleted \<noteq> None"
    for doc v a target now retired deleted r d'
    using transition_move [OF ok that] transition_frame [OF ok that(1)] by blast
  show ?thesis
  proof (cases op)
    case (CreateArtifact doc c)
    show ?thesis unfolding CreateArtifact artifact_exec.simps
    proof (rule keep)
      fix r d' assume c: "create_artifact doc c d = Inr (r, d')"
      from create_artifact_effect [OF assms(1) c] create_artifact_move [OF assms(1) c]
      show "artifacts_move d (kdb_artifacts d') \<and> satisfies (artifact_cs d) (kdb_artifacts d') \<and>
          (\<exists>t. d' = d\<lparr>kdb_artifacts := t\<rparr>)" by metis
    qed
  qed (simp_all only: artifact_exec.simps mark_missing_def mark_available_def retire_artifact_def
      delete_artifact_def; rule keep; erule move; simp)+
qed

section \<open>The invariant of the knowledge module\<close>

lemma artifact_cs_versions:
  "set (version_ids d) \<subseteq> set (version_ids d') \<Longrightarrow> satisfies (artifact_cs d) t \<Longrightarrow> satisfies (artifact_cs d') t"
  by (auto simp: artifact_cs_def artifact_constraints_def list_all_iff)

lemma version_cs_documents:
  "set (document_ids d) \<subseteq> set (document_ids d') \<Longrightarrow> satisfies (version_cs d) t \<Longrightarrow> satisfies (version_cs d') t"
  by (auto simp: satisfies_version_cs list_all_iff)

lemma document_exec_frame:
  assumes "documents_ok d"
  shows "kdb_versions (document_exec op d) = kdb_versions d \<and> kdb_artifacts (document_exec op d) = kdb_artifacts d \<and>
    set (document_ids d) \<subseteq> set (document_ids (document_exec op d))"
  by (cases rule: document_exec_cases [OF assms, of op])
    (auto simp: document_ids_def map_sql_update)

lemma rows_step_ids:
  assumes "versions_ok d" and "rows_step (kdb_versions d) t'"
  shows "set (version_ids d) \<subseteq> vr_id ` set t'"
proof -
  from assms(2) obtain f new where t': "t' = map f (kdb_versions d) @ new" and
    f: "\<And>r. r \<in> set (kdb_versions d) \<Longrightarrow> f r = r \<or> version_step r (f r)" by (auto simp: rows_step_def)
  have "vr_id (f r) = vr_id r" if "r \<in> set (kdb_versions d)" for r
    using f [OF that] version_step_facts versions_ok_row_ok [OF assms(1) that] by force
  then have "(\<lambda>r. vr_id (f r)) ` set (kdb_versions d) = vr_id ` set (kdb_versions d)"
    by (rule image_cong [OF refl])
  then show ?thesis by (simp add: t' version_ids_def image_Un image_image)
qed

lemma knowledge_exec_ok:
  assumes "knowledge_ok d"
  shows "knowledge_ok (knowledge_exec op d)"
proof (cases op)
  case (DocumentOp op')
  from assms have docs: "documents_ok d" by (simp add: knowledge_ok_def)
  note frame = document_exec_frame [OF docs, of op']
  have "versions_ok (document_exec op' d)"
    using assms frame by (auto simp: knowledge_ok_def versions_ok_def elim: version_cs_documents [rotated])
  moreover have "satisfies (artifact_cs (document_exec op' d)) (kdb_artifacts (document_exec op' d))"
    using assms frame by (simp add: knowledge_ok_def artifact_cs_def version_ids_def)
  ultimately show ?thesis using document_exec_ok [OF docs] DocumentOp by (simp add: knowledge_ok_def)
next
  case (VersionOp op')
  from assms have ok: "versions_ok d" "documents_ok d" and sat: "satisfies (artifact_cs d) (kdb_artifacts d)"
    by (simp_all add: knowledge_ok_def)
  from version_exec_step [OF ok(1), of op'] obtain t where step: "rows_step (kdb_versions d) t"
    and d': "version_exec op' d = d\<lparr>kdb_versions := t\<rparr>" by auto
  have "satisfies (artifact_cs (d\<lparr>kdb_versions := t\<rparr>)) (kdb_artifacts d)"
    using artifact_cs_versions [OF _ sat] rows_step_ids [OF ok(1) step] by (simp add: version_ids_def)
  moreover have "documents_ok (d\<lparr>kdb_versions := t\<rparr>)"
    using ok(2) by (simp add: documents_ok_def acl_cs_def document_ids_def)
  ultimately show ?thesis
    using version_exec_ok [OF ok(1), of op'] VersionOp d' by (simp add: knowledge_ok_def)
next
  case (ArtifactOp op')
  from assms have ok: "versions_ok d" "documents_ok d" and sat: "satisfies (artifact_cs d) (kdb_artifacts d)"
    by (simp_all add: knowledge_ok_def)
  from artifact_exec_move [OF ok(1) sat, of op'] obtain t where
    d': "artifact_exec op' d = d\<lparr>kdb_artifacts := t\<rparr>" "satisfies (artifact_cs d) t" by auto
  have "version_cs (d\<lparr>kdb_artifacts := t\<rparr>) = version_cs d" "acl_cs (d\<lparr>kdb_artifacts := t\<rparr>) = acl_cs d"
    by (simp_all add: version_cs_def acl_cs_def document_ids_def)
  with ok d' ArtifactOp show ?thesis by (simp add: knowledge_ok_def versions_ok_def documents_ok_def)
qed

lemma knowledge_run_ok: "knowledge_ok d \<Longrightarrow> knowledge_ok (fold knowledge_exec ops d)"
  by (induction ops arbitrary: d) (simp_all add: knowledge_exec_ok)

lemma knowledge_exec_artifacts:
  assumes "knowledge_ok d"
  shows "artifacts_move d (kdb_artifacts (knowledge_exec op d))"
proof (cases op)
  case (DocumentOp op')
  with assms document_exec_frame [of d op'] artifacts_move_refl show ?thesis by (simp add: knowledge_ok_def)
next
  case (VersionOp op')
  with assms version_exec_step [of d op'] artifacts_move_refl show ?thesis by (auto simp: knowledge_ok_def)
next
  case (ArtifactOp op')
  with assms artifact_exec_move [of d op'] show ?thesis by (simp add: knowledge_ok_def)
qed

lemma knowledge_exec_versions:
  assumes "knowledge_ok d" and "lookup vr_id v (kdb_versions d) = Some r"
  shows "\<exists>r'. lookup vr_id v (kdb_versions (knowledge_exec op d)) = Some r' \<and> version_step\<^sup>*\<^sup>* r r'"
proof (cases op)
  case (DocumentOp op')
  with assms document_exec_frame [of d op'] show ?thesis by (simp add: knowledge_ok_def)
next
  case (VersionOp op')
  with assms version_row_step [of d v r op'] show ?thesis by (simp add: knowledge_ok_def)
next
  case (ArtifactOp op')
  from assms artifact_exec_move [of d op'] obtain t where "artifact_exec op' d = d\<lparr>kdb_artifacts := t\<rparr>"
    by (auto simp: knowledge_ok_def)
  with ArtifactOp assms show ?thesis by simp
qed

text \<open>What identifies the stored object of an artifact; the transactions never change it.\<close>

definition artifact_content ::
  "artifact_row \<Rightarrow> uuid \<times> uuid \<times> pystr \<times> pystr \<times> pystr \<times> pystr \<times> string \<times> int"
where
  "artifact_content r = (ar_id r, ar_version_id r, ar_key r, ar_storage_provider r, ar_storage_key r,
    ar_mime_type r, ar_file_hash r, ar_file_size_bytes r)"

text \<open>Retirement and deletion leave their dates.\<close>

definition dated :: "artifact_row \<Rightarrow> bool" where
  "dated r \<longleftrightarrow> (ar_status r \<in> {RETIRED, DELETED} \<longrightarrow> ar_retired_at r \<noteq> None) \<and>
    (ar_status r = DELETED \<longrightarrow> ar_deleted_at r \<noteq> None)"

lemma artifact_step_facts:
  assumes "artifact_step r r'"
  shows "artifact_content r' = artifact_content r" "ar_status r \<noteq> DELETED"
    "ar_status r' \<in> set (valid_transitions (ar_status r))" "dated r \<Longrightarrow> dated r'"
  using assms
  by (elim artifact_stepE; cases "ar_status r"; auto simp: artifact_content_def status_row_def dated_def)+

lemma artifact_steps_facts:
  assumes "artifact_step\<^sup>*\<^sup>* r r'"
  shows "artifact_content r' = artifact_content r \<and> (ar_status r = DELETED \<longrightarrow> r' = r) \<and> (dated r \<longrightarrow> dated r')"
  using assms
proof (induction rule: rtranclp_induct)
  case (step y z)
  from artifact_step_facts [OF step.hyps(2)] step.IH show ?case by auto
qed simp

lemma artifact_row_step:
  assumes "knowledge_ok d" and "lookup ar_id a (kdb_artifacts d) = Some r"
  shows "\<exists>r'. lookup ar_id a (kdb_artifacts (knowledge_exec op d)) = Some r' \<and> artifact_step\<^sup>*\<^sup>* r r'"
proof -
  from knowledge_exec_artifacts [OF assms(1), of op] obtain f new where
    t': "kdb_artifacts (knowledge_exec op d) = map f (kdb_artifacts d) @ new" and
    f: "\<And>r. r \<in> set (kdb_artifacts d) \<Longrightarrow> f r = r \<or> artifact_step r (f r)"
    by (auto simp: artifacts_move_def)
  note r = lookup_SomeD [OF assms(2)]
  have "artifact_content (f r) = artifact_content r" using f [of r] r artifact_step_facts by auto
  then have "ar_id (f r) = a" using r by (simp add: artifact_content_def)
  moreover have "distinct (map ar_id (kdb_artifacts (knowledge_exec op d)))"
    using knowledge_exec_ok [OF assms(1), of op] knowledge_ok_artifact_keys by (auto simp: knowledge_ok_def)
  ultimately have "lookup ar_id a (kdb_artifacts (knowledge_exec op d)) = Some (f r)"
    using r t' by (intro lookup_unique) auto
  with f [of r] r show ?thesis by (auto intro: r_into_rtranclp)
qed

lemma artifact_row_run:
  "knowledge_ok d \<Longrightarrow> lookup ar_id a (kdb_artifacts d) = Some r \<Longrightarrow>
    \<exists>r'. lookup ar_id a (kdb_artifacts (fold knowledge_exec ops d)) = Some r' \<and> artifact_step\<^sup>*\<^sup>* r r'"
proof (induction ops arbitrary: d r)
  case (Cons op ops)
  from artifact_row_step [OF Cons.prems, of op] obtain r1 where
    "lookup ar_id a (kdb_artifacts (knowledge_exec op d)) = Some r1" "artifact_step\<^sup>*\<^sup>* r r1" by blast
  with Cons.IH [OF knowledge_exec_ok [OF Cons.prems(1), of op]] show ?case
    by (auto intro: rtranclp_trans)
qed auto

text \<open>Which artifact a transaction moves.\<close>

fun transitions :: "uuid \<Rightarrow> knowledge_op \<Rightarrow> bool" where
  "transitions a (ArtifactOp (MarkMissing doc v b now)) = (b = a)"
| "transitions a (ArtifactOp (MarkAvailable doc v b now)) = (b = a)"
| "transitions a (ArtifactOp (RetireArtifact doc v b retired now)) = (b = a)"
| "transitions a (ArtifactOp (DeleteArtifact doc v b deleted now)) = (b = a)"
| "transitions a _ = False"

lemma transition_other:
  assumes "satisfies (artifact_cs d) (kdb_artifacts d)" and "b \<noteq> a"
  shows "lookup ar_id a (kdb_artifacts (db_after d (transition doc v b target now retired deleted d))) =
    lookup ar_id a (kdb_artifacts d)"
proof (cases rule: db_after_cases [of d "transition doc v b target now retired deleted d"])
  case (Done r' d')
  from transition_effect [OF assms(1) Done(1)] obtain r where r: "lookup ar_id b (kdb_artifacts d) = Some r"
    and r': "r' = status_row target now (if retired \<noteq> None then retired else ar_retired_at r)
      (if deleted \<noteq> None then deleted else ar_deleted_at r) r"
    and d': "d' = d\<lparr>kdb_artifacts := map (\<lambda>x. if ar_id x = b then r' else x) (kdb_artifacts d)\<rparr>" by blast
  have "ar_id r' = b" using lookup_SomeD [OF r] by (simp add: r' status_row_def)
  then have "lookup ar_id a (map (\<lambda>x. if ar_id x = b then r' else x) t) = lookup ar_id a t" for t
    using assms(2) by (induction t) auto
  with Done(2) d' show ?thesis by simp
qed simp

lemma knowledge_exec_keeps_artifact:
  assumes "knowledge_ok d" and "lookup ar_id a (kdb_artifacts d) = Some r" and "\<not> transitions a op"
  shows "lookup ar_id a (kdb_artifacts (knowledge_exec op d)) = Some r"
proof (cases op)
  case (DocumentOp op')
  with assms document_exec_frame [of d op'] show ?thesis by (simp add: knowledge_ok_def)
next
  case (VersionOp op')
  with assms version_exec_step [of d op'] show ?thesis by (auto simp: knowledge_ok_def)
next
  case (ArtifactOp op')
  from assms(1) have ok: "versions_ok d" and sat: "satisfies (artifact_cs d) (kdb_artifacts d)"
    by (simp_all add: knowledge_ok_def)
  show ?thesis
  proof (cases op')
    case (CreateArtifact doc c)
    show ?thesis
    proof (cases rule: db_after_cases [of d "create_artifact doc c d"])
      case (Done x d')
      from create_artifact_effect [OF ok Done(1)] have "kdb_artifacts d' = kdb_artifacts d @ [x]" by (metis knowledge_db.select_convs(4) knowledge_db.surjective knowledge_db.update_convs(4))
      with Done(2) assms(2) ArtifactOp CreateArtifact show ?thesis by (simp add: lookup_append)
    qed (use ArtifactOp CreateArtifact assms(2) in simp)
  qed (use assms(2,3) ArtifactOp transition_other [OF sat] in
      \<open>simp_all add: mark_missing_def mark_available_def retire_artifact_def delete_artifact_def\<close>)
qed

text \<open>A version that is no longer a draft stays that way, and its artifacts keep their content.\<close>

definition contents_of :: "uuid \<Rightarrow> knowledge_db \<Rightarrow> (uuid \<times> uuid \<times> pystr \<times> pystr \<times> pystr \<times> pystr \<times> string \<times> int) list" where
  "contents_of v d = map artifact_content (filter (\<lambda>a. ar_version_id a = v) (kdb_artifacts d))"

lemma contents_step:
  assumes "knowledge_ok d" and "lookup vr_id v (kdb_versions d) = Some r" and "vr_status r \<noteq> DRAFT"
  shows "contents_of v (knowledge_exec op d) = contents_of v d"
proof -
  from knowledge_exec_artifacts [OF assms(1), of op] obtain f new where
    t': "kdb_artifacts (knowledge_exec op d) = map f (kdb_artifacts d) @ new" and
    f: "\<And>r. r \<in> set (kdb_artifacts d) \<Longrightarrow> f r = r \<or> artifact_step r (f r)" and
    new: "\<And>n. n \<in> set new \<Longrightarrow> \<exists>w. lookup vr_id (ar_version_id n) (kdb_versions d) = Some w \<and> vr_status w = DRAFT"
    unfolding artifacts_move_def by blast
  have "ar_version_id n \<noteq> v" if "n \<in> set new" for n
    using new [OF that] assms(2,3) by auto
  then have "filter (\<lambda>a. ar_version_id a = v) new = []" by (simp add: filter_empty_conv)
  moreover have same: "artifact_content (f x) = artifact_content x" if "x \<in> set (kdb_artifacts d)" for x
    using f [OF that] artifact_step_facts by auto
  have "map artifact_content (filter (\<lambda>a. ar_version_id a = v) (map f t)) =
      map artifact_content (filter (\<lambda>a. ar_version_id a = v) t)" if "set t \<subseteq> set (kdb_artifacts d)" for t
    using that
  proof (induction t)
    case (Cons x t)
    with same [of x] show ?case by (auto simp: artifact_content_def)
  qed simp
  ultimately show ?thesis by (simp add: contents_of_def t')
qed

lemma contents_run:
  "knowledge_ok d \<Longrightarrow> lookup vr_id v (kdb_versions d) = Some r \<Longrightarrow> vr_status r \<noteq> DRAFT \<Longrightarrow>
    contents_of v (fold knowledge_exec ops d) = contents_of v d"
proof (induction ops arbitrary: d r)
  case (Cons op ops)
  from knowledge_exec_versions [OF Cons.prems(1,2), of op] obtain r1 where
    r1: "lookup vr_id v (kdb_versions (knowledge_exec op d)) = Some r1" "version_step\<^sup>*\<^sup>* r r1" by blast
  have "row_ok r"
    using Cons.prems(1) lookup_SomeD [OF Cons.prems(2)] by (auto simp: knowledge_ok_def intro: versions_ok_row_ok)
  with version_steps_facts [OF r1(2)] Cons.prems(3) have "vr_status r1 \<noteq> DRAFT"
    by (cases "vr_status r") (auto simp: version_order)
  with Cons.IH [OF knowledge_exec_ok [OF Cons.prems(1)] r1(1)] contents_step [OF Cons.prems] show ?case by simp
qed simp

section \<open>Properties\<close>

definition sample_command :: "uuid \<Rightarrow> uuid \<Rightarrow> pystr \<Rightarrow> create_artifact_command" where
  "sample_command a v key = \<lparr>ca_artifact_id = a, ca_version_id = v, ca_key = key, ca_language_code = [101, 110],
    ca_source_name = [115], ca_source_uri = None, ca_source_updated_at = None, ca_storage_provider = [109],
    ca_storage_key = key, ca_mime_type = [116], ca_file_hash = ''00'', ca_file_size_bytes = 3,
    ca_created_by = None, ca_metadata = JObj [], ca_created_at = 20\<rparr>"

text \<open>The published version 11 has an artifact.\<close>

definition sample_artifacts :: knowledge_db where
  "sample_artifacts = sample_versions\<lparr>kdb_artifacts := [new_artifact (sample_command 21 11 [97])]\<rparr>"

lemmas sample_artifact_defs = sample_artifacts_def sample_command_def new_artifact_def artifact_cs_def
  artifact_constraints_def version_ids_def

lemma sample_artifacts_ok: "knowledge_ok sample_artifacts"
proof -
  have "versions_ok sample_artifacts"
    using sample_versions_ok(1) by (simp add: versions_ok_def sample_artifacts_def version_cs_def document_ids_def)
  moreover have "documents_ok sample_artifacts"
    using sample_knowledge_ok
    by (simp add: documents_ok_def sample_artifacts_def sample_versions_def acl_cs_def document_ids_def)
  ultimately show ?thesis
    by (simp add: knowledge_ok_def) (simp add: sample_artifact_defs sample_version_defs)
qed

text \<open>
  The life of an artifact. Whatever transactions the knowledge module runs, an artifact
  keeps its row and what identifies its stored object (version, key, storage location, type,
  hash and size); its status moves only along the declared transitions, a deleted artifact
  never changes again, and retired and deleted artifacts carry their dates.
\<close>

theorem artifact_lifecycle:
  assumes "knowledge_ok d" and "lookup ar_id a (kdb_artifacts d) = Some r"
  shows "\<exists>r'. lookup ar_id a (kdb_artifacts (fold knowledge_exec ops d)) = Some r' \<and>
    artifact_step\<^sup>*\<^sup>* r r' \<and> artifact_content r' = artifact_content r \<and>
    (ar_status r = DELETED \<longrightarrow> r' = r) \<and> (dated r \<longrightarrow> dated r')"
  using artifact_row_run [OF assms, of ops] artifact_steps_facts by blast

theorem artifact_lifecycle_witness:
  "\<exists>r'. lookup ar_id 21 (kdb_artifacts (fold knowledge_exec [ArtifactOp (RetireArtifact 1 11 21 30 31),
      ArtifactOp (DeleteArtifact 1 11 21 40 41)] sample_artifacts)) = Some r' \<and> dated r'"
proof -
  have "lookup ar_id 21 (kdb_artifacts sample_artifacts) = Some (new_artifact (sample_command 21 11 [97]))"
    by (simp add: sample_artifact_defs)
  moreover have "dated (new_artifact (sample_command 21 11 [97]))" by (simp add: dated_def new_artifact_def)
  ultimately show ?thesis using artifact_lifecycle [OF sample_artifacts_ok] by blast
qed

text \<open>
  C16. The content of a version is fixed once it is not a draft any more: no sequence of
  transactions on documents, versions and artifacts adds an artifact to it, removes one or
  changes what an artifact of it refers to.
\<close>

theorem published_content_is_frozen:
  assumes "knowledge_ok d" and "lookup vr_id v (kdb_versions d) = Some r" and "vr_status r \<noteq> DRAFT"
  shows "contents_of v (fold knowledge_exec ops d) = contents_of v d"
  using assms by (rule contents_run)

theorem published_content_is_frozen_witness:
  "contents_of 11 (fold knowledge_exec [ArtifactOp (CreateArtifact 1 (sample_command 22 11 [98])),
     ArtifactOp (MarkMissing 1 11 21 50), VersionOp (WithdrawVersion 1 11 60 61)] sample_artifacts) =
   contents_of 11 sample_artifacts"
proof -
  have "lookup vr_id 11 (kdb_versions sample_artifacts) = Some (publish_row 5 10 (sample_version 11 [49]))"
    by (simp add: sample_artifacts_def sample_version_defs)
  then show ?thesis by (rule published_content_is_frozen [OF sample_artifacts_ok]) (simp add: publish_row_def)
qed

text \<open>
  \<open>create_artifact\<close> reads the version without a lock. When the version is published
  between its two statements, the insert still succeeds, so a published version gains an
  artifact: the check passes before, the publication commits, the insert passes after.
\<close>

theorem artifact_added_after_publish:
  "let d = sample_versions; c = sample_command 22 12 [98]; d1 = version_exec (PublishVersion 1 12 60 55) d in
   require_draft 1 12 d = Inr () \<and> require_draft 1 12 d1 = Inl (DocumentArtifactVersionNotDraft 12 PUBLISHED) \<and>
   (\<exists>d2. add_artifact c d1 = Inr (new_artifact c, d2) \<and> length (contents_of 12 d2) = 1)"
proof -
  let ?d = sample_versions
  have look: "lookup vr_id 12 (kdb_versions ?d) = Some (sample_version 12 [50])"
    by (simp add: sample_version_defs)
  have table: "published_table 1 12 60 55 ?d =
      [close_row 60 55 (publish_row 5 10 (sample_version 11 [49])), publish_row 55 60 (sample_version 12 [50])]"
    by (simp add: published_table_def sample_version_defs open_version_def)
  have publish: "publish_version 1 12 60 55 ?d =
      Inr (publish_row 55 60 (sample_version 12 [50]), ?d\<lparr>kdb_versions := published_table 1 12 60 55 ?d\<rparr>)"
  proof -
    have row: "vr_document_id (sample_version 12 [50]) = 1" "vr_status (sample_version 12 [50]) = DRAFT"
      by (simp_all add: sample_version_def)
    have before: "the (vr_effective_from s) < 60" if "s \<in> set (kdb_versions ?d)" "open_version 1 s" for s
      using that by (auto simp: sample_version_defs open_version_def)
    have "\<not> (\<exists>s \<in> set (kdb_versions ?d). closed_after 1 60 s)"
      by (simp add: sample_version_defs closed_after_def)
    with publish_version_outcome [OF sample_versions_ok(1) look row before, of 55] show ?thesis
      by (simp only: if_False)
  qed
  have exec: "version_exec (PublishVersion 1 12 60 55) ?d = ?d\<lparr>kdb_versions := published_table 1 12 60 55 ?d\<rparr>"
    by (simp only: version_exec.simps publish db_after_simps)
  have ok1: "versions_ok (?d\<lparr>kdb_versions := published_table 1 12 60 55 ?d\<rparr>)"
    using version_exec_ok [OF sample_versions_ok(1), of "PublishVersion 1 12 60 55"] unfolding exec .
  have "require_draft 1 12 ?d = Inr ()"
    unfolding require_draft_def find_version_eq [OF sample_versions_ok(1)] by (simp add: sample_version_defs)
  moreover have "require_draft 1 12 (?d\<lparr>kdb_versions := published_table 1 12 60 55 ?d\<rparr>) =
      Inl (DocumentArtifactVersionNotDraft 12 PUBLISHED)"
    unfolding require_draft_def find_version_eq [OF ok1] unfolding table by (simp add: sample_version_defs)
  moreover have "\<exists>d2. add_artifact (sample_command 22 12 [98]) (?d\<lparr>kdb_versions := published_table 1 12 60 55 ?d\<rparr>) =
      Inr (new_artifact (sample_command 22 12 [98]), d2) \<and> length (contents_of 12 d2) = 1"
    unfolding table add_artifact_def insert_stmt_def
    by (subst sql_write_ok; simp add: sample_artifact_defs sample_version_defs contents_of_def)
  ultimately show ?thesis unfolding Let_def exec by blast
qed

end
