(* ===== verification/Upload.thy ===== *)
theory Upload
  imports Artifacts Chunking
begin

text \<open>
  Object storage and the two services that use it: \<open>platform/storage/minio.py\<close>,
  \<open>services/document_artifact_upload.py\<close> and the ingestion module's
  \<open>services/artifact_loader.py\<close>. The S3 client is a parameter (a record of the four calls
  made of it, over a state of its own); \<open>s3_laws\<close> states what the code relies on. SHA-256 is
  a parameter.
\<close>

section \<open>The storage adapter\<close>

type_synonym bytes = "nat list"

text \<open>\<open>ClientError\<close> with the code of its response, if it has one.\<close>

datatype client_error = ClientError "string option" | BotoCoreError

record 's s3_client =
  put_object :: "pystr \<Rightarrow> bytes \<Rightarrow> pystr \<Rightarrow> 's \<Rightarrow> client_error option \<times> 's"
  get_object :: "pystr \<Rightarrow> 's \<Rightarrow> client_error + bytes"
  delete_object :: "pystr \<Rightarrow> 's \<Rightarrow> client_error option \<times> 's"
  head_object :: "pystr \<Rightarrow> 's \<Rightarrow> client_error option"

datatype storage_error =
    ObjectNotFound pystr
  | ObjectStorageUnavailable string pystr
  | RawClientError client_error

fun is_not_found :: "client_error \<Rightarrow> bool" where
  "is_not_found (ClientError code) = (code \<in> {Some ''NoSuchKey'', Some ''404''})"
| "is_not_found BotoCoreError = False"

definition minio_put :: "'s s3_client \<Rightarrow> pystr \<Rightarrow> bytes \<Rightarrow> pystr \<Rightarrow> 's \<Rightarrow> storage_error option \<times> 's" where
  "minio_put c key content content_type s =
    (case put_object c key content content_type s of (e, s') \<Rightarrow> (map_option RawClientError e, s'))"

definition minio_get :: "'s s3_client \<Rightarrow> pystr \<Rightarrow> 's \<Rightarrow> storage_error + bytes" where
  "minio_get c key s = map_error (\<lambda>e.
      if is_not_found e then ObjectNotFound key else ObjectStorageUnavailable ''get'' key) (get_object c key s)"

definition minio_delete :: "'s s3_client \<Rightarrow> pystr \<Rightarrow> 's \<Rightarrow> storage_error option \<times> 's" where
  "minio_delete c key s = (case delete_object c key s of (e, s') \<Rightarrow> (map_option RawClientError e, s'))"

definition minio_exists :: "'s s3_client \<Rightarrow> pystr \<Rightarrow> 's \<Rightarrow> storage_error + bool" where
  "minio_exists c key s = (case head_object c key s of
      None \<Rightarrow> Inr True
    | Some e \<Rightarrow> if is_not_found e then Inr False else Inl (RawClientError e))"

text \<open>
  What the code relies on: an object reads back as it was put, a delete that returns removes
  it, and no call touches another object.
\<close>

definition s3_laws :: "'s s3_client \<Rightarrow> bool" where
  "s3_laws c \<longleftrightarrow>
    (\<forall>k b t s s'. put_object c k b t s = (None, s') \<longrightarrow> get_object c k s' = Inr b) \<and>
    (\<forall>k b t s e s' k'. put_object c k b t s = (e, s') \<longrightarrow> k' \<noteq> k \<longrightarrow> get_object c k' s' = get_object c k' s) \<and>
    (\<forall>k s s'. delete_object c k s = (None, s') \<longrightarrow> get_object c k s' = Inl (ClientError (Some ''NoSuchKey''))) \<and>
    (\<forall>k s e s' k'. delete_object c k s = (e, s') \<longrightarrow> k' \<noteq> k \<longrightarrow> get_object c k' s' = get_object c k' s)"

section \<open>The upload service\<close>

record upload_config =
  uc_max_file_size_bytes :: int
  uc_accepted_language_codes :: "pystr list"
  uc_allowed_content_types :: "pystr list"
  uc_artifact_key_max_length :: int
  uc_language_code_max_length :: int
  uc_storage_provider :: pystr

definition upload_service_init :: "upload_config \<Rightarrow> value_error + upload_config" where
  "upload_service_init cfg =
    and_then (raise_if (uc_max_file_size_bytes cfg \<le> 0)
      (ValueError ''max_file_size_bytes must be greater than zero'')) (\<lambda>_.
    and_then (raise_if (uc_allowed_content_types cfg = [])
      (ValueError ''allowed_content_types must not be empty'')) (\<lambda>_.
    and_then (raise_if (uc_artifact_key_max_length cfg \<le> 0)
      (ValueError ''artifact_key_max_length must be greater than zero'')) (\<lambda>_.
    and_then (raise_if (uc_language_code_max_length cfg \<le> 0)
      (ValueError ''language_code_max_length must be greater than zero'')) (\<lambda>_.
    and_then (raise_if (strip (uc_storage_provider cfg) = [])
      (ValueError ''storage_provider must not be empty'')) (\<lambda>_.
    and_then (raise_if (uc_accepted_language_codes cfg = [])
      (ValueError ''accepted_language_codes must not be empty'')) (\<lambda>_.
    and_then (raise_if (list_ex (\<lambda>l. strip l = [] \<or> uc_language_code_max_length cfg < int (length l))
        (uc_accepted_language_codes cfg))
      (ValueError ''accepted_language_codes must contain non-empty codes within the configured length'')) (\<lambda>_.
    Inr cfg)))))))"

record upload_command =
  up_document_id :: uuid
  up_version_id :: uuid
  up_artifact_key :: pystr
  up_language_code :: pystr
  up_source_name :: pystr
  up_source_uri :: "pystr option"
  up_content_type :: pystr
  up_content :: bytes
  up_source_updated_at :: "datetime option"

record uploaded_artifact =
  ua_artifact_id :: uuid
  ua_version_id :: uuid
  ua_artifact_key :: pystr
  ua_language_code :: pystr
  ua_mime_type :: pystr
  ua_file_hash :: string
  ua_file_size_bytes :: int

datatype upload_error = DocumentFailure document_error | StorageFailure storage_error | CommitFailure

definition build_storage_key :: "uuid \<Rightarrow> uuid \<Rightarrow> uuid \<Rightarrow> pystr" where
  "build_storage_key doc v a =
    lit ''documents/'' @ uuid_str doc @ lit ''/versions/'' @ uuid_str v @ lit ''/artifacts/'' @ uuid_str a"

definition validate_target :: "upload_command \<Rightarrow> knowledge_db \<Rightarrow> document_error + unit" where
  "validate_target cmd d =
    and_then (find_document (up_document_id cmd) d) (\<lambda>doc. case doc of
      None \<Rightarrow> Inl (DocumentNotFound (up_document_id cmd))
    | Some r \<Rightarrow> and_then (raise_if (kd_deleted_at r \<noteq> None) (DocumentDeleted (up_document_id cmd))) (\<lambda>_.
    and_then (find_version (up_document_id cmd) (up_version_id cmd) d) (\<lambda>version. case version of
      None \<Rightarrow> Inl (DocumentVersionNotFound (up_document_id cmd) (up_version_id cmd))
    | Some w \<Rightarrow> raise_if (vr_status w \<noteq> DRAFT)
        (DocumentArtifactVersionNotDraft (up_version_id cmd) (vr_status w)))))"

definition validate_file :: "upload_config \<Rightarrow> upload_command \<Rightarrow> document_error + unit" where
  "validate_file cfg cmd =
    and_then (raise_if (strip (up_artifact_key cmd) = [] \<or>
        uc_artifact_key_max_length cfg < int (length (up_artifact_key cmd)))
      (DocumentArtifactKeyInvalid (up_artifact_key cmd))) (\<lambda>_.
    and_then (raise_if (uc_language_code_max_length cfg < int (length (up_language_code cmd)))
      (DocumentArtifactLanguageCodeInvalid (up_language_code cmd))) (\<lambda>_.
    and_then (raise_if (up_language_code cmd \<notin> set (uc_accepted_language_codes cfg))
      (DocumentArtifactLanguageCodeInvalid (up_language_code cmd))) (\<lambda>_.
    and_then (raise_if (up_content_type cmd \<notin> set (uc_allowed_content_types cfg))
      (DocumentArtifactContentTypeInvalid (up_content_type cmd))) (\<lambda>_.
    and_then (raise_if (up_content cmd = []) DocumentArtifactEmpty) (\<lambda>_.
      raise_if (uc_max_file_size_bytes cfg < int (length (up_content cmd)))
        (DocumentArtifactTooLarge (int (length (up_content cmd))) (uc_max_file_size_bytes cfg)))))))"

definition upload_row ::
  "(bytes \<Rightarrow> string) \<Rightarrow> upload_config \<Rightarrow> uuid \<Rightarrow> datetime \<Rightarrow> upload_command \<Rightarrow> uuid \<Rightarrow> create_artifact_command"
where
  "upload_row sha cfg a now cmd actor = \<lparr>ca_artifact_id = a, ca_version_id = up_version_id cmd,
    ca_key = up_artifact_key cmd, ca_language_code = up_language_code cmd, ca_source_name = up_source_name cmd,
    ca_source_uri = up_source_uri cmd, ca_source_updated_at = up_source_updated_at cmd,
    ca_storage_provider = uc_storage_provider cfg,
    ca_storage_key = build_storage_key (up_document_id cmd) (up_version_id cmd) a,
    ca_mime_type = up_content_type cmd, ca_file_hash = sha (up_content cmd),
    ca_file_size_bytes = int (length (up_content cmd)), ca_created_by = Some actor,
    ca_metadata = JObj [], ca_created_at = now\<rparr>"

text \<open>Everything before the object is written.\<close>

definition upload_checks ::
  "upload_config \<Rightarrow> uuid \<Rightarrow> upload_command \<Rightarrow> knowledge_db \<Rightarrow> document_error + unit"
where
  "upload_checks cfg a cmd d =
    and_then (validate_target cmd d) (\<lambda>_.
    and_then (validate_file cfg cmd) (\<lambda>_.
    and_then (raise_if (artifact_key_exists (up_version_id cmd) (up_artifact_key cmd) d)
      (DocumentArtifactConflict (up_version_id cmd) (up_artifact_key cmd))) (\<lambda>_.
    let key = build_storage_key (up_document_id cmd) (up_version_id cmd) a in
    raise_if (storage_key_exists (uc_storage_provider cfg) key d)
      (DocumentArtifactStorageLocationConflict (uc_storage_provider cfg) key))))"

text \<open>
  The handler: the outcome, the database and the storage it leaves. \<open>commits\<close> says whether
  \<open>uow.commit()\<close> returns; after a failure past the \<open>put\<close>, the object is deleted again, and an
  error of that deletion is only logged.
\<close>

definition upload ::
  "'s s3_client \<Rightarrow> (bytes \<Rightarrow> string) \<Rightarrow> upload_config \<Rightarrow> uuid \<Rightarrow> datetime \<Rightarrow> bool \<Rightarrow> upload_command \<Rightarrow> uuid \<Rightarrow>
    knowledge_db \<Rightarrow> 's \<Rightarrow> (upload_error + uploaded_artifact) \<times> knowledge_db \<times> 's"
where
  "upload c sha cfg a now commits cmd actor d s =
    (let key = build_storage_key (up_document_id cmd) (up_version_id cmd) a;
         row = upload_row sha cfg a now cmd actor in
     case upload_checks cfg a cmd d of
       Inl e \<Rightarrow> (Inl (DocumentFailure e), d, s)
     | Inr _ \<Rightarrow> (case minio_put c key (up_content cmd) (up_content_type cmd) s of
         (Some e, s1) \<Rightarrow> (Inl (StorageFailure e), d, s1)
       | (None, s1) \<Rightarrow> (case add_artifact row d of
           Inl e \<Rightarrow> (Inl (DocumentFailure e), d, snd (minio_delete c key s1))
         | Inr (_, d1) \<Rightarrow>
             if commits then
               (Inr \<lparr>ua_artifact_id = a, ua_version_id = up_version_id cmd,
                  ua_artifact_key = up_artifact_key cmd, ua_language_code = up_language_code cmd,
                  ua_mime_type = up_content_type cmd, ua_file_hash = ca_file_hash row,
                  ua_file_size_bytes = ca_file_size_bytes row\<rparr>, d1, s1)
             else (Inl CommitFailure, d, snd (minio_delete c key s1)))))"

section \<open>The artifact loader\<close>

record loaded_artifact =
  la_artifact_id :: uuid
  la_content :: bytes
  la_mime_type :: pystr
  la_expected_file_hash :: string
  la_observed_file_hash :: string
  la_file_size_bytes :: int
  la_language_code :: "pystr option"

datatype load_error =
    ArtifactUnavailableForIngestion uuid "artifact_status option"
  | ArtifactIntegrityMismatch uuid string string int int
  | LoadStorageError storage_error
  | LoadDbError document_error

definition load_artifact ::
  "'s s3_client \<Rightarrow> (bytes \<Rightarrow> string) \<Rightarrow> uuid \<Rightarrow> knowledge_db \<Rightarrow> 's \<Rightarrow> load_error + loaded_artifact"
where
  "load_artifact c sha a d s =
    and_then (map_error LoadDbError (find_for_ingestion a d)) (\<lambda>row. case row of
      None \<Rightarrow> Inl (ArtifactUnavailableForIngestion a None)
    | Some r \<Rightarrow>
        if ar_status r \<noteq> AVAILABLE then Inl (ArtifactUnavailableForIngestion a (Some (ar_status r)))
        else and_then (map_error LoadStorageError (minio_get c (ar_storage_key r) s)) (\<lambda>content.
          if int (length content) \<noteq> ar_file_size_bytes r \<or> sha content \<noteq> ar_file_hash r
          then Inl (ArtifactIntegrityMismatch (ar_id r) (ar_file_hash r) (sha content)
            (ar_file_size_bytes r) (int (length content)))
          else Inr \<lparr>la_artifact_id = ar_id r, la_content = content, la_mime_type = ar_mime_type r,
            la_expected_file_hash = ar_file_hash r, la_observed_file_hash = sha content,
            la_file_size_bytes = ar_file_size_bytes r, la_language_code = Some (ar_language_code r)\<rparr>))"

section \<open>Facts\<close>

lemma build_storage_key_inj:
  assumes "build_storage_key doc v a = build_storage_key doc' v' a'"
    and "a < 2 ^ 128" and "a' < 2 ^ 128"
  shows "a = a'"
proof -
  have "drop (length (build_storage_key doc v a) - 36) (build_storage_key doc v a) = uuid_str a" for doc v a
    by (simp add: build_storage_key_def lit_def)
  moreover have "length (build_storage_key doc v a) = length (build_storage_key doc' v' a')"
    using assms(1) by simp
  ultimately have "uuid_str a = uuid_str a'" using assms(1) by metis
  with assms(2,3) show ?thesis by (rule uuid_str_inj [rotated])
qed

lemma s3_lawsD:
  assumes "s3_laws c"
  shows "put_object c k b t s = (None, s') \<Longrightarrow> get_object c k s' = Inr b"
    and "put_object c k b t s = (e, s') \<Longrightarrow> k' \<noteq> k \<Longrightarrow> get_object c k' s' = get_object c k' s"
    and "delete_object c k s = (None, s') \<Longrightarrow> get_object c k s' = Inl (ClientError (Some ''NoSuchKey''))"
    and "delete_object c k s = (e, s') \<Longrightarrow> k' \<noteq> k \<Longrightarrow> get_object c k' s' = get_object c k' s"
  using assms unfolding s3_laws_def by blast+

lemma minio_get_eqI: "get_object c k s' = get_object c k s \<Longrightarrow> minio_get c k s' = minio_get c k s"
  by (simp add: minio_get_def)

lemma add_artifact_Inr:
  "add_artifact cmd d = Inr (r, d') \<longleftrightarrow> r = new_artifact cmd \<and>
    d' = d\<lparr>kdb_artifacts := kdb_artifacts d @ [new_artifact cmd]\<rparr> \<and>
    satisfies (artifact_cs d) (kdb_artifacts d @ [new_artifact cmd])"
  by (auto simp: add_artifact_def and_then_Inr_iff map_error_Inr_iff stmt_iffs)

text \<open>The three ways an upload ends.\<close>

lemma upload_cases:
  assumes "upload c sha cfg a now commits cmd actor d s = (r, d', s')"
  obtains (refused) e where "r = Inl e" "d' = d" "s' = s" "upload_checks cfg a cmd d \<noteq> Inr ()"
  | (put_failed) e e' where "r = Inl e" "d' = d"
      "minio_put c (build_storage_key (up_document_id cmd) (up_version_id cmd) a) (up_content cmd)
        (up_content_type cmd) s = (Some e', s')"
  | (undone) e s1 where "r = Inl e" "d' = d"
      "minio_put c (build_storage_key (up_document_id cmd) (up_version_id cmd) a) (up_content cmd)
        (up_content_type cmd) s = (None, s1)"
      "s' = snd (minio_delete c (build_storage_key (up_document_id cmd) (up_version_id cmd) a) s1)"
  | (stored) u where "r = Inr u" "upload_checks cfg a cmd d = Inr ()"
      "minio_put c (build_storage_key (up_document_id cmd) (up_version_id cmd) a) (up_content cmd)
        (up_content_type cmd) s = (None, s')"
      "add_artifact (upload_row sha cfg a now cmd actor) d = Inr (new_artifact (upload_row sha cfg a now cmd actor), d')"
  using assms
  by (auto simp: upload_def Let_def add_artifact_Inr split: sum.splits prod.splits option.splits if_splits)

lemma upload_knowledge_ok:
  assumes "knowledge_ok d" and "upload c sha cfg a now commits cmd actor d s = (r, d', s')"
  shows "knowledge_ok d'"
  using assms(2)
proof (cases rule: upload_cases)
  case stored
  then have "d' = d\<lparr>kdb_artifacts := kdb_artifacts d @ [new_artifact (upload_row sha cfg a now cmd actor)]\<rparr>"
    "satisfies (artifact_cs d) (kdb_artifacts d')" by (auto simp: add_artifact_Inr)
  moreover from this(1) have "version_cs d' = version_cs d" "acl_cs d' = acl_cs d" "artifact_cs d' = artifact_cs d"
    by (simp_all add: version_cs_def acl_cs_def document_ids_def)
  ultimately show ?thesis using assms(1) by (simp add: knowledge_ok_def versions_ok_def documents_ok_def)
qed (use assms(1) in simp_all)

lemma upload_other_object:
  assumes laws: "s3_laws c" and "upload c sha cfg a now commits cmd actor d s = (r, d', s')"
    and "k \<noteq> build_storage_key (up_document_id cmd) (up_version_id cmd) a"
  shows "minio_get c k s' = minio_get c k s"
  using assms(2)
  by (cases rule: upload_cases; intro minio_get_eqI)
    (use assms(3) s3_lawsD(2,4) [OF laws] in
      \<open>auto simp: minio_put_def minio_delete_def split: prod.splits\<close>)

text \<open>Uploads and the other transactions of the module, interleaved.\<close>

datatype upload_event =
    UploadEvent upload_config uuid datetime bool upload_command uuid
  | KnowledgeEvent knowledge_op

fun upload_exec ::
  "'s s3_client \<Rightarrow> (bytes \<Rightarrow> string) \<Rightarrow> upload_event \<Rightarrow> knowledge_db \<times> 's \<Rightarrow> knowledge_db \<times> 's"
where
  "upload_exec c sha (UploadEvent cfg a now commits cmd actor) (d, s) =
    snd (upload c sha cfg a now commits cmd actor d s)"
| "upload_exec c sha (KnowledgeEvent op) (d, s) = (knowledge_exec op d, s)"

fun leaves_artifact :: "uuid \<Rightarrow> upload_event \<Rightarrow> bool" where
  "leaves_artifact a (UploadEvent cfg b now commits cmd actor) = (b \<noteq> a \<and> b < 2 ^ 128)"
| "leaves_artifact a (KnowledgeEvent op) = (\<not> transitions a op)"

lemma upload_exec_keeps:
  assumes laws: "s3_laws c" and ok: "knowledge_ok d" and row: "lookup ar_id a (kdb_artifacts d) = Some r"
    and key: "ar_storage_key r = build_storage_key doc v a" and a: "a < 2 ^ 128"
    and ev: "leaves_artifact a ev" and step: "upload_exec c sha ev (d, s) = (d', s')"
  shows "knowledge_ok d' \<and> lookup ar_id a (kdb_artifacts d') = Some r \<and>
    minio_get c (ar_storage_key r) s' = minio_get c (ar_storage_key r) s"
proof (cases ev)
  case (UploadEvent cfg b now commits cmd actor)
  with step obtain res where up: "upload c sha cfg b now commits cmd actor d s = (res, d', s')"
    by (cases "upload c sha cfg b now commits cmd actor d s") auto
  have "ar_storage_key r \<noteq> build_storage_key (up_document_id cmd) (up_version_id cmd) b"
    using build_storage_key_inj [OF _ a, of doc v _ _ b] ev key UploadEvent by auto
  then have "minio_get c (ar_storage_key r) s' = minio_get c (ar_storage_key r) s"
    by (rule upload_other_object [OF laws up])
  moreover have "lookup ar_id a (kdb_artifacts d') = Some r"
    using up row by (cases rule: upload_cases) (auto simp: add_artifact_Inr lookup_append)
  ultimately show ?thesis using upload_knowledge_ok [OF ok up] by blast
next
  case (KnowledgeEvent op)
  with assms knowledge_exec_ok [OF ok, of op] knowledge_exec_keeps_artifact [OF ok row, of op] show ?thesis by auto
qed

lemma upload_run_keeps:
  assumes laws: "s3_laws c" and a: "a < 2 ^ 128"
  shows "knowledge_ok d \<Longrightarrow> lookup ar_id a (kdb_artifacts d) = Some r \<Longrightarrow> ar_storage_key r = build_storage_key doc v a \<Longrightarrow>
    list_all (leaves_artifact a) evs \<Longrightarrow> fold (upload_exec c sha) evs (d, s) = (d', s') \<Longrightarrow>
    knowledge_ok d' \<and> lookup ar_id a (kdb_artifacts d') = Some r \<and>
    minio_get c (ar_storage_key r) s' = minio_get c (ar_storage_key r) s"
proof (induction evs arbitrary: d s)
  case (Cons ev evs)
  obtain d1 s1 where step: "upload_exec c sha ev (d, s) = (d1, s1)" by fastforce
  from upload_exec_keeps [OF laws Cons.prems(1,2,3) a _ step] Cons.prems(4)
  have "knowledge_ok d1" "lookup ar_id a (kdb_artifacts d1) = Some r"
    "minio_get c (ar_storage_key r) s1 = minio_get c (ar_storage_key r) s" by auto
  with Cons.IH [of d1 s1] Cons.prems step show ?case by simp
qed simp

section \<open>Properties\<close>

text \<open>A storage that never fails: the objects as a list.\<close>

definition sample_client :: "(pystr \<times> bytes) list s3_client" where
  "sample_client = \<lparr>
    put_object = (\<lambda>k b t s. (None, (k, b) # filter (\<lambda>e. fst e \<noteq> k) s)),
    get_object = (\<lambda>k s. case map_of s k of None \<Rightarrow> Inl (ClientError (Some ''NoSuchKey'')) | Some b \<Rightarrow> Inr b),
    delete_object = (\<lambda>k s. (None, filter (\<lambda>e. fst e \<noteq> k) s)),
    head_object = (\<lambda>k s. if map_of s k = None then Some (ClientError (Some ''404'')) else None)\<rparr>"

lemma sample_client_laws: "s3_laws sample_client"
proof -
  have "map_of (filter (\<lambda>e. fst e \<noteq> k) s) k' = (if k' = k then None else map_of s k')" for k k' and s :: "(pystr \<times> bytes) list"
    by (induction s) auto
  then show ?thesis by (simp add: s3_laws_def sample_client_def)
qed

definition sample_upload_config :: upload_config where
  "sample_upload_config = \<lparr>uc_max_file_size_bytes = 10, uc_accepted_language_codes = [[101, 110]],
    uc_allowed_content_types = [[116]], uc_artifact_key_max_length = 5, uc_language_code_max_length = 2,
    uc_storage_provider = [109]\<rparr>"

definition sample_upload :: "uuid \<Rightarrow> pystr \<Rightarrow> bytes \<Rightarrow> upload_command" where
  "sample_upload v key content = \<lparr>up_document_id = 1, up_version_id = v, up_artifact_key = key,
    up_language_code = [101, 110], up_source_name = [], up_source_uri = None, up_content_type = [116],
    up_content = content, up_source_updated_at = None\<rparr>"

lemma sample_upload_ok:
  "upload_checks sample_upload_config 30 (sample_upload 12 [98] [7, 8]) sample_artifacts = Inr ()"
  "\<exists>x. add_artifact (upload_row (\<lambda>_. ''h'') sample_upload_config 30 40 (sample_upload 12 [98] [7, 8]) 5)
    sample_artifacts = Inr x"
proof -
  have vok: "versions_ok sample_artifacts" using sample_artifacts_ok by (simp add: knowledge_ok_def)
  show "upload_checks sample_upload_config 30 (sample_upload 12 [98] [7, 8]) sample_artifacts = Inr ()"
    unfolding upload_checks_def validate_target_def find_version_eq [OF vok]
    by (simp add: validate_file_def sample_upload_def sample_upload_config_def find_document_def sql_select_def
        artifact_key_exists_def storage_key_exists_def sql_exists_def strip_def lstrip_def rstrip_def py_isspace_def
        build_storage_key_def lit_def sample_artifact_defs sample_version_defs)
  show "\<exists>x. add_artifact (upload_row (\<lambda>_. ''h'') sample_upload_config 30 40 (sample_upload 12 [98] [7, 8]) 5)
      sample_artifacts = Inr x"
    unfolding add_artifact_def insert_stmt_def
    by (subst sql_write_ok; simp add: upload_row_def sample_upload_def sample_upload_config_def build_storage_key_def
        lit_def sample_artifact_defs sample_version_defs)
qed



lemma uploaded_artifact_loads:
  assumes "s3_laws c" and "knowledge_ok d" and "a < 2 ^ 128"
    and "upload c sha cfg a now commits cmd actor d s = (Inr u, d1, s1)"
    and "list_all (leaves_artifact a) evs" and "fold (upload_exec c sha) evs (d1, s1) = (d', s')"
  shows "load_artifact c sha a d' s' = Inr \<lparr>la_artifact_id = a, la_content = up_content cmd,
    la_mime_type = up_content_type cmd, la_expected_file_hash = sha (up_content cmd),
    la_observed_file_hash = sha (up_content cmd), la_file_size_bytes = int (length (up_content cmd)),
    la_language_code = Some (up_language_code cmd)\<rparr>"
proof -
  let ?r = "new_artifact (upload_row sha cfg a now cmd actor)"
  let ?k = "build_storage_key (up_document_id cmd) (up_version_id cmd) a"
  have ok1: "knowledge_ok d1" by (rule upload_knowledge_ok [OF assms(2,4)])
  from assms(4) obtain "put": "minio_put c ?k (up_content cmd) (up_content_type cmd) s = (None, s1)"
    and add: "add_artifact (upload_row sha cfg a now cmd actor) d = Inr (?r, d1)"
    by (cases rule: upload_cases) auto
  have id: "ar_id ?r = a" and key: "ar_storage_key ?r = ?k" by (simp_all add: new_artifact_def upload_row_def)
  have row: "lookup ar_id a (kdb_artifacts d1) = Some ?r"
    using add id ok1 by (intro lookup_unique knowledge_ok_artifact_keys) (auto simp: add_artifact_Inr knowledge_ok_def)
  have "minio_get c ?k s1 = Inr (up_content cmd)"
    using "put" s3_lawsD(1) [OF assms(1), of ?k "up_content cmd" "up_content_type cmd" s s1]
    by (auto simp: minio_put_def minio_get_def split: prod.splits)
  with upload_run_keeps [OF assms(1,3) ok1 row key assms(5,6)]
  have ok': "knowledge_ok d'" and row': "lookup ar_id a (kdb_artifacts d') = Some ?r"
    and content: "minio_get c ?k s' = Inr (up_content cmd)" by (simp_all add: key)
  have "find_for_ingestion a d' = Inr (Some ?r)"
    using one_or_none_pk [OF knowledge_ok_artifact_keys, of d' "kdb_artifacts d'" a] ok' row'
    by (simp add: find_for_ingestion_def knowledge_ok_def)
  with content show ?thesis by (simp add: load_artifact_def key) (simp add: new_artifact_def upload_row_def)
qed

text \<open>
  C17. What is uploaded can be loaded. After an upload succeeds, the ingestion loader returns
  exactly the uploaded bytes with the recorded hash, type and language, through any later
  uploads (successful or not) under other identifiers and any transactions of the knowledge
  module that do not change this artifact's status.
\<close>

theorem uploaded_content_loads:
  assumes "s3_laws c" and "knowledge_ok d" and "a < 2 ^ 128"
    and "upload c sha cfg a now commits cmd actor d s = (Inr u, d1, s1)"
    and "list_all (leaves_artifact a) evs" and "fold (upload_exec c sha) evs (d1, s1) = (d', s')"
  shows "load_artifact c sha a d' s' = Inr \<lparr>la_artifact_id = a, la_content = up_content cmd,
    la_mime_type = up_content_type cmd, la_expected_file_hash = sha (up_content cmd),
    la_observed_file_hash = sha (up_content cmd), la_file_size_bytes = int (length (up_content cmd)),
    la_language_code = Some (up_language_code cmd)\<rparr>"
  by (rule uploaded_artifact_loads [OF assms])

theorem uploaded_content_loads_witness:
  "\<exists>u d1 s1. upload sample_client (\<lambda>_. ''h'') sample_upload_config 30 40 True (sample_upload 12 [98] [7, 8]) 5
      sample_artifacts [] = (Inr u, d1, s1) \<and>
    (\<exists>l. load_artifact sample_client (\<lambda>_. ''h'') 30
      (knowledge_exec (ArtifactOp (MarkMissing 1 11 21 50)) d1) s1 = Inr l \<and> la_content l = [7, 8])"
proof -
  let ?u = "upload sample_client (\<lambda>_. ''h'') sample_upload_config 30 40 True (sample_upload 12 [98] [7, 8]) 5
      sample_artifacts []"
  obtain u d1 s1 where u: "?u = (Inr u, d1, s1)"
    using sample_upload_ok by (auto simp: upload_def Let_def minio_put_def sample_client_def)
  have "\<exists>l. load_artifact sample_client (\<lambda>_. ''h'') 30
      (knowledge_exec (ArtifactOp (MarkMissing 1 11 21 50)) d1) s1 = Inr l \<and> la_content l = [7, 8]"
    using uploaded_content_loads [OF sample_client_laws sample_artifacts_ok _ u,
      of "[KnowledgeEvent (ArtifactOp (MarkMissing 1 11 21 50))]"]
    by (simp add: sample_upload_def)
  with u show ?thesis by blast
qed

end
