(* ===== verification/ExtractText.thy ===== *)
theory ExtractText
  imports Upload
begin

text \<open>
  Text extraction: the pipeline of \<open>modules/ingestion/extraction/pipeline.py\<close> with its primary
  and fallback extractors as parameters, the shadow quality gate of \<open>quality.py\<close>, and the
  service \<open>services/artifact_extraction.py\<close>. The quality score is the exact quotient that the
  code rounds to a float.
\<close>

section \<open>Definitions\<close>

datatype extraction_method = OPENAI_OCR | VLM

text \<open>What an extractor raises: the two provider errors of the contract, or anything else.\<close>

datatype extractor_error =
    ExtractionProviderTransientError extraction_method string
  | ExtractionProviderPermanentError extraction_method string
  | OtherExtractorError

type_synonym document_extractor = "loaded_artifact \<Rightarrow> extractor_error + extracted_document"

datatype extraction_error = ExtractionFailed string string bool | UncaughtExtractorError

definition NO_FALLBACK_CONFIGURED :: string where
  "NO_FALLBACK_CONFIGURED = ''no_fallback_configured''"

record quality_assessment =
  qa_score :: rat
  qa_reason_codes :: "string list"

definition evaluate_quality :: "extracted_document \<Rightarrow> quality_assessment" where
  "evaluate_quality doc =
    (if doc_blocks doc = [] then \<lparr>qa_score = 0, qa_reason_codes = [''empty_document'']\<rparr>
     else let n = length (filter (\<lambda>blk. strip (blk_text blk) \<noteq> []) (doc_blocks doc)) in
       \<lparr>qa_score = of_nat n / of_nat (length (doc_blocks doc)),
        qa_reason_codes = (if n = length (doc_blocks doc) then [] else [''empty_block_text''])\<rparr>)"

record extraction_result =
  er_document :: extracted_document
  er_method :: extraction_method
  er_fallback_used :: bool
  er_fallback_reason :: "string option"
  er_quality_score :: "rat option"

record extraction_pipeline =
  ep_primary :: document_extractor
  ep_fallback :: "document_extractor option"
  ep_primary_method :: extraction_method
  ep_fallback_method :: extraction_method

definition build_result ::
  "extracted_document \<Rightarrow> extraction_method \<Rightarrow> bool \<Rightarrow> string option \<Rightarrow> extraction_result"
where
  "build_result doc method used reason = \<lparr>er_document = doc, er_method = method, er_fallback_used = used,
    er_fallback_reason = reason, er_quality_score = Some (qa_score (evaluate_quality doc))\<rparr>"

definition extract_with_fallback ::
  "extraction_pipeline \<Rightarrow> loaded_artifact \<Rightarrow> string \<Rightarrow> bool \<Rightarrow> extraction_error + extraction_result"
where
  "extract_with_fallback p artifact reason transient =
    (case ep_fallback p of
       None \<Rightarrow> Inl (ExtractionFailed reason NO_FALLBACK_CONFIGURED transient)
     | Some fallback \<Rightarrow> (case fallback artifact of
         Inl (ExtractionProviderTransientError _ r) \<Rightarrow> Inl (ExtractionFailed reason r True)
       | Inl (ExtractionProviderPermanentError _ r) \<Rightarrow> Inl (ExtractionFailed reason r False)
       | Inl OtherExtractorError \<Rightarrow> Inl UncaughtExtractorError
       | Inr doc \<Rightarrow> Inr (build_result doc (ep_fallback_method p) True (Some reason))))"

definition extract_document :: "extraction_pipeline \<Rightarrow> loaded_artifact \<Rightarrow> extraction_error + extraction_result" where
  "extract_document p artifact =
    (case ep_primary p artifact of
       Inl (ExtractionProviderTransientError _ r) \<Rightarrow> extract_with_fallback p artifact r True
     | Inl (ExtractionProviderPermanentError _ r) \<Rightarrow> extract_with_fallback p artifact r False
     | Inl OtherExtractorError \<Rightarrow> Inl UncaughtExtractorError
     | Inr doc \<Rightarrow> Inr (build_result doc (ep_primary_method p) False None))"

text \<open>The extraction service: load, then extract.\<close>

record artifact_extraction =
  ae_artifact :: loaded_artifact
  ae_result :: extraction_result

definition extract_artifact ::
  "'s s3_client \<Rightarrow> (bytes \<Rightarrow> string) \<Rightarrow> extraction_pipeline \<Rightarrow> uuid \<Rightarrow> knowledge_db \<Rightarrow> 's \<Rightarrow>
    (load_error + extraction_error) + artifact_extraction"
where
  "extract_artifact c sha p a d s =
    and_then (map_error Inl (load_artifact c sha a d s)) (\<lambda>artifact.
    and_then (map_error Inr (extract_document p artifact)) (\<lambda>result.
      Inr \<lparr>ae_artifact = artifact, ae_result = result\<rparr>))"

section \<open>Facts\<close>

lemma quality_score_bounds: "0 \<le> qa_score (evaluate_quality doc) \<and> qa_score (evaluate_quality doc) \<le> 1"
proof (cases "doc_blocks doc = []")
  case False
  have "length (filter (\<lambda>blk. strip (blk_text blk) \<noteq> []) (doc_blocks doc)) \<le> length (doc_blocks doc)"
    by (rule length_filter_le)
  with False show ?thesis by (simp add: evaluate_quality_def Let_def)
qed (simp add: evaluate_quality_def)

lemma quality_score_one:
  "qa_score (evaluate_quality doc) = 1 \<longleftrightarrow> doc_blocks doc \<noteq> [] \<and>
    (\<forall>blk \<in> set (doc_blocks doc). strip (blk_text blk) \<noteq> [])"
proof (cases "doc_blocks doc = []")
  case False
  have "length xs = length (filter p xs) \<longleftrightarrow> (\<forall>x \<in> set xs. p x)" for p and xs :: "extracted_block list"
    by (metis filter_True filter_id_conv length_filter_less nat_neq_iff)
  with False show ?thesis by (simp add: evaluate_quality_def Let_def)
qed (simp add: evaluate_quality_def)

text \<open>The provider errors of an extractor.\<close>

definition provider_error :: "extractor_error + extracted_document \<Rightarrow> (string \<times> bool) option" where
  "provider_error r = (case r of
      Inl (ExtractionProviderTransientError _ s) \<Rightarrow> Some (s, True)
    | Inl (ExtractionProviderPermanentError _ s) \<Rightarrow> Some (s, False)
    | _ \<Rightarrow> None)"

section \<open>Properties\<close>

text \<open>
  C22. What extraction returns. It succeeds exactly when the primary extractor does, or when the
  primary one reports a provider error and the configured fallback succeeds; the result then
  names the method and the reason, with a score between 0 and 1 that is 1 exactly for a
  non-empty document without blank blocks. It fails with \<open>ExtractionFailed\<close> exactly when every
  configured provider reported an error, and is retryable exactly when the last one reported a
  transient error, whatever the first one reported.
\<close>

theorem extraction_outcome:
  "(extract_document p a = Inr res \<longleftrightarrow>
     (\<exists>doc. ep_primary p a = Inr doc \<and> res = build_result doc (ep_primary_method p) False None) \<or>
     (\<exists>r t f doc. provider_error (ep_primary p a) = Some (r, t) \<and> ep_fallback p = Some f \<and> f a = Inr doc \<and>
       res = build_result doc (ep_fallback_method p) True (Some r))) \<and>
   (extract_document p a = Inl (ExtractionFailed r1 r2 retryable) \<longleftrightarrow>
     (\<exists>t. provider_error (ep_primary p a) = Some (r1, t) \<and>
       (case ep_fallback p of None \<Rightarrow> r2 = NO_FALLBACK_CONFIGURED \<and> retryable = t
        | Some f \<Rightarrow> provider_error (f a) = Some (r2, retryable)))) \<and>
   (\<exists>q. er_quality_score (build_result doc m used why) = Some q \<and> 0 \<le> q \<and> q \<le> 1 \<and>
     (q = 1 \<longleftrightarrow> doc_blocks doc \<noteq> [] \<and> list_all nonblank (doc_blocks doc)))"
proof (intro conjI)
  show "\<exists>q. er_quality_score (build_result doc m used why) = Some q \<and> 0 \<le> q \<and> q \<le> 1 \<and>
     (q = 1 \<longleftrightarrow> doc_blocks doc \<noteq> [] \<and> list_all nonblank (doc_blocks doc))"
    using quality_score_bounds [of doc] quality_score_one [of doc]
    by (simp add: build_result_def list_all_iff nonblank_def)
qed (auto simp: extract_document_def extract_with_fallback_def provider_error_def NO_FALLBACK_CONFIGURED_def
    split: sum.splits extractor_error.splits option.splits)

end
