(* ===== verification/IngestionWorker.thy ===== *)
theory IngestionWorker
  imports Ingestion ExtractText
begin

text \<open>
  The ingestion worker: \<open>workers/default_processor.py\<close> (load, extract, configure, chunk,
  complete), \<open>workers/job_handler.py\<close> (claim, the race of the processor against the
  heartbeat, settlement of each kind of error), \<open>workers/heartbeat.py\<close> with
  \<open>platform/jobs/heartbeat.py\<close>, \<open>workers/errors.py\<close> and the task of
  \<open>platform/jobs/tasks/ingestion.py\<close> that assembles them.

  The handler runs several transactions. What other workers do to the database between two
  of them is an argument (a function on the database), and so are the clock readings.
\<close>

section \<open>Errors\<close>

datatype worker_error =
    IngestionLeaseLost
  | PermanentIngestionError string
  | TransientIngestionError
  | UnexpectedError

definition EXTRACTION_FAILED :: string where
  "EXTRACTION_FAILED = ''extraction_failed''"

definition CHUNKING_FAILED :: string where
  "CHUNKING_FAILED = ''chunking_failed''"

definition TRANSIENT_INGESTION_ERROR :: string where
  "TRANSIENT_INGESTION_ERROR = ''transient_ingestion_error''"

definition UNEXPECTED_INGESTION_ERROR :: string where
  "UNEXPECTED_INGESTION_ERROR = ''unexpected_ingestion_error''"

section \<open>The heartbeat\<close>

text \<open>
  One entry per interval that elapses before the stop event is set: the clocks at the renewal
  and what others do before it. The result says whether the lease was found lost.
\<close>

definition heartbeat_init :: "timedelta \<Rightarrow> value_error + timedelta" where
  "heartbeat_init interval =
    and_then (raise_if (interval \<le> 0) (ValueError ''Heartbeat interval must be positive'')) (\<lambda>_. Inr interval)"

fun heartbeat_loop ::
  "lifecycle \<Rightarrow> uuid \<Rightarrow> int \<Rightarrow> (datetime \<times> datetime \<times> (ingestion_db \<Rightarrow> ingestion_db)) list \<Rightarrow> ingestion_db \<Rightarrow>
    bool \<times> ingestion_db"
where
  "heartbeat_loop lc i n [] d = (False, d)"
| "heartbeat_loop lc i n ((now, db, others) # ticks) d =
    (case heartbeat_tx lc i n now db (others d) of
       Inl _ \<Rightarrow> (True, others d)
     | Inr (renewed, d') \<Rightarrow> if renewed then heartbeat_loop lc i n ticks d' else (True, d'))"

section \<open>The processor\<close>

record 's worker_env =
  we_client :: "'s s3_client"
  we_sha256 :: "bytes \<Rightarrow> string"
  we_text_sha256 :: "pystr \<Rightarrow> string"
  we_pipeline :: extraction_pipeline
  we_tokenizers :: "pystr \<times> pystr \<Rightarrow> reference_tokenizer option"

fun method_value :: "extraction_method \<Rightarrow> string" where
  "method_value OPENAI_OCR = ''openai_ocr''"
| "method_value VLM = ''vlm''"

definition build_execution_metadata :: "extraction_result \<Rightarrow> (pystr \<times> json) list" where
  "build_execution_metadata r = [(lit ''extraction'', JObj
    [(lit ''method'', JStr (lit (method_value (er_method r)))),
     (lit ''fallback_used'', JBool (er_fallback_used r)),
     (lit ''fallback_reason'', case er_fallback_reason r of None \<Rightarrow> JNull | Some s \<Rightarrow> JStr (lit s)),
     (lit ''quality_score'', case er_quality_score r of None \<Rightarrow> JNull | Some q \<Rightarrow> JFloat q),
     (lit ''block_count'', JInt (int (length (doc_blocks (er_document r))))),
     (lit ''document_metadata'', doc_metadata (er_document r))])]"

definition with_chunking_metadata :: "(pystr \<times> json) list \<Rightarrow> chunking_config \<Rightarrow> nat \<Rightarrow> json" where
  "with_chunking_metadata metadata c n = JObj (metadata @ [(lit ''chunking'', JObj
    [(lit ''strategy'', JStr (strategy_value (cc_strategy c))),
     (lit ''reference_tokenizer'', JStr (cc_reference_tokenizer c)),
     (lit ''reference_tokenizer_version'', JStr (cc_reference_tokenizer_version c)),
     (lit ''chunk_count'', JInt (int n))])])"

fun load_failure :: "load_error \<Rightarrow> worker_error" where
  "load_failure (ArtifactUnavailableForIngestion _ _) =
    PermanentIngestionError ''artifact_unavailable_for_ingestion''"
| "load_failure (ArtifactIntegrityMismatch _ _ _ _ _) = PermanentIngestionError ''artifact_integrity_mismatch''"
| "load_failure (LoadStorageError (ObjectNotFound _)) = PermanentIngestionError ''artifact_object_missing''"
| "load_failure (LoadStorageError (ObjectStorageUnavailable _ _)) = TransientIngestionError"
| "load_failure (LoadStorageError (RawClientError _)) = UnexpectedError"
| "load_failure (LoadDbError _) = UnexpectedError"

fun extract_failure :: "extraction_error \<Rightarrow> worker_error" where
  "extract_failure (ExtractionFailed _ _ retryable) =
    (if retryable then TransientIngestionError else PermanentIngestionError EXTRACTION_FAILED)"
| "extract_failure UncaughtExtractorError = UnexpectedError"

definition get_chunking_config :: "claimed_item \<Rightarrow> ingestion_db \<Rightarrow> worker_error + chunking_config" where
  "get_chunking_config claim d = (case ci_run_id claim of
      None \<Rightarrow> Inl (PermanentIngestionError CHUNKING_FAILED)
    | Some rid \<Rightarrow> and_then (map_error (\<lambda>_. UnexpectedError) (find_run rid d)) (\<lambda>run. case run of
        None \<Rightarrow> Inl (PermanentIngestionError CHUNKING_FAILED)
      | Some r \<Rightarrow> map_error (\<lambda>_. PermanentIngestionError CHUNKING_FAILED)
          (config_from_run_configuration (run_configuration r))))"

definition chunk_document ::
  "'s worker_env \<Rightarrow> extraction_result \<Rightarrow> chunking_config \<Rightarrow> pystr option \<Rightarrow> worker_error + chunk_draft list"
where
  "chunk_document env result config lang =
    map_error (\<lambda>_. PermanentIngestionError CHUNKING_FAILED)
      (and_then (resolve_chunker (we_tokenizers env) config) (\<lambda>chunk.
        chunk (we_text_sha256 env) lang (er_document result)))"

text \<open>Everything up to the completing transaction: the drafts, the hash and the metadata.\<close>

definition prepare ::
  "'s worker_env \<Rightarrow> claimed_item \<Rightarrow> knowledge_db \<Rightarrow> 's \<Rightarrow> ingestion_db \<Rightarrow>
    worker_error + chunk_draft list \<times> string \<times> json"
where
  "prepare env claim k s d =
    and_then (map_error load_failure
      (load_artifact (we_client env) (we_sha256 env) (ci_artifact_id claim) k s)) (\<lambda>artifact.
    and_then (map_error extract_failure (extract_document (we_pipeline env) artifact)) (\<lambda>result.
    and_then (get_chunking_config claim d) (\<lambda>config.
    and_then (chunk_document env result config (la_language_code artifact)) (\<lambda>chunks.
      Inr (chunks, la_observed_file_hash artifact,
        with_chunking_metadata (build_execution_metadata result) config (length chunks))))))"

definition process ::
  "'s worker_env \<Rightarrow> claimed_item \<Rightarrow> knowledge_db \<Rightarrow> 's \<Rightarrow> (ingestion_db \<Rightarrow> ingestion_db) \<Rightarrow>
    (nat \<Rightarrow> uuid list) \<Rightarrow> datetime \<Rightarrow> datetime \<Rightarrow> ingestion_db \<Rightarrow> (worker_error + unit) \<times> ingestion_db"
where
  "process env claim k s others fresh now db d =
    (case prepare env claim k s d of
       Inl e \<Rightarrow> (Inl e, others d)
     | Inr (chunks, h, meta) \<Rightarrow>
        (case replace_chunks_and_mark_completed_tx (ci_item_id claim) (ci_attempt_number claim) chunks h meta
            (fresh (length chunks)) now db (others d) of
           Inl _ \<Rightarrow> (Inl UnexpectedError, others d)
         | Inr (completed, d') \<Rightarrow> (if completed then Inr () else Inl IngestionLeaseLost, d')))"

section \<open>The job handler\<close>

text \<open>
  How the race ends: the processor's task is done first (the flag says whether the lease was
  reported lost meanwhile), or the heartbeat's task is done, alone or together with the
  processor's; in the latter case \<open>committed\<close> says whether the processor got as far as its
  transaction before it was cancelled.
\<close>

datatype race = ProcessorDone bool | HeartbeatDone bool

definition run_claimed_item :: "race \<Rightarrow> worker_error + unit \<Rightarrow> worker_error + unit" where
  "run_claimed_item race result = (case race of
      HeartbeatDone _ \<Rightarrow> Inl IngestionLeaseLost
    | ProcessorDone lease_lost \<Rightarrow> and_then result (\<lambda>_. raise_if lease_lost IngestionLeaseLost))"

definition finish :: "ingestion_db \<Rightarrow> db_error + bool \<times> ingestion_db \<Rightarrow> ingestion_error option \<times> ingestion_db" where
  "finish d m = (case m of Inl e \<Rightarrow> (Some (IngestionDbError e), d) | Inr (_, d') \<Rightarrow> (None, d'))"

definition settle ::
  "lifecycle \<Rightarrow> claimed_item \<Rightarrow> worker_error + unit \<Rightarrow> uuid \<Rightarrow> datetime \<Rightarrow> datetime \<Rightarrow> ingestion_db \<Rightarrow>
    ingestion_error option \<times> ingestion_db"
where
  "settle lc claim result job now db d = (let i = ci_item_id claim; n = ci_attempt_number claim in
    case result of
      Inr _ \<Rightarrow> (None, d)
    | Inl IngestionLeaseLost \<Rightarrow> (None, d)
    | Inl (PermanentIngestionError code) \<Rightarrow> finish d (mark_failed_tx i n code None None now db d)
    | Inl TransientIngestionError \<Rightarrow>
        finish d (schedule_retry_tx lc i n TRANSIENT_INGESTION_ERROR None job now db d)
    | Inl UnexpectedError \<Rightarrow>
        finish d (schedule_retry_tx lc i n UNEXPECTED_INGESTION_ERROR None job now db d))"

text \<open>The clock readings, fresh identifiers and interference of one delivery.\<close>

record delivery =
  dl_claim_now :: datetime
  dl_claim_db :: datetime
  dl_before_process :: "ingestion_db \<Rightarrow> ingestion_db"
  dl_before_complete :: "ingestion_db \<Rightarrow> ingestion_db"
  dl_chunk_ids :: "nat \<Rightarrow> uuid list"
  dl_complete_now :: datetime
  dl_complete_db :: datetime
  dl_race :: race
  dl_before_settle :: "ingestion_db \<Rightarrow> ingestion_db"
  dl_job_id :: uuid
  dl_settle_now :: datetime
  dl_settle_db :: datetime

definition work ::
  "lifecycle \<Rightarrow> 's worker_env \<Rightarrow> delivery \<Rightarrow> claimed_item \<Rightarrow> knowledge_db \<Rightarrow> 's \<Rightarrow> ingestion_db \<Rightarrow>
    ingestion_error option \<times> ingestion_db"
where
  "work lc env dl claim k s d1 =
    (let d2 = dl_before_process dl d1;
         (result, d3) = process env claim k s (dl_before_complete dl) (dl_chunk_ids dl)
           (dl_complete_now dl) (dl_complete_db dl) d2;
         d4 = (if dl_race dl = HeartbeatDone False then dl_before_complete dl d2 else d3);
         d5 = dl_before_settle dl d4 in
     settle lc claim (run_claimed_item (dl_race dl) result) (dl_job_id dl) (dl_settle_now dl)
       (dl_settle_db dl) d5)"

definition handle ::
  "lifecycle \<Rightarrow> 's worker_env \<Rightarrow> delivery \<Rightarrow> uuid \<Rightarrow> knowledge_db \<Rightarrow> 's \<Rightarrow> ingestion_db \<Rightarrow>
    ingestion_error option \<times> ingestion_db"
where
  "handle lc env dl i k s d =
    (case claim_tx lc i (dl_claim_now dl) (dl_claim_db dl) d of
       Inl e \<Rightarrow> (Some (IngestionDbError e), d)
     | Inr (None, d0) \<Rightarrow> (None, d0)
     | Inr (Some claim, d1) \<Rightarrow> work lc env dl claim k s d1)"

text \<open>The environment that the task builds.\<close>

definition task_env ::
  "'s s3_client \<Rightarrow> (bytes \<Rightarrow> string) \<Rightarrow> (pystr \<Rightarrow> string) \<Rightarrow> extraction_pipeline \<Rightarrow> 's worker_env"
where
  "task_env c sha text_sha pipeline = \<lparr>we_client = c, we_sha256 = sha, we_text_sha256 = text_sha,
    we_pipeline = pipeline, we_tokenizers = registered_tokenizers\<rparr>"

section \<open>Facts\<close>

text \<open>Interference that leaves an item, the runs and the invariant alone.\<close>

definition quiet :: "uuid \<Rightarrow> (ingestion_db \<Rightarrow> ingestion_db) \<Rightarrow> bool" where
  "quiet i f \<longleftrightarrow> (\<forall>d. ingestion_ok d \<longrightarrow> ingestion_ok (f d) \<and>
    lookup it_id i (idb_items (f d)) = lookup it_id i (idb_items d) \<and> idb_runs (f d) = idb_runs d)"

lemma quietD:
  assumes "quiet i f" and "ingestion_ok d"
  shows "ingestion_ok (f d)" "lookup it_id i (idb_items (f d)) = lookup it_id i (idb_items d)"
    "idb_runs (f d) = idb_runs d"
  using assms by (simp_all add: quiet_def)

lemma quiet_publisher: "quiet i (\<lambda>d. d\<lparr>idb_outbox := outbox_exec op (idb_outbox d)\<rparr>)"
  using ingestion_exec_ok [of _ lc db "OutboxStep op" for lc db] by (simp add: quiet_def)

lemma positive_pages_iff: "positive_pages = pages_positive"
  by (auto simp: positive_pages_def pages_positive_def positive_page_def fun_eq_iff split: option.splits)

lemma chunk_document_total:
  assumes "config_from_run_configuration j = Inr cfg"
    and "registered_tokenizers (cc_reference_tokenizer cfg, cc_reference_tokenizer_version cfg) \<noteq> None"
    and "list_all (\<lambda>blk. utf8_encodable (blk_text blk)) (doc_blocks (er_document res))"
  shows "\<exists>drafts. chunk_document (task_env c sha tsha p) res cfg lang = Inr drafts \<and>
    drafts_wf (whitespace_builder tsha lang) drafts \<and> words drafts = block_words (body_blocks cfg (er_document res)) \<and>
    (list_all block_page_positive (doc_blocks (er_document res)) \<longrightarrow> list_all pages_positive drafts)"
proof -
  from assms(2) obtain chunk where chunk: "resolve_chunker registered_tokenizers cfg = Inr chunk"
    by (auto simp: resolve_chunker_def)
  from resolved_total [OF read_config_valid [OF assms(1)] chunk assms(3), of tsha lang] obtain drafts where
    "chunk tsha lang (er_document res) = Inr drafts" by blast
  with resolved_wf [OF chunk this] resolved_words [OF chunk this] resolved_pages [OF chunk this] chunk show ?thesis
    by (auto simp: chunk_document_def task_env_def positive_pages_iff)
qed








section \<open>Properties\<close>

text \<open>
  A delivered item is ingested. When the item is pending with attempts left, its artifact
  loads, extraction succeeds with encodable text, its run's configuration is valid for a
  registered tokenizer, the worker completes before the lease it took runs out and others leave
  the item alone, the handler returns without error and the item is COMPLETED with the hash of the
  loaded bytes; the chunks stored for it are well formed and hold exactly the words of the body
  of the extracted document.
\<close>

theorem worker_completes_item:
  assumes ok: "ingestion_ok d" and row: "lookup it_id i (idb_items d) = Some r" and pending: "it_status r = PENDING"
    and attempts: "it_attempt_count r < lc_max_attempts lc" and lease: "0 < lc_lease_duration lc"
    and load: "load_artifact c sha (it_artifact_id r) k s = Inr a"
    and extracted: "extract_document p a = Inr res"
    and encodable: "list_all (\<lambda>blk. utf8_encodable (blk_text blk)) (doc_blocks (er_document res))"
    and run: "find_run (it_run_id r) d = Inr (Some rn)"
    and config: "config_from_run_configuration (run_configuration rn) = Inr cfg"
    and tokenizer: "registered_tokenizers (cc_reference_tokenizer cfg, cc_reference_tokenizer_version cfg) \<noteq> None"
    and quiet: "quiet i (dl_before_process dl)" "quiet i (dl_before_complete dl)" "dl_before_settle dl = id"
    and race: "dl_race dl = ProcessorDone False"
    and clocks: "dl_complete_db dl < dl_claim_now dl + lc_lease_duration lc" "dl_claim_now dl \<le> dl_complete_now dl"
      "\<forall>t. it_started_at r = Some t \<longrightarrow> t \<le> dl_complete_now dl"
    and ids: "\<And>n. length (dl_chunk_ids dl n) = n \<and> distinct (dl_chunk_ids dl n)"
      "\<And>n d'. idb_chunks d' = idb_chunks d \<Longrightarrow> set (dl_chunk_ids dl n) \<inter>
        ck_id ` set (idb_chunks (dl_before_complete dl (dl_before_process dl d'))) = {}"
    and pages: "list_all block_page_positive (doc_blocks (er_document res))"
  shows "\<exists>d' r'. handle lc (task_env c sha tsha p) dl i k s d = (None, d') \<and>
    lookup it_id i (idb_items d') = Some r' \<and> it_status r' = COMPLETED \<and>
    it_observed_file_hash r' = Some (la_observed_file_hash a) \<and>
    drafts_wf (whitespace_builder tsha (la_language_code a)) (list_for_item i d') \<and>
    words (list_for_item i d') = block_words (body_blocks cfg (er_document res))"
proof -
  let ?env = "task_env c sha tsha p" and ?e = "ItemClaim (dl_claim_now dl) (dl_claim_now dl + lc_lease_duration lc)"
  let ?r1 = "item_set ?e r" and ?claim = "to_claimed_item (item_set ?e r)"
  have "item_where (lc_max_attempts lc) (dl_claim_db dl) ?e r" using pending attempts by simp
  from claim_succeeds [OF ok row this lease] obtain d1 where
    claim: "claim_tx lc i (dl_claim_now dl) (dl_claim_db dl) d = Inr (Some ?claim, d1)" by blast
  from claim_effect [OF ok claim] have ok1: "ingestion_ok d1"
    and row1: "lookup it_id i (idb_items d1) = Some ?r1" and runs1: "idb_runs d1 = idb_runs d"
    and chunks1: "idb_chunks d1 = idb_chunks d" using row by auto
  let ?d2 = "dl_before_process dl d1" let ?d3 = "dl_before_complete dl ?d2"
  note q2 = quietD [OF quiet(1) ok1]
  note q3 = quietD [OF quiet(2) q2(1)]
  have id: "it_id r = i" using lookup_SomeD [OF row] by simp
  from chunk_document_total [OF config tokenizer encodable, of c sha tsha p "la_language_code a"] obtain drafts where
    drafts: "chunk_document ?env res cfg (la_language_code a) = Inr drafts"
    "drafts_wf (whitespace_builder tsha (la_language_code a)) drafts"
    "words drafts = block_words (body_blocks cfg (er_document res))" "list_all pages_positive drafts"
    using pages by blast
  let ?meta = "with_chunking_metadata (build_execution_metadata res) cfg (length drafts)"
  have "find_run (it_run_id r) ?d2 = Inr (Some rn)" using run q2(3) runs1 by (simp add: find_run_def)
  then have "get_chunking_config ?claim ?d2 = Inr cfg"
    using config by (simp add: get_chunking_config_def to_claimed_item_def)
  then have prep: "prepare ?env ?claim k s ?d2 = Inr (drafts, la_observed_file_hash a, ?meta)"
    using load extracted drafts(1) by (simp add: prepare_def task_env_def to_claimed_item_def)
  have row3: "lookup it_id i (idb_items ?d3) = Some ?r1" using row1 q2 q3 by simp
  have own: "owned_by (ci_attempt_number ?claim) (dl_complete_db dl) ?r1"
    using clocks(1) by (simp add: owned_by_def to_claimed_item_def)
  have fits: "event_fits (ItemComplete (ci_attempt_number ?claim) (dl_complete_now dl) (la_observed_file_hash a) ?meta) ?r1"
    using clocks(2,3) by (cases "it_started_at r") auto
  from completed_with_chunks [OF q3(1) row3 own fits drafts(2,4),
      of "dl_chunk_ids dl (length drafts)"] ids(1) [of "length drafts"] ids(2) [OF chunks1, of "length drafts"]
  obtain d' where stored: "replace_chunks_and_mark_completed_tx i (ci_attempt_number ?claim) drafts
      (la_observed_file_hash a) ?meta (dl_chunk_ids dl (length drafts)) (dl_complete_now dl) (dl_complete_db dl) ?d3 =
        Inr (True, d')"
    and row': "lookup it_id i (idb_items d') = Some (item_set (ItemComplete (ci_attempt_number ?claim)
      (dl_complete_now dl) (la_observed_file_hash a) ?meta) ?r1)"
    and chunks: "list_for_item i d' = drafts" by blast
  have "process ?env ?claim k s (dl_before_complete dl) (dl_chunk_ids dl) (dl_complete_now dl) (dl_complete_db dl) ?d2 =
      (Inr (), d')"
    using prep stored id by (simp add: process_def to_claimed_item_def)
  then have "handle lc ?env dl i k s d = (None, d')"
    by (simp add: handle_def claim work_def Let_def race run_claimed_item_def settle_def quiet(3))
  with row' chunks drafts(2,3) show ?thesis by auto
qed

definition sample_pipeline :: extraction_pipeline where
  "sample_pipeline = \<lparr>ep_primary = (\<lambda>a. Inr sample_document), ep_fallback = None,
    ep_primary_method = OPENAI_OCR, ep_fallback_method = VLM\<rparr>"

definition sample_delivery :: delivery where
  "sample_delivery = \<lparr>dl_claim_now = 10, dl_claim_db = 10, dl_before_process = id, dl_before_complete = id,
    dl_chunk_ids = (\<lambda>n. [100..<100 + n]), dl_complete_now = 20, dl_complete_db = 20, dl_race = ProcessorDone False,
    dl_before_settle = id, dl_job_id = 99, dl_settle_now = 30, dl_settle_db = 30\<rparr>"

text \<open>Artifact 60 with its object under the key [97].\<close>

definition sample_store :: knowledge_db where
  "sample_store = sample_versions\<lparr>kdb_artifacts := [new_artifact (sample_command 60 11 [97])\<lparr>ar_file_size_bytes := 1\<rparr>]\<rparr>"

lemma sample_load:
  "load_artifact sample_client (\<lambda>_. ''00'') 60 sample_store [([97], [7])] =
    Inr \<lparr>la_artifact_id = 60, la_content = [7], la_mime_type = [116], la_expected_file_hash = ''00'',
      la_observed_file_hash = ''00'', la_file_size_bytes = 1, la_language_code = Some [101, 110]\<rparr>"
  by (simp add: load_artifact_def find_for_ingestion_def sql_select_def sample_store_def sample_artifact_defs
      minio_get_def sample_client_def)

theorem worker_completes_item_witness:
  "\<exists>d' r'. handle sample_lifecycle (task_env sample_client (\<lambda>_. ''00'') (\<lambda>_. ''h'') sample_pipeline)
      sample_delivery 1 sample_store [([97], [7])] (sample_db (new_item 1 50 60 0)) = (None, d') \<and>
    lookup it_id 1 (idb_items d') = Some r' \<and> it_status r' = COMPLETED"
proof -
  have ok: "ingestion_ok (sample_db (new_item 1 50 60 0))"
    by (rule sample_db_ok) (simp_all add: new_item_def item_row_ok_def item_checks)
  have row: "lookup it_id 1 (idb_items (sample_db (new_item 1 50 60 0))) = Some (new_item 1 50 60 0)"
    by (simp add: new_item_def)
  let ?a = "\<lparr>la_artifact_id = 60, la_content = [7], la_mime_type = [116], la_expected_file_hash = ''00'',
      la_observed_file_hash = ''00'', la_file_size_bytes = 1, la_language_code = Some [101, 110]\<rparr>"
  have load: "load_artifact sample_client (\<lambda>_. ''00'') (it_artifact_id (new_item 1 50 60 0)) sample_store [([97], [7])] = Inr ?a"
    by (simp add: new_item_def sample_load)
  have ext: "extract_document sample_pipeline ?a = Inr (build_result sample_document OPENAI_OCR False None)"
    by (simp add: extract_document_def sample_pipeline_def)
  have enc: "list_all (\<lambda>blk. utf8_encodable (blk_text blk)) (doc_blocks (er_document (build_result sample_document OPENAI_OCR False None)))"
    using sample_encodable by (simp add: build_result_def)
  have run: "find_run (it_run_id (new_item 1 50 60 0)) (sample_db (new_item 1 50 60 0)) = Inr (Some sample_run)"
    by (simp add: find_run_def sql_select_def sample_db_def sample_run_def new_item_def)
  have "config_post_init default_chunking_config = Inr default_chunking_config"
    by (simp add: config_post_init_def default_chunking_config_def strip_blank_iff lit_def py_isspace_def)
  then have cfg: "config_from_run_configuration (run_configuration sample_run) = Inr default_chunking_config"
    by (simp add: sample_run_def written_config_reads)
  have quiet: "quiet 1 (dl_before_process sample_delivery)" "quiet 1 (dl_before_complete sample_delivery)"
    by (simp_all add: sample_delivery_def quiet_def)
  have pages: "list_all block_page_positive (doc_blocks (er_document (build_result sample_document OPENAI_OCR False None)))"
    by (simp add: build_result_def sample_document_def sample_block_def block_page_positive_def)
  have "\<exists>d' r'. handle sample_lifecycle (task_env sample_client (\<lambda>_. ''00'') (\<lambda>_. ''h'') sample_pipeline)
      sample_delivery 1 sample_store [([97], [7])] (sample_db (new_item 1 50 60 0)) = (None, d') \<and>
    lookup it_id 1 (idb_items d') = Some r' \<and> it_status r' = COMPLETED \<and>
    it_observed_file_hash r' = Some (la_observed_file_hash ?a) \<and>
    drafts_wf (whitespace_builder (\<lambda>_. ''h'') (la_language_code ?a)) (list_for_item 1 d') \<and>
    words (list_for_item 1 d') = block_words (body_blocks default_chunking_config
      (er_document (build_result sample_document OPENAI_OCR False None)))"
    by (rule worker_completes_item [OF ok row _ _ _ load ext enc run cfg _ quiet _ _ _ _ _ _ _ pages])
      (auto simp: sample_delivery_def sample_lifecycle_def new_item_def registered_tokenizers_def
        default_chunking_config_def sample_db_def)
  then show ?thesis by blast
qed



end
