(* ===== verification/EmbeddingWorker.thy ===== *)
theory EmbeddingWorker
  imports EmbeddingRuns IngestionWorker
begin

text \<open>
  The embedding worker: \<open>modules/embedding/workers/default_processor.py\<close> (load the run, the
  model, the configuration and the chunks, embed, persist), \<open>workers/job_handler.py\<close> (claim,
  race against the heartbeat, settlement of each kind of error) and \<open>workers/errors.py\<close>, as
  assembled by \<open>_handle_run\<close> of \<open>platform/jobs/tasks/embedding.py\<close>.

  Every transaction of the handler is preceded by whatever other processes do, an argument.
\<close>

section \<open>Errors\<close>



section \<open>The processor\<close>
















section \<open>The job handler\<close>






section \<open>Facts\<close>

text \<open>Interference that leaves a run alone; its item is completed, so its chunks stay.\<close>

definition quiet_run :: "uuid \<Rightarrow> (embedding_db \<Rightarrow> embedding_db) \<Rightarrow> bool" where
  "quiet_run rid f \<longleftrightarrow> (\<forall>d. vectors_ok d \<longrightarrow> vectors_ok (f d) \<and>
    lookup ru_id rid (edb_runs (f d)) = lookup ru_id rid (edb_runs d) \<and>
    set (edb_models d) \<subseteq> set (edb_models (f d)) \<and>
    (\<forall>r. lookup ru_id rid (edb_runs d) = Some r \<longrightarrow>
      list_chunks (ru_item_id r) (edb_ingestion (f d)) = list_chunks (ru_item_id r) (edb_ingestion d)))"


text \<open>Every transaction of ingestion and of the registry is quiet.\<close>

lemma vectors_ok_item:
  assumes "vectors_ok d" and "lookup ru_id rid (edb_runs d) = Some r"
  shows "item_completed (ru_item_id r) (edb_ingestion d)"
  using assms lookup_SomeD [OF assms(2)] by (auto simp: vectors_ok_def list_all_iff run_complete_def)

lemma quiet_ingestion: "quiet_run rid (embedding_exec sv db (IngestionStep op))"
  unfolding quiet_run_def
proof (intro allI impI conjI)
  fix d assume ok: "vectors_ok d"
  from vectors_ok_ingestion [OF this] show "vectors_ok (embedding_exec sv db (IngestionStep op) d)" .
  fix r assume "lookup ru_id rid (edb_runs d) = Some r"
  from embedding_exec_chunks [OF ok vectors_ok_item [OF ok this]]
  show "list_chunks (ru_item_id r) (edb_ingestion (embedding_exec sv db (IngestionStep op) d)) =
      list_chunks (ru_item_id r) (edb_ingestion d)" by blast
qed (simp_all add: Let_def)

lemma quiet_register: "quiet_run rid (embedding_exec sv db (RegisterModel mid i))"
proof -
  have "vectors_ok (embedding_exec sv db (RegisterModel mid i) d)" if "vectors_ok d" for d
    by (rule embedding_exec_ok [OF that])
  moreover have "edb_runs (embedding_exec sv db (RegisterModel mid i) d) = edb_runs d \<and>
      set (edb_models d) \<subseteq> set (edb_models (embedding_exec sv db (RegisterModel mid i) d)) \<and>
      edb_ingestion (embedding_exec sv db (RegisterModel mid i) d) = edb_ingestion d" for d
    by (auto simp: db_after_def register_model_def add_model_def and_then_def insert_stmt_def sql_write_def
        split: sum.splits option.splits)
  ultimately show ?thesis by (simp add: quiet_run_def)
qed





section \<open>Properties\<close>







end
