(* ===== verification/Identity.thy ===== *)
theory Identity
  imports PyText "HOL-Library.Product_Lexorder" "HOL-Library.List_Lexorder"
begin

text \<open>
  The identity store: the tables of \<open>modules/identity/models\<close> with their constraints, and the
  statements of \<open>modules/identity/repositories\<close> (principals, role assignments, permissions,
  superadmins, identities; the group repository is in theory IdentityGroups).

  A principal is a user, a role or a group. The schema does not tie the kind of a principal to
  the subtype table that refers to it (only memberships carry the kind in a composite foreign
  key); \<open>well_typed\<close> states the tie together with the constraints of all tables, and the
  theories that import this one show that every service keeps it. Text is ordered by code
  points (the C collation).
\<close>

section \<open>Tables\<close>

datatype principal_type = USER | ROLE | GROUP

record principal_row =
  pr_id :: uuid
  pr_type :: principal_type
  pr_is_active :: bool
  pr_created_at :: datetime
  pr_status_changed_at :: datetime
  pr_deleted_at :: "datetime option"

record user_row =
  us_principal_id :: uuid
  us_display_name :: pystr
  us_created_at :: datetime
  us_updated_at :: datetime

record role_row =
  ro_principal_id :: uuid
  ro_role_key :: pystr
  ro_name :: pystr
  ro_description :: "pystr option"
  ro_created_at :: datetime
  ro_updated_at :: datetime

record group_row =
  gr_principal_id :: uuid
  gr_group_key :: pystr
  gr_name :: pystr
  gr_description :: "pystr option"
  gr_created_at :: datetime
  gr_updated_at :: datetime

record group_membership =
  gm_id :: uuid
  gm_group :: uuid
  gm_member :: uuid
  gm_member_type :: principal_type
  gm_added_at :: datetime
  gm_added_by :: "uuid option"
  gm_removed_at :: "datetime option"
  gm_removed_by :: "uuid option"

record user_role =
  ur_id :: uuid
  ur_user :: uuid
  ur_role :: uuid
  ur_assigned_at :: datetime
  ur_assigned_by :: "uuid option"
  ur_revoked_at :: "datetime option"
  ur_revoked_by :: "uuid option"

record permission_definition =
  pd_key :: pystr
  pd_description :: "pystr option"
  pd_created_at :: datetime

record principal_permission =
  pp_id :: uuid
  pp_principal :: uuid
  pp_key :: pystr
  pp_granted_at :: datetime
  pp_granted_by :: "uuid option"
  pp_revoked_at :: "datetime option"
  pp_revoked_by :: "uuid option"

record user_identifier =
  ui_id :: uuid
  ui_user :: uuid
  ui_type :: pystr
  ui_value :: pystr
  ui_normalized_value :: pystr
  ui_issuer :: pystr
  ui_verified_at :: "datetime option"
  ui_valid_from :: "datetime option"
  ui_valid_to :: "datetime option"
  ui_created_at :: datetime
  ui_updated_at :: datetime

record identity_db =
  id_principals :: "principal_row list"
  id_users :: "user_row list"
  id_roles :: "role_row list"
  id_groups :: "group_row list"
  id_memberships :: "group_membership list"
  id_user_roles :: "user_role list"
  id_permissions :: "permission_definition list"
  id_grants :: "principal_permission list"
  id_identifiers :: "user_identifier list"

section \<open>Constraints\<close>

text \<open>\<open>c\<close> is NULL or not before \<open>s\<close>; a NULL foreign key is not checked.\<close>

definition null_or_from :: "datetime \<Rightarrow> datetime option \<Rightarrow> bool" where
  "null_or_from s c \<longleftrightarrow> (case c of None \<Rightarrow> True | Some e \<Rightarrow> s \<le> e)"

definition null_or_in :: "uuid list \<Rightarrow> uuid option \<Rightarrow> bool" where
  "null_or_in ids c \<longleftrightarrow> (case c of None \<Rightarrow> True | Some i \<Rightarrow> i \<in> set ids)"

definition principal_ids :: "identity_db \<Rightarrow> uuid list" where
  "principal_ids d = map pr_id (id_principals d)"

definition principal_constraints :: "principal_row constraint list" where
  "principal_constraints =
    [check ''ck_principals_deleted_principal_inactive''
       (\<lambda>r. pr_deleted_at r = None \<or> \<not> pr_is_active r),
     check ''ck_principals_status_changed_not_before_created''
       (\<lambda>r. pr_created_at r \<le> pr_status_changed_at r),
     unique_index ''pk_principals'' (\<lambda>_. True) pr_id,
     unique_index ''id_type'' (\<lambda>_. True) (\<lambda>r. (pr_id r, pr_type r))]"

definition user_constraints :: "identity_db \<Rightarrow> user_row constraint list" where
  "user_constraints d =
    [unique_index ''pk_users'' (\<lambda>_. True) us_principal_id,
     check ''fk_users_principal_id_principals'' (\<lambda>r. us_principal_id r \<in> set (principal_ids d))]"

definition role_constraints :: "identity_db \<Rightarrow> role_row constraint list" where
  "role_constraints d =
    [unique_index ''pk_roles'' (\<lambda>_. True) ro_principal_id,
     unique_index ''uq_roles_role_key'' (\<lambda>_. True) ro_role_key,
     check ''fk_roles_principal_id_principals'' (\<lambda>r. ro_principal_id r \<in> set (principal_ids d))]"

definition group_constraints :: "identity_db \<Rightarrow> group_row constraint list" where
  "group_constraints d =
    [unique_index ''pk_groups'' (\<lambda>_. True) gr_principal_id,
     unique_index ''uq_groups_group_key'' (\<lambda>_. True) gr_group_key,
     check ''fk_groups_principal_id_principals'' (\<lambda>r. gr_principal_id r \<in> set (principal_ids d))]"

definition membership_constraints :: "identity_db \<Rightarrow> group_membership constraint list" where
  "membership_constraints d =
    [check ''ck_group_memberships_member_type_user_or_group''
       (\<lambda>r. gm_member_type r = USER \<or> gm_member_type r = GROUP),
     check ''ck_group_memberships_no_self_membership'' (\<lambda>r. gm_group r \<noteq> gm_member r),
     check ''ck_group_memberships_removed_not_before_added''
       (\<lambda>r. null_or_from (gm_added_at r) (gm_removed_at r)),
     unique_index ''uq_group_memberships_active_membership'' (\<lambda>r. gm_removed_at r = None)
       (\<lambda>r. (gm_group r, gm_member r)),
     unique_index ''pk_group_memberships'' (\<lambda>_. True) gm_id,
     check ''fk_group_memberships_group_principal_id_groups''
       (\<lambda>r. gm_group r \<in> set (map gr_principal_id (id_groups d))),
     check ''fk_group_memberships_member_principal_id_principals''
       (\<lambda>r. (gm_member r, gm_member_type r) \<in> set (map (\<lambda>p. (pr_id p, pr_type p)) (id_principals d))),
     check ''fk_group_memberships_added_by_principal_id_principals''
       (\<lambda>r. null_or_in (principal_ids d) (gm_added_by r)),
     check ''fk_group_memberships_removed_by_principal_id_principals''
       (\<lambda>r. null_or_in (principal_ids d) (gm_removed_by r))]"

definition user_role_constraints :: "identity_db \<Rightarrow> user_role constraint list" where
  "user_role_constraints d =
    [check ''ck_user_roles_revoked_not_before_assigned''
       (\<lambda>r. null_or_from (ur_assigned_at r) (ur_revoked_at r)),
     unique_index ''uq_user_roles_active_assignment'' (\<lambda>r. ur_revoked_at r = None)
       (\<lambda>r. (ur_user r, ur_role r)),
     unique_index ''pk_user_roles'' (\<lambda>_. True) ur_id,
     check ''fk_user_roles_user_principal_id_users''
       (\<lambda>r. ur_user r \<in> set (map us_principal_id (id_users d))),
     check ''fk_user_roles_role_principal_id_roles''
       (\<lambda>r. ur_role r \<in> set (map ro_principal_id (id_roles d))),
     check ''fk_user_roles_assigned_by_principal_id_principals''
       (\<lambda>r. null_or_in (principal_ids d) (ur_assigned_by r)),
     check ''fk_user_roles_revoked_by_principal_id_principals''
       (\<lambda>r. null_or_in (principal_ids d) (ur_revoked_by r))]"

definition grant_constraints :: "identity_db \<Rightarrow> principal_permission constraint list" where
  "grant_constraints d =
    [check ''ck_principal_permissions_principal_permission_revoked_not_before_granted''
       (\<lambda>r. null_or_from (pp_granted_at r) (pp_revoked_at r)),
     unique_index ''uq_principal_permissions_active'' (\<lambda>r. pp_revoked_at r = None)
       (\<lambda>r. (pp_principal r, pp_key r)),
     unique_index ''pk_principal_permissions'' (\<lambda>_. True) pp_id,
     check ''fk_principal_permissions_principal_id_principals''
       (\<lambda>r. pp_principal r \<in> set (principal_ids d)),
     check ''fk_principal_permissions_permission_key_permissions''
       (\<lambda>r. pp_key r \<in> set (map pd_key (id_permissions d))),
     check ''fk_principal_permissions_granted_by_principal_id_principals''
       (\<lambda>r. null_or_in (principal_ids d) (pp_granted_by r)),
     check ''fk_principal_permissions_revoked_by_principal_id_principals''
       (\<lambda>r. null_or_in (principal_ids d) (pp_revoked_by r))]"

definition identifier_constraints :: "identity_db \<Rightarrow> user_identifier constraint list" where
  "identifier_constraints d =
    [check ''ck_user_identifier_valid_to_after_valid_from''
       (\<lambda>r. case (ui_valid_from r, ui_valid_to r) of (Some f, Some t) \<Rightarrow> f < t | _ \<Rightarrow> True),
     unique_index ''uq_user_identifiers_active_identity'' (\<lambda>r. ui_valid_to r = None)
       (\<lambda>r. (ui_type r, ui_issuer r, ui_normalized_value r)),
     unique_index ''pk_user_identifier'' (\<lambda>_. True) ui_id,
     check ''fk_user_identifier_user_principal_id_users''
       (\<lambda>r. ui_user r \<in> set (map us_principal_id (id_users d)))]"

section \<open>Errors\<close>

datatype permission =
    IAM_PRINCIPALS_MANAGE
  | IAM_ROLES_MANAGE
  | IAM_GROUPS_MANAGE
  | IAM_PERMISSIONS_MANAGE
  | KNOWLEDGE_DOCUMENTS_MANAGE
  | KNOWLEDGE_DOCUMENT_ACL_MANAGE

definition permission_value :: "permission \<Rightarrow> pystr" where
  "permission_value p = (case p of
      IAM_PRINCIPALS_MANAGE \<Rightarrow> lit ''iam.principals.manage''
    | IAM_ROLES_MANAGE \<Rightarrow> lit ''iam.roles.manage''
    | IAM_GROUPS_MANAGE \<Rightarrow> lit ''iam.groups.manage''
    | IAM_PERMISSIONS_MANAGE \<Rightarrow> lit ''iam.permissions.manage''
    | KNOWLEDGE_DOCUMENTS_MANAGE \<Rightarrow> lit ''knowledge.documents.manage''
    | KNOWLEDGE_DOCUMENT_ACL_MANAGE \<Rightarrow> lit ''knowledge.document_acl.manage'')"

datatype identity_error =
    LocalIdentityNotProvisioned
  | LocalIdentityDisabled
  | LocalIdentityRetired
  | IdentityAlreadyProvisioned
  | IdentityProvisioningConflict
  | PrincipalNotFound uuid string
  | PrincipalRetired uuid string
  | PrincipalInactive uuid string
  | GroupPrincipalRequired uuid
  | GroupMemberTypeNotAllowed uuid principal_type
  | GroupSelfMembership uuid uuid
  | GroupCycleDetected uuid uuid
  | GroupMembershipAlreadyExists uuid uuid
  | GroupMembershipNotFound uuid uuid
  | RoleAssignmentUserNotFound uuid
  | RoleAssignmentRoleNotFound uuid
  | RoleAssignmentConflict uuid uuid
  | RoleAssignmentNotFound uuid uuid
  | PermissionDenied uuid permission
  | PermissionNotFound permission
  | PermissionGrantConflict uuid permission
  | PermissionGrantNotFound uuid permission
  | PermissionTargetNotFound uuid
  | PermissionTargetInactive uuid
  | PermissionTargetRetired uuid
  | ProtectedSuperadminRole string
  | LastSuperadminViolation uuid string
  | IdentityDbError db_error

text \<open>The error that replaces an \<open>IntegrityError\<close> of the constraint named \<open>n\<close>.\<close>

definition on_constraint :: "string \<Rightarrow> identity_error \<Rightarrow> db_error \<Rightarrow> identity_error" where
  "on_constraint n e x = (if x = IntegrityError n then e else IdentityDbError x)"

section \<open>The principal repository\<close>

record principal_state =
  ps_principal_id :: uuid
  ps_is_active :: bool
  ps_deleted_at :: "datetime option"
  ps_type :: principal_type

definition principal_state_of :: "principal_row \<Rightarrow> principal_state" where
  "principal_state_of r = \<lparr>ps_principal_id = pr_id r, ps_is_active = pr_is_active r,
    ps_deleted_at = pr_deleted_at r, ps_type = pr_type r\<rparr>"

definition find_by_id :: "uuid \<Rightarrow> identity_db \<Rightarrow> identity_error + principal_state option" where
  "find_by_id i d =
    and_then (map_error IdentityDbError (one_or_none (sql_select (\<lambda>r. pr_id r = i) (id_principals d))))
      (\<lambda>row. Inr (map_option principal_state_of row))"

definition update_status ::
  "datetime \<Rightarrow> uuid \<Rightarrow> bool \<Rightarrow> datetime option \<Rightarrow> identity_db \<Rightarrow> identity_error + identity_db"
where
  "update_status db_now i is_active deleted_at d =
    and_then (map_error IdentityDbError (update_stmt principal_constraints (\<lambda>r. pr_id r = i)
        (\<lambda>r. r\<lparr>pr_is_active := is_active, pr_deleted_at := deleted_at, pr_status_changed_at := db_now\<rparr>)
        (id_principals d)))
      (\<lambda>(_, t). Inr (d\<lparr>id_principals := t\<rparr>))"

definition activate :: "datetime \<Rightarrow> uuid \<Rightarrow> identity_db \<Rightarrow> identity_error + identity_db" where
  "activate db_now i d = update_status db_now i True None d"

definition deactivate :: "datetime \<Rightarrow> uuid \<Rightarrow> identity_db \<Rightarrow> identity_error + identity_db" where
  "deactivate db_now i d = update_status db_now i False None d"

definition retire :: "datetime \<Rightarrow> uuid \<Rightarrow> identity_db \<Rightarrow> identity_error + identity_db" where
  "retire db_now i d = update_status db_now i False (Some db_now) d"

section \<open>The role assignment repository\<close>

record assigned_role =
  as_role_principal_id :: uuid
  as_role_key :: pystr
  as_name :: pystr
  as_description :: "pystr option"
  as_assigned_at :: datetime
  as_assigned_by :: "uuid option"

definition list_active_for_user :: "uuid \<Rightarrow> identity_db \<Rightarrow> assigned_role list" where
  "list_active_for_user u d = sort_key as_role_key
    [\<lparr>as_role_principal_id = ro_principal_id r, as_role_key = ro_role_key r, as_name = ro_name r,
      as_description = ro_description r, as_assigned_at = ur_assigned_at a,
      as_assigned_by = ur_assigned_by a\<rparr>.
      r \<leftarrow> id_roles d, a \<leftarrow> id_user_roles d,
      ur_role a = ro_principal_id r \<and> ur_user a = u \<and> ur_revoked_at a = None]"

definition user_exists :: "uuid \<Rightarrow> identity_db \<Rightarrow> bool" where
  "user_exists u d = sql_exists (\<lambda>r. us_principal_id r = u) (id_users d)"

definition role_exists :: "uuid \<Rightarrow> identity_db \<Rightarrow> bool" where
  "role_exists r d = sql_exists (\<lambda>x. ro_principal_id x = r) (id_roles d)"

definition active_assignment :: "uuid \<Rightarrow> uuid \<Rightarrow> user_role \<Rightarrow> bool" where
  "active_assignment u r a \<longleftrightarrow> ur_user a = u \<and> ur_role a = r \<and> ur_revoked_at a = None"

definition has_active_assignment :: "uuid \<Rightarrow> uuid \<Rightarrow> identity_db \<Rightarrow> bool" where
  "has_active_assignment u r d = sql_exists (active_assignment u r) (id_user_roles d)"

definition add_assignment ::
  "uuid \<Rightarrow> uuid \<Rightarrow> uuid \<Rightarrow> uuid \<Rightarrow> datetime \<Rightarrow> identity_db \<Rightarrow> db_error + identity_db"
where
  "add_assignment fresh u r assigned_by assigned_at d =
    and_then (insert_stmt (user_role_constraints d)
        [\<lparr>ur_id = fresh, ur_user = u, ur_role = r, ur_assigned_at = assigned_at,
          ur_assigned_by = Some assigned_by, ur_revoked_at = None, ur_revoked_by = None\<rparr>]
        (id_user_roles d))
      (\<lambda>t. Inr (d\<lparr>id_user_roles := t\<rparr>))"

definition close_active_assignment ::
  "uuid \<Rightarrow> uuid \<Rightarrow> uuid \<Rightarrow> datetime \<Rightarrow> identity_db \<Rightarrow> identity_error + bool \<times> identity_db"
where
  "close_active_assignment u r revoked_by revoked_at d =
    and_then (map_error IdentityDbError (update_stmt (user_role_constraints d) (active_assignment u r)
        (\<lambda>a. a\<lparr>ur_revoked_at := Some revoked_at, ur_revoked_by := Some revoked_by\<rparr>) (id_user_roles d)))
      (\<lambda>(n, t). Inr (0 < n, d\<lparr>id_user_roles := t\<rparr>))"

section \<open>The permission repository\<close>

record active_permission_grant =
  ap_permission_key :: pystr
  ap_description :: "pystr option"
  ap_granted_at :: datetime
  ap_granted_by :: "uuid option"

definition list_permission_rows :: "identity_db \<Rightarrow> (pystr \<times> pystr option) list" where
  "list_permission_rows d =
    sort_key fst (map (\<lambda>p. (pd_key p, pd_description p)) (id_permissions d))"

definition list_active_for_principal :: "uuid \<Rightarrow> identity_db \<Rightarrow> active_permission_grant list" where
  "list_active_for_principal i d = sort_key ap_permission_key
    [\<lparr>ap_permission_key = pp_key g, ap_description = pd_description p,
      ap_granted_at = pp_granted_at g, ap_granted_by = pp_granted_by g\<rparr>.
      g \<leftarrow> id_grants d, p \<leftarrow> id_permissions d,
      pd_key p = pp_key g \<and> pp_principal g = i \<and> pp_revoked_at g = None]"

definition permission_exists :: "permission \<Rightarrow> identity_db \<Rightarrow> bool" where
  "permission_exists p d = sql_exists (\<lambda>r. pd_key r = permission_value p) (id_permissions d)"

definition active_grant :: "permission \<Rightarrow> principal_permission \<Rightarrow> bool" where
  "active_grant p g \<longleftrightarrow> pp_key g = permission_value p \<and> pp_revoked_at g = None"

definition has_permission :: "uuid set \<Rightarrow> permission \<Rightarrow> datetime \<Rightarrow> identity_db \<Rightarrow> bool" where
  "has_permission principals p when d \<longleftrightarrow> principals \<noteq> {} \<and>
    sql_exists (\<lambda>g. pp_principal g \<in> principals \<and> pp_granted_at g \<le> when \<and> active_grant p g)
      (id_grants d)"

definition has_active_grant :: "uuid \<Rightarrow> permission \<Rightarrow> identity_db \<Rightarrow> bool" where
  "has_active_grant i p d = sql_exists (\<lambda>g. pp_principal g = i \<and> active_grant p g) (id_grants d)"

definition add_grant ::
  "uuid \<Rightarrow> uuid \<Rightarrow> permission \<Rightarrow> uuid \<Rightarrow> datetime \<Rightarrow> identity_db \<Rightarrow> db_error + identity_db"
where
  "add_grant fresh i p granted_by granted_at d =
    and_then (insert_stmt (grant_constraints d)
        [\<lparr>pp_id = fresh, pp_principal = i, pp_key = permission_value p, pp_granted_at = granted_at,
          pp_granted_by = Some granted_by, pp_revoked_at = None, pp_revoked_by = None\<rparr>]
        (id_grants d))
      (\<lambda>t. Inr (d\<lparr>id_grants := t\<rparr>))"

definition revoke_active_grant ::
  "uuid \<Rightarrow> permission \<Rightarrow> uuid \<Rightarrow> datetime \<Rightarrow> identity_db \<Rightarrow> identity_error + bool \<times> identity_db"
where
  "revoke_active_grant i p revoked_by revoked_at d =
    and_then (map_error IdentityDbError (update_stmt (grant_constraints d)
        (\<lambda>g. pp_principal g = i \<and> active_grant p g)
        (\<lambda>g. g\<lparr>pp_revoked_at := Some revoked_at, pp_revoked_by := Some revoked_by\<rparr>) (id_grants d)))
      (\<lambda>(n, t). Inr (0 < n, d\<lparr>id_grants := t\<rparr>))"

section \<open>The superadmin repository\<close>

definition SUPERADMIN_ROLE_KEY :: pystr where
  "SUPERADMIN_ROLE_KEY = lit ''superadmin''"

text \<open>\<open>session.scalar\<close>: the first column of the first row, or None.\<close>

definition find_superadmin_role_id :: "identity_db \<Rightarrow> uuid option" where
  "find_superadmin_role_id d =
    (case sql_select (\<lambda>r. ro_role_key r = SUPERADMIN_ROLE_KEY) (id_roles d) of
       [] \<Rightarrow> None | r # _ \<Rightarrow> Some (ro_principal_id r))"

text \<open>The same statement with FOR UPDATE: the row it locks is the one it returns.\<close>

definition lock_superadmin_role :: "identity_db \<Rightarrow> uuid option" where
  "lock_superadmin_role d = find_superadmin_role_id d"

definition live :: "principal_row \<Rightarrow> bool" where
  "live p \<longleftrightarrow> pr_is_active p \<and> pr_deleted_at p = None"

definition user_has_superadmin_role :: "uuid \<Rightarrow> identity_db \<Rightarrow> bool" where
  "user_has_superadmin_role u d = (case find_superadmin_role_id d of
      None \<Rightarrow> False
    | Some role \<Rightarrow> [ur_id a. a \<leftarrow> id_user_roles d, p \<leftarrow> id_principals d,
        pr_id p = ur_user a \<and> active_assignment u role a \<and> live p] \<noteq> [])"

definition count_active_superadmins :: "uuid \<Rightarrow> identity_db \<Rightarrow> nat" where
  "count_active_superadmins role d = length [a. a \<leftarrow> id_user_roles d, p \<leftarrow> id_principals d,
    pr_id p = ur_user a \<and> ur_role a = role \<and> ur_revoked_at a = None \<and> live p]"

section \<open>The identity repository\<close>

record authenticated_identity =
  ai_issuer :: pystr
  ai_subject :: pystr
  ai_email :: "pystr option"
  ai_email_verified :: "bool option"
  ai_username :: "pystr option"
  ai_display_name :: "pystr option"

record local_user_identity =
  li_principal_id :: uuid
  li_is_active :: bool
  li_deleted_at :: "datetime option"

definition OIDC_SUBJECT :: pystr where
  "OIDC_SUBJECT = lit ''oidc_subject''"

definition find_by_oidc_subject ::
  "pystr \<Rightarrow> pystr \<Rightarrow> identity_db \<Rightarrow> identity_error + local_user_identity option"
where
  "find_by_oidc_subject issuer subject d = map_error IdentityDbError (one_or_none
    [\<lparr>li_principal_id = pr_id p, li_is_active = pr_is_active p, li_deleted_at = pr_deleted_at p\<rparr>.
      i \<leftarrow> id_identifiers d, u \<leftarrow> id_users d, p \<leftarrow> id_principals d,
      us_principal_id u = ui_user i \<and> pr_id p = us_principal_id u \<and> ui_type i = OIDC_SUBJECT \<and>
      ui_issuer i = issuer \<and> ui_normalized_value i = subject \<and> ui_valid_to i = None])"

definition display_name_or_subject :: "authenticated_identity \<Rightarrow> pystr" where
  "display_name_or_subject a = (case ai_display_name a of
      Some n \<Rightarrow> if n = [] then ai_subject a else n | None \<Rightarrow> ai_subject a)"

text \<open>
  The three inserts of \<open>provision_user\<close>; \<open>pid\<close> and \<open>iid\<close> are the fresh identifiers, \<open>db_now\<close>
  the server defaults.
\<close>

definition provision_user ::
  "uuid \<Rightarrow> uuid \<Rightarrow> datetime \<Rightarrow> authenticated_identity \<Rightarrow> identity_db \<Rightarrow>
    identity_error + uuid \<times> identity_db"
where
  "provision_user pid iid db_now a d =
    and_then (map_error IdentityDbError (insert_stmt principal_constraints
        [\<lparr>pr_id = pid, pr_type = USER, pr_is_active = True, pr_created_at = db_now,
          pr_status_changed_at = db_now, pr_deleted_at = None\<rparr>] (id_principals d))) (\<lambda>ps.
    let d1 = d\<lparr>id_principals := ps\<rparr> in
    and_then (map_error IdentityDbError (insert_stmt (user_constraints d1)
        [\<lparr>us_principal_id = pid, us_display_name = display_name_or_subject a,
          us_created_at = db_now, us_updated_at = db_now\<rparr>] (id_users d1))) (\<lambda>us.
    let d2 = d1\<lparr>id_users := us\<rparr> in
    and_then (map_error (on_constraint ''uq_user_identifiers_active_identity'' IdentityAlreadyProvisioned)
      (insert_stmt (identifier_constraints d2)
        [\<lparr>ui_id = iid, ui_user = pid, ui_type = OIDC_SUBJECT, ui_value = ai_subject a,
          ui_normalized_value = ai_subject a, ui_issuer = ai_issuer a, ui_verified_at = None,
          ui_valid_from = Some db_now, ui_valid_to = None, ui_created_at = db_now,
          ui_updated_at = db_now\<rparr>] (id_identifiers d2))) (\<lambda>is.
      Inr (pid, d2\<lparr>id_identifiers := is\<rparr>))))"

section \<open>Well-typed databases\<close>

text \<open>A principal of kind \<open>t\<close> that is live.\<close>

definition of_type :: "identity_db \<Rightarrow> principal_type \<Rightarrow> uuid \<Rightarrow> bool" where
  "of_type d t i \<longleftrightarrow> sql_exists (\<lambda>p. pr_id p = i \<and> pr_type p = t) (id_principals d)"

definition usable :: "identity_db \<Rightarrow> principal_type \<Rightarrow> uuid \<Rightarrow> bool" where
  "usable d t i \<longleftrightarrow> sql_exists (\<lambda>p. pr_id p = i \<and> pr_type p = t \<and> live p) (id_principals d)"

definition constraints_hold :: "identity_db \<Rightarrow> bool" where
  "constraints_hold d \<longleftrightarrow>
    satisfies principal_constraints (id_principals d) \<and>
    satisfies (user_constraints d) (id_users d) \<and>
    satisfies (role_constraints d) (id_roles d) \<and>
    satisfies (group_constraints d) (id_groups d) \<and>
    satisfies (membership_constraints d) (id_memberships d) \<and>
    satisfies (user_role_constraints d) (id_user_roles d) \<and>
    satisfies (grant_constraints d) (id_grants d) \<and>
    satisfies (identifier_constraints d) (id_identifiers d)"

definition well_typed :: "identity_db \<Rightarrow> bool" where
  "well_typed d \<longleftrightarrow> constraints_hold d \<and>
    list_all (\<lambda>r. of_type d USER (us_principal_id r)) (id_users d) \<and>
    list_all (\<lambda>r. of_type d ROLE (ro_principal_id r)) (id_roles d) \<and>
    list_all (\<lambda>r. of_type d GROUP (gr_principal_id r)) (id_groups d) \<and>
    list_all (\<lambda>m. of_type d (gm_member_type m) (gm_member m) \<and> of_type d GROUP (gm_group m))
      (id_memberships d) \<and>
    list_all (\<lambda>a. of_type d USER (ur_user a) \<and> of_type d ROLE (ur_role a)) (id_user_roles d)"


section \<open>What the statements keep\<close>

lemma of_type_iff: "of_type d t i \<longleftrightarrow> (i, t) \<in> (\<lambda>p. (pr_id p, pr_type p)) ` set (id_principals d)"
  by (auto simp: of_type_def sql_exists_iff)

lemma of_type_cong:
  "map (\<lambda>p. (pr_id p, pr_type p)) (id_principals d') = map (\<lambda>p. (pr_id p, pr_type p)) (id_principals d) \<Longrightarrow>
    of_type d' = of_type d"
  by (intro ext) (simp only: of_type_iff set_map [symmetric])

lemma usable_of_type: "usable d t i \<Longrightarrow> of_type d t i"
  by (auto simp: usable_def of_type_def sql_exists_iff)

text \<open>
  The kinds of memberships and assignments follow from the foreign keys, once users, roles and
  groups are what they claim to be.
\<close>

lemma well_typed_iff:
  "well_typed d \<longleftrightarrow> constraints_hold d \<and>
    list_all (\<lambda>r. of_type d USER (us_principal_id r)) (id_users d) \<and>
    list_all (\<lambda>r. of_type d ROLE (ro_principal_id r)) (id_roles d) \<and>
    list_all (\<lambda>r. of_type d GROUP (gr_principal_id r)) (id_groups d)"
proof -
  have "list_all (\<lambda>m. of_type d (gm_member_type m) (gm_member m) \<and> of_type d GROUP (gm_group m)) (id_memberships d)"
    if "constraints_hold d" and "list_all (\<lambda>r. of_type d GROUP (gr_principal_id r)) (id_groups d)"
    using that by (auto simp: constraints_hold_def membership_constraints_def list_all_iff of_type_iff)
  moreover have "list_all (\<lambda>a. of_type d USER (ur_user a) \<and> of_type d ROLE (ur_role a)) (id_user_roles d)"
    if "constraints_hold d" and "list_all (\<lambda>r. of_type d USER (us_principal_id r)) (id_users d)"
      and "list_all (\<lambda>r. of_type d ROLE (ro_principal_id r)) (id_roles d)"
    using that by (fastforce simp: constraints_hold_def user_role_constraints_def list_all_iff)
  ultimately show ?thesis by (auto simp: well_typed_def)
qed

lemma update_status_Inr:
  assumes "update_status db_now i act del d = Inr d'"
  shows "d' = d\<lparr>id_principals := sql_update (\<lambda>r. pr_id r = i)
      (\<lambda>r. r\<lparr>pr_is_active := act, pr_deleted_at := del, pr_status_changed_at := db_now\<rparr>) (id_principals d)\<rparr>"
    and "satisfies principal_constraints (id_principals d')"
  using assms by (auto simp: update_status_def result_iffs stmt_iffs split: prod.splits)

lemma update_status_ids:
  assumes "update_status db_now i act del d = Inr d'"
  shows "map (\<lambda>p. (pr_id p, pr_type p)) (id_principals d') = map (\<lambda>p. (pr_id p, pr_type p)) (id_principals d)"
    and "principal_ids d' = principal_ids d"
  using update_status_Inr(1) [OF assms] by (simp_all add: map_sql_update principal_ids_def)

lemma update_status_well_typed:
  assumes "well_typed d" and "update_status db_now i act del d = Inr d'"
  shows "well_typed d'"
proof -
  note ids = update_status_ids [OF assms(2)]
  obtain t where d': "d' = d\<lparr>id_principals := t\<rparr>" and "satisfies principal_constraints (id_principals d')"
    using update_status_Inr [OF assms(2)] by blast
  with assms(1) ids show ?thesis
    unfolding well_typed_def constraints_hold_def user_constraints_def role_constraints_def
      group_constraints_def membership_constraints_def user_role_constraints_def
      grant_constraints_def identifier_constraints_def of_type_cong [OF ids(1)]
    by simp
qed

text \<open>A statement on one of the other tables need only keep that table's constraints.\<close>

lemma well_typed_memberships:
  "well_typed d \<Longrightarrow> satisfies (membership_constraints d) t \<Longrightarrow> well_typed (d\<lparr>id_memberships := t\<rparr>)"
  by (simp add: well_typed_iff constraints_hold_def of_type_def user_constraints_def role_constraints_def
      group_constraints_def membership_constraints_def user_role_constraints_def
      grant_constraints_def identifier_constraints_def principal_ids_def)

lemma well_typed_user_roles:
  "well_typed d \<Longrightarrow> satisfies (user_role_constraints d) t \<Longrightarrow> well_typed (d\<lparr>id_user_roles := t\<rparr>)"
  by (simp add: well_typed_iff constraints_hold_def of_type_def user_constraints_def role_constraints_def
      group_constraints_def membership_constraints_def user_role_constraints_def
      grant_constraints_def identifier_constraints_def principal_ids_def)

lemma well_typed_grants:
  "well_typed d \<Longrightarrow> satisfies (grant_constraints d) t \<Longrightarrow> well_typed (d\<lparr>id_grants := t\<rparr>)"
  by (simp add: well_typed_iff constraints_hold_def of_type_def user_constraints_def role_constraints_def
      group_constraints_def membership_constraints_def user_role_constraints_def
      grant_constraints_def identifier_constraints_def principal_ids_def)

lemma null_or_in_mono: "null_or_in xs c \<Longrightarrow> set xs \<subseteq> set ys \<Longrightarrow> null_or_in ys c"
  by (auto simp: null_or_in_def split: option.splits)

lemma provision_user_Inr:
  assumes "provision_user pid iid db_now a d = Inr (u, d')"
  obtains p us i where "u = pid"
    and "d' = d\<lparr>id_principals := id_principals d @ [p], id_users := id_users d @ [us],
      id_identifiers := id_identifiers d @ [i]\<rparr>"
    and "p = \<lparr>pr_id = pid, pr_type = USER, pr_is_active = True, pr_created_at = db_now,
      pr_status_changed_at = db_now, pr_deleted_at = None\<rparr>"
    and "us_principal_id us = pid"
    and "ui_user i = pid" and "ui_type i = OIDC_SUBJECT" and "ui_issuer i = ai_issuer a"
    and "ui_normalized_value i = ai_subject a" and "ui_valid_to i = None"
    and "satisfies principal_constraints (id_principals d')"
    and "satisfies (user_constraints d') (id_users d')"
    and "satisfies (identifier_constraints d') (id_identifiers d')"
proof -
  have *: "user_constraints (d\<lparr>id_principals := x, id_users := y, id_identifiers := z\<rparr>) =
      user_constraints (d\<lparr>id_principals := x\<rparr>)"
    "identifier_constraints (d\<lparr>id_principals := x, id_users := y, id_identifiers := z\<rparr>) =
      identifier_constraints (d\<lparr>id_principals := x, id_users := y\<rparr>)" for x y z
    by (simp_all add: user_constraints_def identifier_constraints_def principal_ids_def)
  show ?thesis
    using assms by (auto simp: provision_user_def Let_def result_iffs stmt_iffs * intro!: that)
qed

lemma provision_user_well_typed:
  assumes "well_typed d" and "provision_user pid iid db_now a d = Inr (u, d')"
  shows "well_typed d'"
  using assms(2)
proof (rule provision_user_Inr)
  fix p us i
  assume d': "d' = d\<lparr>id_principals := id_principals d @ [p], id_users := id_users d @ [us],
      id_identifiers := id_identifiers d @ [i]\<rparr>"
    and p: "p = \<lparr>pr_id = pid, pr_type = USER, pr_is_active = True, pr_created_at = db_now,
      pr_status_changed_at = db_now, pr_deleted_at = None\<rparr>"
    and us: "us_principal_id us = pid"
    and sat: "satisfies principal_constraints (id_principals d')"
      "satisfies (user_constraints d') (id_users d')"
      "satisfies (identifier_constraints d') (id_identifiers d')"
  have ids: "set (principal_ids d) \<subseteq> set (principal_ids d')" by (auto simp: d' principal_ids_def)
  have types: "of_type d t x \<Longrightarrow> of_type d' t x" for t x by (auto simp: d' of_type_iff)
  have new: "of_type d' USER pid" by (simp add: d' p of_type_iff)
  from assms(1) have old: "constraints_hold d" by (simp add: well_typed_def)
  have "satisfies (role_constraints d') (id_roles d')" "satisfies (group_constraints d') (id_groups d')"
    using old ids by (auto simp: d' constraints_hold_def role_constraints_def group_constraints_def list_all_iff)
  moreover have "satisfies (membership_constraints d') (id_memberships d')"
    using old null_or_in_mono [OF _ ids]
    by (simp add: d' constraints_hold_def membership_constraints_def list_all_iff)
  moreover have "satisfies (user_role_constraints d') (id_user_roles d')"
    using old null_or_in_mono [OF _ ids]
    by (simp add: d' constraints_hold_def user_role_constraints_def list_all_iff)
  moreover have "satisfies (grant_constraints d') (id_grants d')"
    using old null_or_in_mono [OF _ ids] ids
    by (auto simp: d' constraints_hold_def grant_constraints_def list_all_iff)
  ultimately have "constraints_hold d'" using sat by (simp add: constraints_hold_def)
  moreover have "list_all (\<lambda>r. of_type d' USER (us_principal_id r)) (id_users d')"
    "list_all (\<lambda>r. of_type d' ROLE (ro_principal_id r)) (id_roles d')"
    "list_all (\<lambda>r. of_type d' GROUP (gr_principal_id r)) (id_groups d')"
    using assms(1) types new us by (auto simp: d' well_typed_def list_all_iff)
  ultimately show ?thesis by (simp add: well_typed_iff)
qed

end
