(* ===== verification/Keycloak.thy ===== *)
theory Keycloak
  imports Identity "HOL-Library.AList"
begin

text \<open>
  Verification of bearer tokens: \<open>platform/auth/keycloak.py\<close>. The verifier keeps the signing
  keys that Keycloak publishes (its JWKS) for a configured time, fetches them again when they
  are too old or when a token names a key it does not know, and has the JWT library check the
  token against the key.

  The library and the provider are arguments: \<open>jwt_library\<close> holds the two calls made of PyJWT,
  and a provider gives the JSON payload of a GET at each instant (None for an HTTP error or a
  payload that is no JSON). Instants are the readings of \<open>time.monotonic\<close>, as exact rationals.
  A coroutine waits for the lock of the refresh and for the network only; \<open>re_others\<close> is what
  the other coroutines did to the cache while this one waited for the lock.
\<close>

section \<open>The verifier\<close>

type_synonym instant = rat
type_synonym jwks_keys = "(pystr \<times> json) list"
type_synonym provider = "instant \<Rightarrow> pystr \<Rightarrow> json option"

datatype verification_error = TokenVerificationError string | UncaughtVerifierError

record verifier_config =
  kc_issuer :: pystr
  kc_discovery_url :: pystr
  kc_audience :: pystr
  kc_algorithms :: "pystr list"
  kc_cache_ttl :: instant
  kc_refresh_cooldown :: instant

record jwks_cache =
  jc_keys :: jwks_keys
  jc_expires_at :: instant
  jc_last_refresh_at :: instant

definition rstrip_slash :: "pystr \<Rightarrow> pystr" where
  "rstrip_slash s = rev (dropWhile (\<lambda>c. c = 47) (rev s))"

text \<open>The constructor; \<open>Inl\<close> carries the text of the \<open>ValueError\<close>.\<close>

definition new_verifier ::
  "pystr \<Rightarrow> pystr \<Rightarrow> pystr \<Rightarrow> pystr list \<Rightarrow> rat \<Rightarrow> rat \<Rightarrow> rat \<Rightarrow> string + verifier_config \<times> jwks_cache"
where
  "new_verifier issuer discovery_url audience algorithms timeout ttl cooldown =
    and_then (raise_if (issuer = []) ''Keycloak issuer must not be empty'') (\<lambda>_.
    and_then (raise_if (discovery_url = []) ''Keycloak discovery URL must not be empty'') (\<lambda>_.
    and_then (raise_if (audience = []) ''Keycloak audience must not be empty'') (\<lambda>_.
    and_then (raise_if (algorithms = []) ''At least one JWT algorithm is required'') (\<lambda>_.
    and_then (raise_if (timeout \<le> 0) ''Keycloak timeout must be positive'') (\<lambda>_.
    and_then (raise_if (ttl \<le> 0) ''JWKS cache TTL must be positive'') (\<lambda>_.
    and_then (raise_if (cooldown < 0) ''JWKS refresh cooldown must not be negative'') (\<lambda>_.
      Inr (\<lparr>kc_issuer = rstrip_slash issuer, kc_discovery_url = rstrip_slash discovery_url,
          kc_audience = audience, kc_algorithms = algorithms, kc_cache_ttl = ttl,
          kc_refresh_cooldown = cooldown\<rparr>,
        \<lparr>jc_keys = [], jc_expires_at = 0, jc_last_refresh_at = 0\<rparr>))))))))"

section \<open>Refresh of the keys\<close>

definition get_json :: "provider \<Rightarrow> instant \<Rightarrow> pystr \<Rightarrow> verification_error + json" where
  "get_json provider t url = (case provider t url of
      None \<Rightarrow> Inl (TokenVerificationError ''Keycloak metadata is unavailable'')
    | Some payload \<Rightarrow>
        if is_mapping payload then Inr payload
        else Inl (TokenVerificationError ''Keycloak metadata has an invalid format''))"

text \<open>The dictionary of the keys that have a key id; a later key replaces an earlier one.\<close>

definition add_key :: "json \<Rightarrow> jwks_keys \<Rightarrow> jwks_keys" where
  "add_key raw keys =
    (if is_mapping raw then
       (case get raw ''kid'' of
          Some (JStr kid) \<Rightarrow> if kid = [] then keys else AList.update kid raw keys
        | _ \<Rightarrow> keys)
     else keys)"

definition usable_keys :: "json list \<Rightarrow> jwks_keys" where
  "usable_keys raws = fold add_key raws []"

definition jwks_uri_of :: "json \<Rightarrow> verification_error + pystr" where
  "jwks_uri_of discovery = (case get discovery ''jwks_uri'' of
      Some (JStr uri) \<Rightarrow>
        if uri = [] then Inl (TokenVerificationError ''Keycloak discovery has no JWKS URI'') else Inr uri
    | _ \<Rightarrow> Inl (TokenVerificationError ''Keycloak discovery has no JWKS URI''))"

definition keys_of :: "json \<Rightarrow> verification_error + jwks_keys" where
  "keys_of jwks = (case get jwks ''keys'' of
      Some (JList raws) \<Rightarrow>
        if usable_keys raws = []
        then Inl (TokenVerificationError ''Keycloak JWKS contains no usable keys'')
        else Inr (usable_keys raws)
    | _ \<Rightarrow> Inl (TokenVerificationError ''Keycloak JWKS has an invalid key list''))"

definition fetch_keys :: "verifier_config \<Rightarrow> provider \<Rightarrow> instant \<Rightarrow> instant \<Rightarrow> verification_error + jwks_keys" where
  "fetch_keys cfg provider t u =
    and_then (get_json provider t (kc_discovery_url cfg)) (\<lambda>discovery.
    and_then (jwks_uri_of discovery) (\<lambda>uri.
    and_then (get_json provider u uri) keys_of))"

text \<open>Whether a refresh goes on; both checks of the code are this one.\<close>

definition refresh_due :: "verifier_config \<Rightarrow> bool \<Rightarrow> instant \<Rightarrow> jwks_cache \<Rightarrow> bool" where
  "refresh_due cfg force now c \<longleftrightarrow>
    \<not> (\<not> force \<and> jc_keys c \<noteq> [] \<and> now < jc_expires_at c) \<and>
    \<not> (force \<and> jc_last_refresh_at c \<noteq> 0 \<and> now - jc_last_refresh_at c < kc_refresh_cooldown cfg)"

record refresh_env =
  re_now :: instant
  re_others :: "jwks_cache \<Rightarrow> jwks_cache"
  re_locked_now :: instant
  re_discovery_at :: instant
  re_jwks_at :: instant

definition refresh_jwks ::
  "verifier_config \<Rightarrow> provider \<Rightarrow> bool \<Rightarrow> refresh_env \<Rightarrow> jwks_cache \<Rightarrow>
    (verification_error + unit) \<times> jwks_cache"
where
  "refresh_jwks cfg provider force e c =
    (if \<not> refresh_due cfg force (re_now e) c then (Inr (), c)
     else let c1 = re_others e c; now = re_locked_now e in
       if \<not> refresh_due cfg force now c1 then (Inr (), c1)
       else (case fetch_keys cfg provider (re_discovery_at e) (re_jwks_at e) of
           Inl err \<Rightarrow> (Inl err, c1)
         | Inr keys \<Rightarrow> (Inr (), c1\<lparr>jc_keys := keys, jc_expires_at := now + kc_cache_ttl cfg,
             jc_last_refresh_at := now\<rparr>)))"

definition key_for_id ::
  "verifier_config \<Rightarrow> provider \<Rightarrow> refresh_env \<Rightarrow> refresh_env \<Rightarrow> pystr \<Rightarrow> jwks_cache \<Rightarrow>
    (verification_error + json option) \<times> jwks_cache"
where
  "key_for_id cfg provider e1 e2 kid c =
    (case refresh_jwks cfg provider False e1 c of
       (Inl err, c1) \<Rightarrow> (Inl err, c1)
     | (Inr _, c1) \<Rightarrow>
         (case map_of (jc_keys c1) kid of
            Some key \<Rightarrow> (Inr (Some key), c1)
          | None \<Rightarrow>
              (case refresh_jwks cfg provider True e2 c1 of
                 (Inl err, c2) \<Rightarrow> (Inl err, c2)
               | (Inr _, c2) \<Rightarrow> (Inr (map_of (jc_keys c2) kid), c2))))"

section \<open>Verification of a token\<close>

text \<open>
  \<open>jwt_header\<close> is \<open>get_unverified_header\<close> (None: \<open>InvalidTokenError\<close>). \<open>jwt_decode\<close> makes the key
  from its JWK and decodes the token with the given key, algorithms, audience and issuer,
  requiring the claims exp, iss and sub; \<open>Inl True\<close> is one of the errors the code catches
  (\<open>InvalidTokenError\<close>, \<open>TypeError\<close>, \<open>ValueError\<close>), \<open>Inl False\<close> any other one.
\<close>

record jwt_library =
  jwt_header :: "pystr \<Rightarrow> json option"
  jwt_decode :: "pystr \<Rightarrow> json \<Rightarrow> pystr list \<Rightarrow> pystr \<Rightarrow> pystr \<Rightarrow> bool + json"

fun str_claim :: "json option \<Rightarrow> pystr option" where
  "str_claim (Some (JStr s)) = Some s"
| "str_claim _ = None"

fun bool_claim :: "json option \<Rightarrow> bool option" where
  "bool_claim (Some (JBool b)) = Some b"
| "bool_claim _ = None"

fun nonempty_str :: "json option \<Rightarrow> pystr option" where
  "nonempty_str (Some (JStr s)) = (if s = [] then None else Some s)"
| "nonempty_str _ = None"

definition identity_from_claims :: "json \<Rightarrow> verification_error + authenticated_identity" where
  "identity_from_claims claims =
    (case nonempty_str (get claims ''iss'') of
       None \<Rightarrow> Inl (TokenVerificationError ''Token has no issuer'')
     | Some issuer \<Rightarrow>
         (case nonempty_str (get claims ''sub'') of
            None \<Rightarrow> Inl (TokenVerificationError ''Token has no subject'')
          | Some subject \<Rightarrow> Inr \<lparr>ai_issuer = issuer, ai_subject = subject,
              ai_email = str_claim (get claims ''email''),
              ai_email_verified = bool_claim (get claims ''email_verified''),
              ai_username = str_claim (get claims ''preferred_username''),
              ai_display_name = str_claim (get claims ''name'')\<rparr>))"

text \<open>The algorithm and the key id of the header, checked.\<close>

definition header_key :: "verifier_config \<Rightarrow> json \<Rightarrow> verification_error + pystr \<times> pystr" where
  "header_key cfg header =
    (case str_claim (get header ''alg'') of
       None \<Rightarrow> Inl (TokenVerificationError ''Token uses an unsupported signing algorithm'')
     | Some alg \<Rightarrow>
         if alg \<notin> set (kc_algorithms cfg)
         then Inl (TokenVerificationError ''Token uses an unsupported signing algorithm'')
         else (case nonempty_str (get header ''kid'') of
             None \<Rightarrow> Inl (TokenVerificationError ''Token does not contain a signing key id'')
           | Some kid \<Rightarrow> Inr (alg, kid)))"

definition algorithm_fits :: "pystr \<Rightarrow> json \<Rightarrow> bool" where
  "algorithm_fits alg key \<longleftrightarrow> get key ''alg'' \<in> {None, Some JNull, Some (JStr alg)}"

definition check_token ::
  "verifier_config \<Rightarrow> jwt_library \<Rightarrow> pystr \<Rightarrow> pystr \<Rightarrow> json \<Rightarrow> verification_error + authenticated_identity"
where
  "check_token cfg lib token alg key =
    (if \<not> algorithm_fits alg key
     then Inl (TokenVerificationError ''Token signing key algorithm does not match'')
     else (case jwt_decode lib token key (kc_algorithms cfg) (kc_audience cfg) (kc_issuer cfg) of
         Inl caught \<Rightarrow> Inl (if caught then TokenVerificationError ''Token validation failed''
                          else UncaughtVerifierError)
       | Inr claims \<Rightarrow> identity_from_claims claims))"

definition verify ::
  "verifier_config \<Rightarrow> provider \<Rightarrow> jwt_library \<Rightarrow> refresh_env \<Rightarrow> refresh_env \<Rightarrow> pystr \<Rightarrow> jwks_cache \<Rightarrow>
    (verification_error + authenticated_identity) \<times> jwks_cache"
where
  "verify cfg provider lib e1 e2 token c =
    (case jwt_header lib token of
       None \<Rightarrow> (Inl (TokenVerificationError ''Malformed token header''), c)
     | Some header \<Rightarrow>
         (case header_key cfg header of
            Inl err \<Rightarrow> (Inl err, c)
          | Inr (alg, kid) \<Rightarrow>
              (case key_for_id cfg provider e1 e2 kid c of
                 (Inl err, c') \<Rightarrow> (Inl err, c')
               | (Inr None, c') \<Rightarrow> (Inl (TokenVerificationError ''Token signing key is not trusted''), c')
               | (Inr (Some key), c') \<Rightarrow> (check_token cfg lib token alg key, c'))))"

section \<open>The cache\<close>

text \<open>
  What the cache holds was published by the provider after the instant it is dated with, and
  expires the configured time after that instant.
\<close>

definition cache_ok :: "verifier_config \<Rightarrow> provider \<Rightarrow> jwks_cache \<Rightarrow> bool" where
  "cache_ok cfg provider c \<longleftrightarrow> jc_expires_at c \<le> jc_last_refresh_at c + kc_cache_ttl cfg \<and>
    (jc_keys c = [] \<or> jc_expires_at c = jc_last_refresh_at c + kc_cache_ttl cfg \<and>
      (\<exists>t u. jc_last_refresh_at c \<le> t \<and> t \<le> u \<and> fetch_keys cfg provider t u = Inr (jc_keys c)))"

definition ticks :: "refresh_env \<Rightarrow> bool" where
  "ticks e \<longleftrightarrow> re_now e \<le> re_locked_now e \<and> re_locked_now e \<le> re_discovery_at e \<and>
    re_discovery_at e \<le> re_jwks_at e"

text \<open>
  What may be relied on of the other coroutines between two instants. A refresh itself keeps
  to it (\<open>refresh_keeps_to_rely\<close>).
\<close>

definition rely :: "verifier_config \<Rightarrow> provider \<Rightarrow> instant \<Rightarrow> instant \<Rightarrow> (jwks_cache \<Rightarrow> jwks_cache) \<Rightarrow> bool" where
  "rely cfg provider t u f \<longleftrightarrow> (\<forall>x. cache_ok cfg provider x \<and> jc_last_refresh_at x \<le> t \<longrightarrow>
    cache_ok cfg provider (f x) \<and> jc_expires_at x \<le> jc_expires_at (f x) \<and> jc_last_refresh_at (f x) \<le> u)"

definition undisturbing :: "verifier_config \<Rightarrow> provider \<Rightarrow> refresh_env \<Rightarrow> bool" where
  "undisturbing cfg provider e \<longleftrightarrow> ticks e \<and> rely cfg provider (re_now e) (re_locked_now e) (re_others e)"

lemma new_verifier_cache_ok:
  "new_verifier i u a as timeout ttl cooldown = Inr (cfg, c) \<Longrightarrow>
    0 < kc_cache_ttl cfg \<and> 0 \<le> kc_refresh_cooldown cfg \<and> cache_ok cfg provider c \<and> jc_last_refresh_at c = 0"
  by (auto simp: new_verifier_def result_iffs cache_ok_def)

text \<open>The three outcomes of a refresh.\<close>

lemma refresh_cases:
  assumes "refresh_jwks cfg provider force e c = (r, c')"
  obtains (skipped) "\<not> refresh_due cfg force (re_now e) c" "r = Inr ()" "c' = c"
    | (done_by_others) "\<not> refresh_due cfg force (re_locked_now e) (re_others e c)" "r = Inr ()" "c' = re_others e c"
    | (failed) err where "refresh_due cfg force (re_locked_now e) (re_others e c)" "r = Inl err" "c' = re_others e c"
    | (fetched) keys where "refresh_due cfg force (re_locked_now e) (re_others e c)" "r = Inr ()"
        "fetch_keys cfg provider (re_discovery_at e) (re_jwks_at e) = Inr keys"
        "c' = (re_others e c)\<lparr>jc_keys := keys, jc_expires_at := re_locked_now e + kc_cache_ttl cfg,
          jc_last_refresh_at := re_locked_now e\<rparr>"
proof (cases "refresh_due cfg force (re_now e) c")
  case False
  with assms show ?thesis by (intro skipped) (auto simp: refresh_jwks_def)
next
  case due: True
  show ?thesis
  proof (cases "refresh_due cfg force (re_locked_now e) (re_others e c)")
    case False
    with due assms show ?thesis by (intro done_by_others) (auto simp: refresh_jwks_def Let_def)
  next
    case True
    show ?thesis
    proof (cases "fetch_keys cfg provider (re_discovery_at e) (re_jwks_at e)")
      case (Inl err)
      with due True assms show ?thesis by (intro failed) (auto simp: refresh_jwks_def Let_def)
    next
      case (Inr keys)
      with due True assms show ?thesis by (intro fetched) (auto simp: refresh_jwks_def Let_def)
    qed
  qed
qed

lemma refresh_keeps:
  assumes "refresh_jwks cfg provider force e c = (r, c')" and "cache_ok cfg provider c"
    and "jc_last_refresh_at c \<le> re_now e" and "undisturbing cfg provider e"
  shows "cache_ok cfg provider c' \<and> jc_expires_at c \<le> jc_expires_at c' \<and>
    jc_last_refresh_at c' \<le> re_locked_now e"
proof -
  have ticks: "ticks e" and others: "cache_ok cfg provider (re_others e c)"
    "jc_expires_at c \<le> jc_expires_at (re_others e c)" "jc_last_refresh_at (re_others e c) \<le> re_locked_now e"
    using assms(2-4) by (auto simp: undisturbing_def rely_def)
  from assms(1) show ?thesis
  proof (cases rule: refresh_cases)
    case skipped
    with assms(2,3) ticks show ?thesis by (simp add: ticks_def)
  next
    case (fetched keys)
    have "jc_expires_at c \<le> re_locked_now e + kc_cache_ttl cfg"
      using others by (simp add: cache_ok_def)
    with fetched(3) ticks show ?thesis by (auto simp: fetched(4) cache_ok_def ticks_def)
  qed (use others in simp_all)
qed

lemma refresh_keeps_to_rely:
  assumes "undisturbing cfg provider e" and "t \<le> re_now e" and "re_locked_now e \<le> u"
  shows "rely cfg provider t u (\<lambda>x. snd (refresh_jwks cfg provider force e x))"
proof -
  have "cache_ok cfg provider (snd (refresh_jwks cfg provider force e x)) \<and>
      jc_expires_at x \<le> jc_expires_at (snd (refresh_jwks cfg provider force e x)) \<and>
      jc_last_refresh_at (snd (refresh_jwks cfg provider force e x)) \<le> u"
    if "cache_ok cfg provider x" and "jc_last_refresh_at x \<le> t" for x
    using refresh_keeps [OF prod.collapse [symmetric] that(1) order_trans [OF that(2) assms(2)] assms(1), of force]
      assms(3) by auto
  then show ?thesis by (simp add: rely_def)
qed

text \<open>After an unforced refresh the keys are not older than the configured time.\<close>

lemma refresh_fresh:
  assumes "refresh_jwks cfg provider False e c = (Inr (), c')" and "cache_ok cfg provider c"
    and "undisturbing cfg provider e" and "0 < kc_cache_ttl cfg"
  shows "re_now e < jc_expires_at c'"
  using assms(1)
proof (cases rule: refresh_cases)
  case skipped
  then show ?thesis by (simp add: refresh_due_def)
next
  case done_by_others
  then show ?thesis using assms(3) by (simp add: refresh_due_def undisturbing_def ticks_def)
next
  case (fetched keys)
  then show ?thesis using assms(3,4) by (simp add: undisturbing_def ticks_def)
qed simp

lemma key_found:
  assumes "key_for_id cfg provider e1 e2 kid c = (Inr (Some key), c')" and "cache_ok cfg provider c"
    and "jc_last_refresh_at c \<le> re_now e1" and "re_locked_now e1 \<le> re_now e2"
    and "undisturbing cfg provider e1" and "undisturbing cfg provider e2" and "0 < kc_cache_ttl cfg"
  shows "map_of (jc_keys c') kid = Some key \<and> cache_ok cfg provider c' \<and> re_now e1 < jc_expires_at c'"
proof -
  obtain c1 where r1: "refresh_jwks cfg provider False e1 c = (Inr (), c1)"
    and key: "map_of (jc_keys c1) kid = Some key \<and> c' = c1 \<or>
      (\<exists>r. refresh_jwks cfg provider True e2 c1 = (Inr r, c') \<and> map_of (jc_keys c') kid = Some key)"
    using assms(1) by (auto simp: key_for_id_def split: prod.splits sum.splits option.splits)
  note k1 = refresh_keeps [OF r1 assms(2,3,5)] and f1 = refresh_fresh [OF r1 assms(2,5,7)]
  from key show ?thesis
  proof (elim disjE exE conjE)
    fix r assume r2: "refresh_jwks cfg provider True e2 c1 = (Inr r, c')"
      and "map_of (jc_keys c') kid = Some key"
    moreover have "cache_ok cfg provider c' \<and> jc_expires_at c1 \<le> jc_expires_at c'"
      using refresh_keeps [OF r2 _ _ assms(6)] k1 assms(4) by auto
    ultimately show ?thesis using f1 by simp
  qed (use k1 f1 in simp)
qed

section \<open>What an accepted token is\<close>

text \<open>
  C40. Whatever other requests do to the cache meanwhile, an accepted token names, in its
  header, an allowed algorithm and a key that Keycloak published less than the configured time
  before the verification began, and the library has checked the token with that key and the
  configured algorithms, audience and issuer; the identity is read from the claims it returned.
  In particular a key that was withdrawn stops being accepted when that time is over.
\<close>

theorem accepted_token_has_current_key:
  assumes "verify cfg provider lib e1 e2 token c = (Inr a, c')" and "cache_ok cfg provider c"
    and "jc_last_refresh_at c \<le> re_now e1" and "re_locked_now e1 \<le> re_now e2"
    and "undisturbing cfg provider e1" and "undisturbing cfg provider e2" and "0 < kc_cache_ttl cfg"
  shows "\<exists>header alg kid key claims t u keys.
    jwt_header lib token = Some header \<and> header_key cfg header = Inr (alg, kid) \<and> alg \<in> set (kc_algorithms cfg) \<and>
    re_now e1 < t + kc_cache_ttl cfg \<and> t \<le> u \<and> fetch_keys cfg provider t u = Inr keys \<and>
    map_of keys kid = Some key \<and> algorithm_fits alg key \<and>
    jwt_decode lib token key (kc_algorithms cfg) (kc_audience cfg) (kc_issuer cfg) = Inr claims \<and>
    identity_from_claims claims = Inr a"
proof -
  obtain header alg kid key where h: "jwt_header lib token = Some header" "header_key cfg header = Inr (alg, kid)"
    and k: "key_for_id cfg provider e1 e2 kid c = (Inr (Some key), c')"
    and ch: "check_token cfg lib token alg key = Inr a"
    using assms(1) by (auto simp: verify_def split: option.splits sum.splits prod.splits)
  have alg: "alg \<in> set (kc_algorithms cfg)"
    using h(2) by (auto simp: header_key_def split: option.splits if_splits)
  from key_found [OF k assms(2-7)] obtain t u where t: "jc_last_refresh_at c' \<le> t" "t \<le> u"
    and f: "fetch_keys cfg provider t u = Inr (jc_keys c')" and m: "map_of (jc_keys c') kid = Some key"
    and "re_now e1 < jc_last_refresh_at c' + kc_cache_ttl cfg"
    by (auto simp: cache_ok_def)
  with t have "re_now e1 < t + kc_cache_ttl cfg" by simp
  moreover obtain claims where "algorithm_fits alg key"
    "jwt_decode lib token key (kc_algorithms cfg) (kc_audience cfg) (kc_issuer cfg) = Inr claims"
    "identity_from_claims claims = Inr a"
    using ch by (auto simp: check_token_def split: if_splits sum.splits)
  ultimately show ?thesis using h alg t f m by blast
qed

section \<open>How often the provider is asked\<close>

lemma refresh_due_later: "refresh_due cfg force t c \<Longrightarrow> t \<le> u \<Longrightarrow> refresh_due cfg force u c"
  by (auto simp: refresh_due_def)

text \<open>
  A refresh that asks the provider and gets keys comes at least the cooldown or the life
  time of the keys after the refresh before it, whoever made it. One that fails leaves the
  cache as it was: every later refresh of that kind is due at once, so while the provider gives
  no usable answer every token with an unknown key asks it again.
\<close>

theorem refresh_rate:
  assumes "refresh_jwks cfg provider force e c = (r, c')" and "cache_ok cfg provider (re_others e c)"
    and "refresh_due cfg force (re_now e) c" and "refresh_due cfg force (re_locked_now e) (re_others e c)"
  shows "case r of
      Inr _ \<Rightarrow> jc_last_refresh_at c' = re_locked_now e \<and>
        (jc_keys (re_others e c) = [] \<or> jc_last_refresh_at (re_others e c) = 0 \<or>
          min (kc_cache_ttl cfg) (kc_refresh_cooldown cfg) \<le> re_locked_now e - jc_last_refresh_at (re_others e c))
    | Inl _ \<Rightarrow> c' = re_others e c \<and> (\<forall>now \<ge> re_locked_now e. refresh_due cfg force now c')"
  using assms(1)
proof (cases rule: refresh_cases)
  case (failed err)
  with assms(4) show ?thesis by (auto intro: refresh_due_later)
next
  case (fetched keys)
  from assms(2) have "jc_keys (re_others e c) = [] \<or>
      jc_expires_at (re_others e c) = jc_last_refresh_at (re_others e c) + kc_cache_ttl cfg"
    by (auto simp: cache_ok_def)
  with fetched(1) show ?thesis by (auto simp: fetched(2,4) refresh_due_def min_def)
qed (use assms(3,4) in simp_all)

section \<open>Examples\<close>

definition sample_key :: json where
  "sample_key = JObj [(lit ''kid'', JStr (lit ''k1'')), (lit ''alg'', JStr (lit ''RS256''))]"

definition sample_claims :: json where
  "sample_claims = JObj [(lit ''iss'', JStr (lit ''i'')), (lit ''sub'', JStr (lit ''alice''))]"

definition sample_verifier :: verifier_config where
  "sample_verifier = \<lparr>kc_issuer = lit ''i'', kc_discovery_url = lit ''d'', kc_audience = lit ''api'',
    kc_algorithms = [lit ''RS256''], kc_cache_ttl = 3600, kc_refresh_cooldown = 30\<rparr>"

definition empty_cache :: jwks_cache where
  "empty_cache = \<lparr>jc_keys = [], jc_expires_at = 0, jc_last_refresh_at = 0\<rparr>"

definition sample_provider :: provider where
  "sample_provider t url =
    (if url = lit ''d'' then Some (JObj [(lit ''jwks_uri'', JStr (lit ''u''))])
     else if url = lit ''u'' then Some (JObj [(lit ''keys'', JList [sample_key])]) else None)"

definition sample_library :: jwt_library where
  "sample_library = \<lparr>jwt_header = (\<lambda>token. Some sample_key),
    jwt_decode = (\<lambda>token key algorithms audience issuer. if token = lit ''t'' then Inr sample_claims else Inl True)\<rparr>"

definition at_time :: "instant \<Rightarrow> refresh_env" where
  "at_time t = \<lparr>re_now = t, re_others = id, re_locked_now = t, re_discovery_at = t, re_jwks_at = t\<rparr>"

definition alice_identity :: authenticated_identity where
  "alice_identity = \<lparr>ai_issuer = lit ''i'', ai_subject = lit ''alice'', ai_email = None,
    ai_email_verified = None, ai_username = None, ai_display_name = None\<rparr>"

lemmas sample_defs = sample_key_def sample_claims_def sample_verifier_def empty_cache_def
  sample_provider_def sample_library_def at_time_def alice_identity_def

lemma undisturbing_at_time: "undisturbing cfg provider (at_time t)"
  by (simp add: undisturbing_def ticks_def rely_def at_time_def)

lemma sample_keys: "fetch_keys sample_verifier sample_provider t u = Inr [(lit ''k1'', sample_key)]"
  by (simp add: fetch_keys_def get_json_def jwks_uri_of_def keys_of_def usable_keys_def add_key_def sample_defs
    and_then_def)

lemma sample_refresh:
  "refresh_jwks sample_verifier sample_provider False (at_time 1) empty_cache =
    (Inr (), \<lparr>jc_keys = [(lit ''k1'', sample_key)], jc_expires_at = 3601, jc_last_refresh_at = 1\<rparr>)"
  by (simp add: refresh_jwks_def refresh_due_def Let_def sample_keys)
    (simp add: sample_defs)

lemma sample_verified:
  "verify sample_verifier sample_provider sample_library (at_time 1) (at_time 2) (lit ''t'') empty_cache =
    (Inr alice_identity, \<lparr>jc_keys = [(lit ''k1'', sample_key)], jc_expires_at = 3601, jc_last_refresh_at = 1\<rparr>)"
proof -
  have "key_for_id sample_verifier sample_provider (at_time 1) (at_time 2) (lit ''k1'') empty_cache =
      (Inr (Some sample_key), \<lparr>jc_keys = [(lit ''k1'', sample_key)], jc_expires_at = 3601, jc_last_refresh_at = 1\<rparr>)"
    by (simp add: key_for_id_def sample_refresh)
  moreover have "jwt_header sample_library (lit ''t'') = Some sample_key"
    "header_key sample_verifier sample_key = Inr (lit ''RS256'', lit ''k1'')"
    by (simp_all add: sample_defs header_key_def)
  moreover have "check_token sample_verifier sample_library (lit ''t'') (lit ''RS256'') sample_key = Inr alice_identity"
    by (simp add: sample_defs check_token_def algorithm_fits_def identity_from_claims_def)
  ultimately show ?thesis by (simp add: verify_def)
qed

theorem accepted_token_has_current_key_witness:
  "\<exists>t u keys key. 1 < t + (3600::rat) \<and> fetch_keys sample_verifier sample_provider t u = Inr keys \<and>
    map_of keys (lit ''k1'') = Some key"
proof -
  have kid: "header_key sample_verifier sample_key = Inr (lit ''RS256'', lit ''k1'')"
    by (simp add: header_key_def sample_defs)
  have "cache_ok sample_verifier sample_provider empty_cache" "jc_last_refresh_at empty_cache \<le> re_now (at_time 1)"
    "re_locked_now (at_time 1) \<le> re_now (at_time 2)" "0 < kc_cache_ttl sample_verifier"
    by (simp_all add: cache_ok_def sample_defs)
  from accepted_token_has_current_key [OF sample_verified this(1-3) undisturbing_at_time undisturbing_at_time this(4)]
  obtain header alg kid key claims t u keys where *: "jwt_header sample_library (lit ''t'') = Some header"
    "header_key sample_verifier header = Inr (alg, kid)" "re_now (at_time 1) < t + kc_cache_ttl sample_verifier"
    "fetch_keys sample_verifier sample_provider t u = Inr keys" "map_of keys kid = Some key"
    by blast
  from *(1) have "header = sample_key" by (simp add: sample_library_def)
  with *(2) kid have "kid = lit ''k1''" by simp
  moreover from *(3) have "1 < t + (3600::rat)" by (simp add: at_time_def sample_verifier_def)
  ultimately show ?thesis using *(4,5) by blast
qed

text \<open>A provider that is not reachable from instant 10 on, and the keys fetched at 5.\<close>

definition failing_provider :: provider where
  "failing_provider t url = (if t < 10 then sample_provider t url else None)"

definition old_cache :: jwks_cache where
  "old_cache = \<lparr>jc_keys = [(lit ''k1'', sample_key)], jc_expires_at = 3605, jc_last_refresh_at = 5\<rparr>"

theorem refresh_rate_witness: "\<forall>now \<ge> 40. refresh_due sample_verifier True now old_cache"
proof -
  have r: "refresh_jwks sample_verifier failing_provider True (at_time 40) old_cache =
      (Inl (TokenVerificationError ''Keycloak metadata is unavailable''), old_cache)"
    by (simp add: refresh_jwks_def refresh_due_def fetch_keys_def get_json_def failing_provider_def at_time_def
      sample_verifier_def and_then_def old_cache_def)
  have "fetch_keys sample_verifier failing_provider 5 5 = fetch_keys sample_verifier sample_provider 5 5"
    by (simp add: fetch_keys_def get_json_def failing_provider_def)
  then have "cache_ok sample_verifier failing_provider old_cache"
    using sample_keys by (auto simp: cache_ok_def old_cache_def sample_verifier_def intro!: exI [of _ 5])
  then have "cache_ok sample_verifier failing_provider (re_others (at_time 40) old_cache)"
    "refresh_due sample_verifier True (re_now (at_time 40)) old_cache"
    "refresh_due sample_verifier True (re_locked_now (at_time 40)) (re_others (at_time 40) old_cache)"
    by (simp_all add: refresh_due_def at_time_def sample_verifier_def old_cache_def)
  from refresh_rate [OF r this] show ?thesis by (simp add: at_time_def)
qed

end
