(* ===== verification/IdentityGroups.thy ===== *)
theory IdentityGroups
  imports Identity
begin

text \<open>
  Groups and effective principals: the statements of
  \<open>modules/identity/repositories/group_membership.py\<close> and \<open>effective_principal.py\<close>, and the
  service \<open>services/group_membership.py\<close>.

  Both repositories use a recursive query (WITH RECURSIVE ... UNION). \<open>recursive_union\<close> is its
  evaluation: a working table is replaced, round by round, by the rows it leads to that are
  not in the result yet. It ends because the result grows within the finitely many rows of
  the edge table, also when the memberships form a cycle, and it computes reachability
  (\<open>recursive_union_rtrancl\<close>). The operations that change memberships take as argument what
  other transactions commit between their check and their write.
\<close>

section \<open>Recursive queries\<close>

definition successors :: "('a \<times> 'a) list \<Rightarrow> 'a list \<Rightarrow> 'a list" where
  "successors E w = [snd e. e \<leftarrow> E, x \<leftarrow> w, x = fst e]"

lemma set_successors: "set (successors E w) = {y. \<exists>x \<in> set w. (x, y) \<in> set E}"
  by (force simp: successors_def)

text \<open>\<open>acc\<close> is the result so far, the second list the working table.\<close>

function (sequential) union_loop :: "('a \<times> 'a) list \<Rightarrow> 'a list \<Rightarrow> 'a list \<Rightarrow> 'a list" where
  "union_loop E acc [] = acc"
| "union_loop E acc (w # ws) =
    (let new = filter (\<lambda>y. y \<notin> set acc) (remdups (successors E (w # ws)))
     in union_loop E (acc @ new) new)"
  by pat_completeness auto

lemma union_loop_measure:
  assumes "set new \<subseteq> snd ` set E - set acc" and "new \<noteq> []"
  shows "card (snd ` set E - set (acc @ new)) < card (snd ` set E - set acc)"
proof (rule psubset_card_mono)
  obtain x where "x \<in> set new" using assms(2) by (cases new) auto
  with assms(1) show "snd ` set E - set (acc @ new) \<subset> snd ` set E - set acc" by auto
qed simp

termination union_loop
proof (relation "measures [\<lambda>(E, acc, w). card (snd ` set E - set acc), \<lambda>(E, acc, w). length w]",
    goal_cases)
  case (2 E acc w ws new)
  have "set new \<subseteq> snd ` set E - set acc"
    using 2 by (force simp: set_successors)
  with union_loop_measure [of new E acc] show ?case by (cases "new = []") auto
qed simp

definition recursive_union :: "('a \<times> 'a) list \<Rightarrow> 'a list \<Rightarrow> 'a list" where
  "recursive_union E base = union_loop E (remdups base) (remdups base)"

text \<open>
  The result is closed under the edges as soon as every row that is not in the working table
  has had its successors added.
\<close>

lemma union_loop_sound:
  "set w \<subseteq> set acc \<Longrightarrow> y \<in> set (union_loop E acc w) \<Longrightarrow> \<exists>x \<in> set acc. (x, y) \<in> (set E)\<^sup>*"
proof (induction E acc w rule: union_loop.induct)
  case (2 E acc w ws)
  define new where "new = filter (\<lambda>y. y \<notin> set acc) (remdups (successors E (w # ws)))"
  from 2 new_def obtain x where x: "x \<in> set (acc @ new)" "(x, y) \<in> (set E)\<^sup>*"
    by (auto simp: Let_def)
  show ?case
  proof (cases "x \<in> set acc")
    case False
    with x(1) obtain z where "z \<in> set (w # ws)" "(z, x) \<in> set E"
      by (auto simp: new_def set_successors)
    with x(2) "2.prems"(1) show ?thesis by (meson converse_rtrancl_into_rtrancl subsetD)
  qed (use x in blast)
qed auto

lemma union_loop_complete:
  assumes "set w \<subseteq> set acc" and "\<And>x y. x \<in> set acc - set w \<Longrightarrow> (x, y) \<in> set E \<Longrightarrow> y \<in> set acc"
  shows "set acc \<subseteq> set (union_loop E acc w) \<and>
    (\<forall>x y. x \<in> set (union_loop E acc w) \<longrightarrow> (x, y) \<in> set E \<longrightarrow> y \<in> set (union_loop E acc w))"
  using assms
proof (induction E acc w rule: union_loop.induct)
  case (2 E acc w ws)
  define new where "new = filter (\<lambda>y. y \<notin> set acc) (remdups (successors E (w # ws)))"
  have step: "y \<in> set (acc @ new)" if "x \<in> set (acc @ new) - set new" "(x, y) \<in> set E" for x y
  proof (cases "x \<in> set (w # ws)")
    case True
    with that(2) show ?thesis by (auto simp: new_def set_successors)
  next
    case False
    with that "2.prems"(2) [of x y] show ?thesis by auto
  qed
  have "set (acc @ new) \<subseteq> set (union_loop E (acc @ new) new) \<and>
      (\<forall>x y. x \<in> set (union_loop E (acc @ new) new) \<longrightarrow> (x, y) \<in> set E \<longrightarrow>
        y \<in> set (union_loop E (acc @ new) new))"
  proof (rule "2.IH" [OF new_def])
    show "y \<in> set (acc @ new)" if "x \<in> set (acc @ new) - set new" and "(x, y) \<in> set E" for x y
      using that by (rule step)
  qed simp
  moreover have "union_loop E acc (w # ws) = union_loop E (acc @ new) new"
    by (simp only: union_loop.simps(2) Let_def new_def)
  ultimately show ?case by simp
next
  case (1 E acc)
  have "y \<in> set acc" if "x \<in> set acc" and "(x, y) \<in> set E" for x y
    using "1.prems"(2) [of x y] that by simp
  then show ?case unfolding union_loop.simps(1) by blast
qed

lemma recursive_union_rtrancl:
  "set (recursive_union E base) = {y. \<exists>x \<in> set base. (x, y) \<in> (set E)\<^sup>*}"
proof (intro equalityI subsetI)
  fix y
  assume "y \<in> set (recursive_union E base)"
  then show "y \<in> {y. \<exists>x \<in> set base. (x, y) \<in> (set E)\<^sup>*}"
    unfolding recursive_union_def using union_loop_sound [of "remdups base" "remdups base" y E] by simp
next
  note complete = union_loop_complete [of "remdups base" "remdups base" E]
  fix y
  assume "y \<in> {y. \<exists>x \<in> set base. (x, y) \<in> (set E)\<^sup>*}"
  then obtain x where "x \<in> set base" and "(x, y) \<in> (set E)\<^sup>*" by blast
  from this(2,1) show "y \<in> set (recursive_union E base)"
    unfolding recursive_union_def
  proof induction
    case base
    then show ?case using complete by auto
  next
    case (step y z)
    then show ?case using complete by blast
  qed
qed

section \<open>The group membership repository\<close>

record direct_group_member =
  dm_membership_id :: uuid
  dm_member :: uuid
  dm_member_type :: principal_type
  dm_added_at :: datetime
  dm_added_by :: "uuid option"

definition list_active_members :: "uuid \<Rightarrow> identity_db \<Rightarrow> direct_group_member list" where
  "list_active_members g d =
    map (\<lambda>m. \<lparr>dm_membership_id = gm_id m, dm_member = gm_member m, dm_member_type = gm_member_type m,
        dm_added_at = gm_added_at m, dm_added_by = gm_added_by m\<rparr>)
      (sort_key (\<lambda>m. (gm_added_at m, gm_id m))
        (sql_select (\<lambda>m. gm_group m = g \<and> gm_removed_at m = None) (id_memberships d)))"

definition active_membership :: "uuid \<Rightarrow> uuid \<Rightarrow> group_membership \<Rightarrow> bool" where
  "active_membership g i m \<longleftrightarrow> gm_group m = g \<and> gm_member m = i \<and> gm_removed_at m = None"

definition has_active_membership :: "uuid \<Rightarrow> uuid \<Rightarrow> identity_db \<Rightarrow> bool" where
  "has_active_membership g i d = sql_exists (active_membership g i) (id_memberships d)"

definition active_group_edge :: "group_membership \<Rightarrow> bool" where
  "active_group_edge m \<longleftrightarrow> gm_member_type m = GROUP \<and> gm_removed_at m = None"

definition group_edges :: "identity_db \<Rightarrow> (uuid \<times> uuid) list" where
  "group_edges d = [(gm_group m, gm_member m). m \<leftarrow> id_memberships d, active_group_edge m]"

definition would_create_cycle :: "uuid \<Rightarrow> uuid \<Rightarrow> identity_db \<Rightarrow> bool" where
  "would_create_cycle g i d \<longleftrightarrow>
    g \<in> set (recursive_union (group_edges d)
      [gm_member m. m \<leftarrow> id_memberships d, gm_group m = i \<and> active_group_edge m])"

definition add_membership ::
  "uuid \<Rightarrow> uuid \<Rightarrow> uuid \<Rightarrow> principal_type \<Rightarrow> uuid \<Rightarrow> datetime \<Rightarrow> identity_db \<Rightarrow>
    identity_error + unit \<times> identity_db"
where
  "add_membership fresh g i t added_by added_at d =
    and_then (map_error (on_constraint ''uq_group_memberships_active_membership''
        (GroupMembershipAlreadyExists g i))
      (insert_stmt (membership_constraints d)
        [\<lparr>gm_id = fresh, gm_group = g, gm_member = i, gm_member_type = t, gm_added_at = added_at,
          gm_added_by = Some added_by, gm_removed_at = None, gm_removed_by = None\<rparr>]
        (id_memberships d)))
      (\<lambda>t. Inr ((), d\<lparr>id_memberships := t\<rparr>))"

definition close_active_membership ::
  "uuid \<Rightarrow> uuid \<Rightarrow> uuid \<Rightarrow> datetime \<Rightarrow> identity_db \<Rightarrow> identity_error + bool \<times> identity_db"
where
  "close_active_membership g i removed_by removed_at d =
    and_then (map_error IdentityDbError (update_stmt (membership_constraints d) (active_membership g i)
        (\<lambda>m. m\<lparr>gm_removed_at := Some removed_at, gm_removed_by := Some removed_by\<rparr>) (id_memberships d)))
      (\<lambda>(n, t). Inr (0 < n, d\<lparr>id_memberships := t\<rparr>))"

section \<open>The group membership service\<close>

definition get_principal :: "string \<Rightarrow> uuid \<Rightarrow> identity_db \<Rightarrow> identity_error + principal_state" where
  "get_principal role i d = and_then (find_by_id i d) (\<lambda>p. case p of
      None \<Rightarrow> Inl (PrincipalNotFound i role) | Some p \<Rightarrow> Inr p)"

definition ensure_active :: "string \<Rightarrow> principal_state \<Rightarrow> identity_error + unit" where
  "ensure_active role p =
    and_then (raise_if (ps_deleted_at p \<noteq> None) (PrincipalRetired (ps_principal_id p) role)) (\<lambda>_.
      raise_if (\<not> ps_is_active p) (PrincipalInactive (ps_principal_id p) role))"

definition ensure_group :: "principal_state \<Rightarrow> identity_error + unit" where
  "ensure_group p = raise_if (ps_type p \<noteq> GROUP) (GroupPrincipalRequired (ps_principal_id p))"

definition get_allowed_member_type :: "principal_state \<Rightarrow> identity_error + principal_type" where
  "get_allowed_member_type p =
    and_then (raise_if (ps_type p \<notin> {USER, GROUP})
      (GroupMemberTypeNotAllowed (ps_principal_id p) (ps_type p))) (\<lambda>_. Inr (ps_type p))"

definition list_group_members :: "uuid \<Rightarrow> identity_db \<Rightarrow> identity_error + direct_group_member list" where
  "list_group_members g d =
    and_then (get_principal ''group'' g d) (\<lambda>group.
    and_then (ensure_group group) (\<lambda>_. Inr (list_active_members g d)))"

definition add_group_member ::
  "uuid \<Rightarrow> datetime \<Rightarrow> (identity_db \<Rightarrow> identity_db) \<Rightarrow> uuid \<Rightarrow> uuid \<Rightarrow> uuid \<Rightarrow> datetime option \<Rightarrow>
    identity_db \<Rightarrow> identity_error + unit \<times> identity_db"
where
  "add_group_member fresh clock others g i actor added_at d =
    and_then (raise_if (g = i) (GroupSelfMembership g i)) (\<lambda>_.
    and_then (get_principal ''group'' g d) (\<lambda>group.
    and_then (ensure_active ''group'' group) (\<lambda>_.
    and_then (ensure_group group) (\<lambda>_.
    and_then (get_principal ''member'' i d) (\<lambda>member.
    and_then (ensure_active ''member'' member) (\<lambda>_.
    and_then (get_allowed_member_type member) (\<lambda>t.
    and_then (raise_if (has_active_membership g i d) (GroupMembershipAlreadyExists g i)) (\<lambda>_.
    and_then (raise_if (t = GROUP \<and> would_create_cycle g i d) (GroupCycleDetected g i)) (\<lambda>_.
      add_membership fresh g i t actor (coalesce added_at clock) (others d))))))))))"

definition remove_group_member ::
  "datetime \<Rightarrow> (identity_db \<Rightarrow> identity_db) \<Rightarrow> uuid \<Rightarrow> uuid \<Rightarrow> uuid \<Rightarrow> identity_db \<Rightarrow>
    identity_error + unit \<times> identity_db"
where
  "remove_group_member clock others g i actor d =
    and_then (get_principal ''group'' g d) (\<lambda>group.
    and_then (ensure_group group) (\<lambda>_.
    and_then (get_principal ''member'' i d) (\<lambda>member.
    and_then (get_allowed_member_type member) (\<lambda>_.
    and_then (close_active_membership g i actor clock (others d)) (\<lambda>(removed, d').
      if removed then Inr ((), d') else Inl (GroupMembershipNotFound g i))))))"

section \<open>Effective principals\<close>

definition active_user :: "uuid \<Rightarrow> identity_db \<Rightarrow> uuid list" where
  "active_user u d = [pr_id p. p \<leftarrow> id_principals d, s \<leftarrow> id_users d,
    us_principal_id s = pr_id p \<and> pr_id p = u \<and> pr_type p = USER \<and> live p]"

definition active_roles :: "uuid \<Rightarrow> identity_db \<Rightarrow> uuid list" where
  "active_roles u d = [ur_role a. a \<leftarrow> id_user_roles d, x \<leftarrow> active_user u d, p \<leftarrow> id_principals d,
    x = ur_user a \<and> pr_id p = ur_role a \<and> ur_revoked_at a = None \<and> pr_type p = ROLE \<and> live p]"

definition direct_groups :: "uuid \<Rightarrow> identity_db \<Rightarrow> uuid list" where
  "direct_groups u d = [gm_group m. m \<leftarrow> id_memberships d, x \<leftarrow> active_user u d, p \<leftarrow> id_principals d,
    x = gm_member m \<and> pr_id p = gm_group m \<and> gm_member_type m = USER \<and> gm_removed_at m = None \<and>
    pr_type p = GROUP \<and> live p]"

definition parent_edges :: "identity_db \<Rightarrow> (uuid \<times> uuid) list" where
  "parent_edges d = [(gm_member m, gm_group m). m \<leftarrow> id_memberships d, p \<leftarrow> id_principals d,
    pr_id p = gm_group m \<and> gm_member_type m = GROUP \<and> gm_removed_at m = None \<and>
    pr_type p = GROUP \<and> live p]"

definition effective_groups :: "uuid \<Rightarrow> identity_db \<Rightarrow> uuid list" where
  "effective_groups u d = recursive_union (parent_edges d) (direct_groups u d)"

definition find_effective_principal_ids :: "uuid \<Rightarrow> identity_db \<Rightarrow> uuid set" where
  "find_effective_principal_ids u d =
    set (remdups (active_user u d @ active_roles u d @ effective_groups u d))"

text \<open>\<open>EffectivePrincipalResolver\<close> delegates to the repository.\<close>

definition resolve_effective_principal_ids :: "uuid \<Rightarrow> identity_db \<Rightarrow> uuid set" where
  "resolve_effective_principal_ids u d = find_effective_principal_ids u d"

text \<open>
  What the resolver promises, as rules: a user who may act has the user's own identity, the
  usable roles assigned to the user, and every usable group that contains the user directly
  or through usable groups.
\<close>

definition assigned :: "identity_db \<Rightarrow> uuid \<Rightarrow> uuid \<Rightarrow> bool" where
  "assigned d u r \<longleftrightarrow> (\<exists>a \<in> set (id_user_roles d). active_assignment u r a)"

definition member_of :: "identity_db \<Rightarrow> principal_type \<Rightarrow> uuid \<Rightarrow> uuid \<Rightarrow> bool" where
  "member_of d t i g \<longleftrightarrow>
    (\<exists>m \<in> set (id_memberships d). active_membership g i m \<and> gm_member_type m = t)"

definition may_act :: "identity_db \<Rightarrow> uuid \<Rightarrow> bool" where
  "may_act d u \<longleftrightarrow> usable d USER u \<and> user_exists u d"

inductive in_group :: "identity_db \<Rightarrow> uuid \<Rightarrow> uuid \<Rightarrow> bool" for d u where
  member: "may_act d u \<Longrightarrow> member_of d USER u g \<Longrightarrow> usable d GROUP g \<Longrightarrow> in_group d u g"
| parent: "in_group d u g \<Longrightarrow> member_of d GROUP g h \<Longrightarrow> usable d GROUP h \<Longrightarrow> in_group d u h"

inductive acts_as :: "identity_db \<Rightarrow> uuid \<Rightarrow> uuid \<Rightarrow> bool" for d u where
  self: "may_act d u \<Longrightarrow> acts_as d u u"
| role: "may_act d u \<Longrightarrow> assigned d u r \<Longrightarrow> usable d ROLE r \<Longrightarrow> acts_as d u r"
| group: "in_group d u g \<Longrightarrow> acts_as d u g"


section \<open>The queries and their rules\<close>

lemma set_active_user: "x \<in> set (active_user u d) \<longleftrightarrow> x = u \<and> may_act d u"
  by (auto simp: active_user_def may_act_def usable_def user_exists_def sql_exists_iff)

lemma set_join3:
  "y \<in> set [f a. a \<leftarrow> as, x \<leftarrow> xs, p \<leftarrow> ps, P a x p] \<longleftrightarrow>
    (\<exists>a \<in> set as. \<exists>x \<in> set xs. \<exists>p \<in> set ps. P a x p \<and> y = f a)"
  by (simp add: disjoint_iff Bex_def image_iff) blast

lemma set_active_roles: "r \<in> set (active_roles u d) \<longleftrightarrow> may_act d u \<and> assigned d u r \<and> usable d ROLE r"
  unfolding active_roles_def set_join3
  by (simp add: assigned_def active_assignment_def usable_def sql_exists_iff set_active_user) blast

lemma set_direct_groups:
  "g \<in> set (direct_groups u d) \<longleftrightarrow> may_act d u \<and> member_of d USER u g \<and> usable d GROUP g"
  unfolding direct_groups_def set_join3
  by (simp add: member_of_def active_membership_def usable_def sql_exists_iff set_active_user) blast

lemma set_parent_edges: "(g, h) \<in> set (parent_edges d) \<longleftrightarrow> member_of d GROUP g h \<and> usable d GROUP h"
  by (auto simp: parent_edges_def member_of_def active_membership_def usable_def sql_exists_iff)

lemma in_group_iff: "in_group d u g \<longleftrightarrow> g \<in> set (effective_groups u d)"
proof
  assume "in_group d u g"
  then show "g \<in> set (effective_groups u d)"
    unfolding effective_groups_def recursive_union_rtrancl
  proof induction
    case (parent g h)
    then have "(g, h) \<in> set (parent_edges d)" by (simp add: set_parent_edges)
    with parent.IH show ?case by (auto intro: rtrancl_into_rtrancl)
  qed (auto simp: set_direct_groups)
next
  assume "g \<in> set (effective_groups u d)"
  then obtain b where "b \<in> set (direct_groups u d)" and "(b, g) \<in> (set (parent_edges d))\<^sup>*"
    by (auto simp: effective_groups_def recursive_union_rtrancl)
  from this(2,1) show "in_group d u g"
    by induction (auto simp: set_direct_groups set_parent_edges intro: in_group.intros)
qed

text \<open>
  C32. The effective principals of a user are exactly what the rules \<open>acts_as\<close> derive: nothing
  for a user that is unknown, inactive or retired; otherwise the user, the usable roles
  actively assigned to the user, and the usable groups reached through active memberships of
  usable groups. The recursive query terminates and finds them all whatever the memberships
  are, cyclic ones included.
\<close>

theorem effective_principals_are_the_rules:
  "find_effective_principal_ids u d = {p. acts_as d u p}"
  by (auto simp: find_effective_principal_ids_def set_active_user set_active_roles in_group_iff
      elim!: acts_as.cases intro: acts_as.intros)

section \<open>What the membership operations keep\<close>

lemma get_principal_Inr:
  "get_principal role i d = Inr p \<Longrightarrow>
    ps_principal_id p = i \<and> of_type d (ps_type p) i \<and>
    (ps_is_active p \<longrightarrow> ps_deleted_at p = None \<longrightarrow> usable d (ps_type p) i)"
  by (fastforce simp: get_principal_def find_by_id_def result_iffs principal_state_of_def of_type_def
      usable_def live_def sql_exists_iff sql_select_def split: option.splits
      dest!: one_or_none_Some filter_singletonD)

lemma add_membership_Inr:
  assumes "add_membership fresh g i t actor added_at d = Inr (u, d')"
  obtains m where "d' = d\<lparr>id_memberships := id_memberships d @ [m]\<rparr>"
    and "satisfies (membership_constraints d) (id_memberships d')"
    and "gm_group m = g" "gm_member m = i" "gm_member_type m = t" "gm_removed_at m = None"
  using assms by (auto simp: add_membership_def result_iffs stmt_iffs intro!: that)

lemma close_active_membership_Inr:
  assumes "close_active_membership g i actor now d = Inr (b, d')"
  obtains f where "d' = d\<lparr>id_memberships := sql_update (active_membership g i) f (id_memberships d)\<rparr>"
    and "satisfies (membership_constraints d) (id_memberships d')"
    and "\<And>m. gm_removed_at (f m) = Some now"
    and "b \<longleftrightarrow> has_active_membership g i d"
  using assms by (auto simp: close_active_membership_def result_iffs stmt_iffs has_active_membership_def
      sql_exists_iff rowcount_0_iff simp flip: neq0_conv split: prod.splits intro!: that)

lemma add_group_member_Inr:
  assumes "add_group_member fresh clock others g i actor added_at d = Inr (u, d')"
  obtains t where "add_membership fresh g i t actor (coalesce added_at clock) (others d) = Inr (u, d')"
    and "usable d GROUP g" and "usable d t i" and "g \<noteq> i"
    and "t = GROUP \<Longrightarrow> \<not> would_create_cycle g i d"
  using assms
  by (auto simp: add_group_member_def result_iffs ensure_active_def ensure_group_def
      get_allowed_member_type_def dest!: get_principal_Inr intro!: that)

lemma remove_group_member_Inr:
  assumes "remove_group_member clock others g i actor d = Inr (u, d')"
  shows "close_active_membership g i actor clock (others d) = Inr (True, d')"
  using assms by (auto simp: remove_group_member_def result_iffs split: if_splits prod.splits)

lemma add_group_member_well_typed:
  assumes "well_typed (others d)" and "add_group_member fresh clock others g i actor added_at d = Inr (u, d')"
  shows "well_typed d'"
  using add_group_member_Inr [OF assms(2)]
proof cases
  case (1 t)
  from 1(1) show ?thesis by (rule add_membership_Inr) (simp add: well_typed_memberships [OF assms(1)])
qed

lemma remove_group_member_well_typed:
  assumes "well_typed (others d)" and "remove_group_member clock others g i actor d = Inr (u, d')"
  shows "well_typed d'"
  using remove_group_member_Inr [OF assms(2)]
  by (rule close_active_membership_Inr) (simp add: well_typed_memberships [OF assms(1)])

section \<open>Acyclicity of the groups\<close>

definition groups_acyclic :: "identity_db \<Rightarrow> bool" where
  "groups_acyclic d \<longleftrightarrow> acyclic (set (group_edges d))"

lemma set_group_edges: "(g, i) \<in> set (group_edges d) \<longleftrightarrow> member_of d GROUP i g"
  by (auto simp: group_edges_def active_group_edge_def member_of_def active_membership_def)

lemma would_create_cycle_iff: "would_create_cycle g i d \<longleftrightarrow> (i, g) \<in> (set (group_edges d))\<^sup>+"
proof -
  have "set [gm_member m. m \<leftarrow> id_memberships d, gm_group m = i \<and> active_group_edge m] =
      {x. (i, x) \<in> set (group_edges d)}"
    by (auto simp: group_edges_def)
  then show ?thesis
    unfolding would_create_cycle_def recursive_union_rtrancl by (auto simp: trancl_unfold_left)
qed

lemma add_membership_edges:
  assumes "add_membership fresh g i t actor added_at d = Inr (u, d')"
  shows "set (group_edges d') = (if t = GROUP then {(g, i)} else {}) \<union> set (group_edges d)"
  using assms by (rule add_membership_Inr) (auto simp: group_edges_def active_group_edge_def)

lemma close_membership_edges:
  assumes "close_active_membership g i actor now d = Inr (b, d')"
  shows "set (group_edges d') \<subseteq> set (group_edges d)"
  using assms
  by (rule close_active_membership_Inr)
    (auto simp: group_edges_def active_group_edge_def set_sql_update split: if_splits)

text \<open>
  The check is the right one: without interference between check and write a new membership
  keeps the groups acyclic, and it is refused exactly when it would close a cycle.
\<close>

lemma add_group_member_acyclic:
  assumes "groups_acyclic d" and "add_group_member fresh clock id g i actor added_at d = Inr (u, d')"
  shows "groups_acyclic d'"
  using add_group_member_Inr [OF assms(2)]
proof cases
  case (1 t)
  have "acyclic (insert (g, i) (set (group_edges d)))" if "t = GROUP"
    using 1(5) that assms(1) 1(4)
    by (auto simp: acyclic_insert groups_acyclic_def would_create_cycle_iff rtrancl_eq_or_trancl)
  with assms(1) add_membership_edges [OF 1(1)] show ?thesis
    by (auto simp: groups_acyclic_def)
qed

lemma remove_group_member_acyclic:
  assumes "groups_acyclic (others d)" and "remove_group_member clock others g i actor d = Inr (u, d')"
  shows "groups_acyclic d'"
  using assms(1) close_membership_edges [OF remove_group_member_Inr [OF assms(2)]]
  by (auto simp: groups_acyclic_def intro: acyclic_subset)

end
