(* ===== verification/IdentityServices.thy ===== *)
theory IdentityServices
  imports IdentityGroups
begin

text \<open>
  The identity services: \<open>superadmin_policy.py\<close>, \<open>principal_lifecycle.py\<close>,
  \<open>role_assignment.py\<close>, \<open>permission_management.py\<close>, \<open>permission_authorization.py\<close> and
  \<open>identity_resolver.py\<close> under \<open>modules/identity/services\<close>, and \<open>bootstrap_superadmin\<close> of
  \<open>scripts/bootstrap_superadmin.py\<close>.

  A service operation is one transaction. The argument \<open>others\<close> is what other transactions
  commit between its first reads and the point where it decides (the lock of the superadmin
  role, or the write): afterwards it works on \<open>others d\<close>. The theorems quantify over
  every interleaving of the operations, each with an arbitrary earlier snapshot \<open>d\<close>.
\<close>

section \<open>The superadmin policy\<close>

definition is_superadmin_role :: "uuid \<Rightarrow> identity_db \<Rightarrow> bool" where
  "is_superadmin_role i d \<longleftrightarrow> find_superadmin_role_id d = Some i"

definition protect_role_lifecycle :: "string \<Rightarrow> uuid \<Rightarrow> identity_db \<Rightarrow> identity_error + unit" where
  "protect_role_lifecycle operation i d =
    raise_if (is_superadmin_role i d) (ProtectedSuperadminRole operation)"

definition protect_user_removal :: "string \<Rightarrow> uuid \<Rightarrow> identity_db \<Rightarrow> identity_error + unit" where
  "protect_user_removal operation u d = (case lock_superadmin_role d of
      None \<Rightarrow> Inl (ProtectedSuperadminRole ''validate superadmin invariant'')
    | Some role \<Rightarrow>
        if \<not> user_has_superadmin_role u d then Inr ()
        else raise_if (count_active_superadmins role d \<le> 1) (LastSuperadminViolation u operation))"

section \<open>The principal lifecycle\<close>

definition ensure_not_retired :: "principal_state \<Rightarrow> identity_error + unit" where
  "ensure_not_retired p =
    raise_if (ps_deleted_at p \<noteq> None) (PrincipalRetired (ps_principal_id p) ''principal'')"

text \<open>The principal's row is locked by the first read, so nothing happens between it and the write.\<close>

definition activate_principal :: "datetime \<Rightarrow> uuid \<Rightarrow> identity_db \<Rightarrow> identity_error + unit \<times> identity_db" where
  "activate_principal db_now i d =
    and_then (get_principal ''principal'' i d) (\<lambda>p.
    and_then (ensure_not_retired p) (\<lambda>_.
      if ps_is_active p then Inr ((), d)
      else and_then (activate db_now i d) (\<lambda>d'. Inr ((), d'))))"

definition deactivate_principal ::
  "datetime \<Rightarrow> (identity_db \<Rightarrow> identity_db) \<Rightarrow> uuid \<Rightarrow> identity_db \<Rightarrow> identity_error + unit \<times> identity_db"
where
  "deactivate_principal db_now others i d =
    and_then (get_principal ''principal'' i d) (\<lambda>p.
    and_then (ensure_not_retired p) (\<lambda>_.
      if \<not> ps_is_active p then Inr ((), others d)
      else
        and_then (protect_role_lifecycle ''deactivate principal'' i d) (\<lambda>_.
        and_then (protect_user_removal ''deactivate principal'' i (others d)) (\<lambda>_.
        and_then (deactivate db_now i (others d)) (\<lambda>d'. Inr ((), d'))))))"

definition retire_principal ::
  "datetime \<Rightarrow> (identity_db \<Rightarrow> identity_db) \<Rightarrow> uuid \<Rightarrow> identity_db \<Rightarrow> identity_error + unit \<times> identity_db"
where
  "retire_principal db_now others i d =
    and_then (get_principal ''principal'' i d) (\<lambda>p.
    and_then (ensure_not_retired p) (\<lambda>_.
    and_then (protect_role_lifecycle ''retire principal'' i d) (\<lambda>_.
    and_then (protect_user_removal ''retire principal'' i (others d)) (\<lambda>_.
    and_then (retire db_now i (others d)) (\<lambda>d'. Inr ((), d'))))))"

section \<open>Role assignments\<close>

definition ensure_user_exists :: "uuid \<Rightarrow> identity_db \<Rightarrow> identity_error + unit" where
  "ensure_user_exists u d = raise_if (\<not> user_exists u d) (RoleAssignmentUserNotFound u)"

definition ensure_targets_exist :: "uuid \<Rightarrow> uuid \<Rightarrow> identity_db \<Rightarrow> identity_error + unit" where
  "ensure_targets_exist u r d =
    and_then (ensure_user_exists u d) (\<lambda>_.
      raise_if (\<not> role_exists r d) (RoleAssignmentRoleNotFound r))"

definition list_roles :: "uuid \<Rightarrow> identity_db \<Rightarrow> identity_error + assigned_role list" where
  "list_roles u d = and_then (ensure_user_exists u d) (\<lambda>_. Inr (list_active_for_user u d))"

text \<open>Every \<open>IntegrityError\<close> inside the transaction becomes a conflict.\<close>

definition assign_role ::
  "uuid \<Rightarrow> datetime \<Rightarrow> (identity_db \<Rightarrow> identity_db) \<Rightarrow> uuid \<Rightarrow> uuid \<Rightarrow> uuid \<Rightarrow> identity_db \<Rightarrow>
    identity_error + unit \<times> identity_db"
where
  "assign_role fresh now others u r actor d =
    and_then (ensure_targets_exist u r d) (\<lambda>_.
    and_then (raise_if (has_active_assignment u r d) (RoleAssignmentConflict u r)) (\<lambda>_.
    and_then (map_error (\<lambda>_. RoleAssignmentConflict u r)
      (add_assignment fresh u r actor now (others d))) (\<lambda>d'. Inr ((), d'))))"

definition revoke_role ::
  "datetime \<Rightarrow> (identity_db \<Rightarrow> identity_db) \<Rightarrow> uuid \<Rightarrow> uuid \<Rightarrow> uuid \<Rightarrow> identity_db \<Rightarrow>
    identity_error + unit \<times> identity_db"
where
  "revoke_role now others u r actor d =
    and_then (ensure_targets_exist u r d) (\<lambda>_.
    and_then (raise_if (\<not> has_active_assignment u r d) (RoleAssignmentNotFound u r)) (\<lambda>_.
    and_then (if is_superadmin_role r d
        then protect_user_removal ''revoke superadmin role'' u (others d) else Inr ()) (\<lambda>_.
    and_then (close_active_assignment u r actor now (others d)) (\<lambda>(revoked, d').
      if revoked then Inr ((), d') else Inl (RoleAssignmentNotFound u r)))))"

section \<open>Permissions\<close>

definition list_permissions :: "identity_db \<Rightarrow> (pystr \<times> pystr option) list" where
  "list_permissions d = list_permission_rows d"

definition list_principal_permissions ::
  "uuid \<Rightarrow> identity_db \<Rightarrow> identity_error + active_permission_grant list"
where
  "list_principal_permissions i d = and_then (find_by_id i d) (\<lambda>p. case p of
      None \<Rightarrow> Inl (PermissionTargetNotFound i)
    | Some _ \<Rightarrow> Inr (list_active_for_principal i d))"

definition ensure_registered :: "permission \<Rightarrow> identity_db \<Rightarrow> identity_error + unit" where
  "ensure_registered p d = raise_if (\<not> permission_exists p d) (PermissionNotFound p)"

definition grant_permission ::
  "uuid \<Rightarrow> datetime \<Rightarrow> (identity_db \<Rightarrow> identity_db) \<Rightarrow> uuid \<Rightarrow> permission \<Rightarrow> uuid \<Rightarrow> identity_db \<Rightarrow>
    identity_error + unit \<times> identity_db"
where
  "grant_permission fresh now others i p actor d =
    and_then (find_by_id i d) (\<lambda>target. case target of
      None \<Rightarrow> Inl (PermissionTargetNotFound i)
    | Some x \<Rightarrow>
        and_then (raise_if (ps_deleted_at x \<noteq> None) (PermissionTargetRetired i)) (\<lambda>_.
        and_then (raise_if (\<not> ps_is_active x) (PermissionTargetInactive i)) (\<lambda>_.
        and_then (ensure_registered p d) (\<lambda>_.
        and_then (raise_if (has_active_grant i p d) (PermissionGrantConflict i p)) (\<lambda>_.
        and_then (map_error (\<lambda>_. PermissionGrantConflict i p)
          (add_grant fresh i p actor now (others d))) (\<lambda>d'. Inr ((), d')))))))"

definition revoke_permission ::
  "datetime \<Rightarrow> (identity_db \<Rightarrow> identity_db) \<Rightarrow> uuid \<Rightarrow> permission \<Rightarrow> uuid \<Rightarrow> identity_db \<Rightarrow>
    identity_error + unit \<times> identity_db"
where
  "revoke_permission now others i p actor d =
    and_then (ensure_registered p d) (\<lambda>_.
    and_then (raise_if (is_superadmin_role i d)
      (ProtectedSuperadminRole (''revoke '' @ map char_of (permission_value p)))) (\<lambda>_.
    and_then (revoke_active_grant i p actor now (others d)) (\<lambda>(revoked, d').
      if revoked then Inr ((), d') else Inl (PermissionGrantNotFound i p))))"

definition is_allowed :: "datetime \<Rightarrow> uuid \<Rightarrow> permission \<Rightarrow> identity_db \<Rightarrow> bool" where
  "is_allowed now u p d = has_permission (resolve_effective_principal_ids u d) p now d"

definition require_permission :: "datetime \<Rightarrow> uuid \<Rightarrow> permission \<Rightarrow> identity_db \<Rightarrow> identity_error + unit" where
  "require_permission now u p d = raise_if (\<not> is_allowed now u p d) (PermissionDenied u p)"

section \<open>Login\<close>

definition ensure_usable :: "local_user_identity \<Rightarrow> identity_error + unit" where
  "ensure_usable l =
    and_then (raise_if (li_deleted_at l \<noteq> None) LocalIdentityRetired) (\<lambda>_.
      raise_if (\<not> li_is_active l) LocalIdentityDisabled)"

definition usable_id :: "local_user_identity \<Rightarrow> identity_error + uuid" where
  "usable_id l = and_then (ensure_usable l) (\<lambda>_. Inr (li_principal_id l))"

definition resolve_after_conflict ::
  "authenticated_identity \<Rightarrow> identity_db \<Rightarrow> identity_error + uuid \<times> identity_db"
where
  "resolve_after_conflict a d =
    and_then (find_by_oidc_subject (ai_issuer a) (ai_subject a) d) (\<lambda>found. case found of
      None \<Rightarrow> Inl IdentityProvisioningConflict
    | Some l \<Rightarrow> and_then (usable_id l) (\<lambda>u. Inr (u, d)))"

text \<open>
  \<open>before_provision\<close>, \<open>before_insert\<close> are what other transactions commit after the first and after the
  second lookup (before the inserts), \<open>after_conflict\<close> what they commit between the rollback
  and the fresh lookup.
\<close>

definition provision ::
  "uuid \<Rightarrow> uuid \<Rightarrow> datetime \<Rightarrow> (identity_db \<Rightarrow> identity_db) \<Rightarrow> (identity_db \<Rightarrow> identity_db) \<Rightarrow>
    authenticated_identity \<Rightarrow> identity_db \<Rightarrow> identity_error + uuid \<times> identity_db"
where
  "provision pid iid db_now before_insert after_conflict a d =
    and_then (find_by_oidc_subject (ai_issuer a) (ai_subject a) d) (\<lambda>found. case found of
      Some l \<Rightarrow> and_then (usable_id l) (\<lambda>u. Inr (u, before_insert d))
    | None \<Rightarrow>
        (case provision_user pid iid db_now a (before_insert d) of
          Inr result \<Rightarrow> Inr result
        | Inl e \<Rightarrow>
            if e = IdentityAlreadyProvisioned
            then resolve_after_conflict a (after_conflict (before_insert d))
            else Inl e))"

definition resolve ::
  "bool \<Rightarrow> uuid \<Rightarrow> uuid \<Rightarrow> datetime \<Rightarrow> (identity_db \<Rightarrow> identity_db) \<Rightarrow> (identity_db \<Rightarrow> identity_db) \<Rightarrow>
    (identity_db \<Rightarrow> identity_db) \<Rightarrow> authenticated_identity \<Rightarrow> identity_db \<Rightarrow>
    identity_error + uuid \<times> identity_db"
where
  "resolve jit_enabled pid iid db_now before_provision before_insert after_conflict a d =
    and_then (find_by_oidc_subject (ai_issuer a) (ai_subject a) d) (\<lambda>found. case found of
      Some l \<Rightarrow> and_then (usable_id l) (\<lambda>u. Inr (u, before_provision d))
    | None \<Rightarrow>
        and_then (raise_if (\<not> jit_enabled) LocalIdentityNotProvisioned) (\<lambda>_.
          provision pid iid db_now before_insert after_conflict a (before_provision d)))"

section \<open>The bootstrap script\<close>

datatype bootstrap_error = NoActiveLocalUser | SuperadminRoleMissing | BootstrapDbError db_error

definition bootstrap_user :: "pystr \<Rightarrow> pystr \<Rightarrow> identity_db \<Rightarrow> uuid option" where
  "bootstrap_user issuer subject d =
    (case [ui_user i. i \<leftarrow> id_identifiers d, u \<leftarrow> id_users d, p \<leftarrow> id_principals d,
        us_principal_id u = ui_user i \<and> pr_id p = us_principal_id u \<and> ui_type i = OIDC_SUBJECT \<and>
        ui_issuer i = issuer \<and> ui_normalized_value i = subject \<and> ui_valid_to i = None \<and> live p] of
      [] \<Rightarrow> None | u # _ \<Rightarrow> Some u)"

text \<open>
  The insert is executed by \<open>add_assignment\<close>, before the \<open>try\<close> around the commit, so its
  \<open>IntegrityError\<close> leaves the function.
\<close>

definition bootstrap_superadmin ::
  "uuid \<Rightarrow> datetime \<Rightarrow> (identity_db \<Rightarrow> identity_db) \<Rightarrow> pystr \<Rightarrow> pystr \<Rightarrow> identity_db \<Rightarrow>
    bootstrap_error + (uuid \<times> bool) \<times> identity_db"
where
  "bootstrap_superadmin fresh now others issuer subject d =
    (case bootstrap_user issuer subject d of None \<Rightarrow> Inl NoActiveLocalUser
    | Some u \<Rightarrow>
        (case find_superadmin_role_id d of None \<Rightarrow> Inl SuperadminRoleMissing
        | Some r \<Rightarrow>
            if has_active_assignment u r d then Inr ((u, False), others d)
            else and_then (map_error BootstrapDbError (add_assignment fresh u r u now (others d)))
              (\<lambda>d'. Inr ((u, True), d'))))"

section \<open>Interleavings\<close>

datatype identity_op =
    AddGroupMember uuid datetime uuid uuid uuid "datetime option"
  | RemoveGroupMember datetime uuid uuid uuid
  | ActivatePrincipal datetime uuid
  | DeactivatePrincipal datetime uuid
  | RetirePrincipal datetime uuid
  | AssignRole uuid datetime uuid uuid uuid
  | RevokeRole datetime uuid uuid uuid
  | GrantPermission uuid datetime uuid permission uuid
  | RevokePermission datetime uuid permission uuid
  | Login bool uuid uuid datetime authenticated_identity
  | BootstrapSuperadmin uuid datetime pystr pystr

text \<open>
  \<open>identity_exec p s d\<close>: the operation took its first reads from the snapshot \<open>s\<close>; when it
  decides, the database is \<open>d\<close>. An operation that raises is rolled back and leaves \<open>d\<close>.
\<close>

fun identity_exec :: "identity_op \<Rightarrow> identity_db \<Rightarrow> identity_db \<Rightarrow> identity_db" where
  "identity_exec (AddGroupMember fresh clock g i actor added_at) s d =
    db_after d (add_group_member fresh clock (\<lambda>_. d) g i actor added_at s)"
| "identity_exec (RemoveGroupMember clock g i actor) s d =
    db_after d (remove_group_member clock (\<lambda>_. d) g i actor s)"
| "identity_exec (ActivatePrincipal db_now i) s d = db_after d (activate_principal db_now i d)"
| "identity_exec (DeactivatePrincipal db_now i) s d =
    db_after d (deactivate_principal db_now (\<lambda>_. d) i s)"
| "identity_exec (RetirePrincipal db_now i) s d = db_after d (retire_principal db_now (\<lambda>_. d) i s)"
| "identity_exec (AssignRole fresh now u r actor) s d =
    db_after d (assign_role fresh now (\<lambda>_. d) u r actor s)"
| "identity_exec (RevokeRole now u r actor) s d = db_after d (revoke_role now (\<lambda>_. d) u r actor s)"
| "identity_exec (GrantPermission fresh now i p actor) s d =
    db_after d (grant_permission fresh now (\<lambda>_. d) i p actor s)"
| "identity_exec (RevokePermission now i p actor) s d =
    db_after d (revoke_permission now (\<lambda>_. d) i p actor s)"
| "identity_exec (Login jit pid iid db_now a) s d =
    db_after d (resolve jit pid iid db_now (\<lambda>_. d) id id a s)"
| "identity_exec (BootstrapSuperadmin fresh now issuer subject) s d =
    db_after d (bootstrap_superadmin fresh now (\<lambda>_. d) issuer subject s)"


text \<open>
  Every interleaving: any sequence of operations, each with a snapshot of its own. All that
  is asked of a snapshot is the table of roles, which no operation writes.
\<close>

inductive interleaved :: "identity_db \<Rightarrow> identity_db \<Rightarrow> bool" for d where
  start: "interleaved d d"
| exec: "interleaved d e \<Longrightarrow> id_roles s = id_roles e \<Longrightarrow> interleaved d (identity_exec p s e)"

text \<open>
  What every operation keeps, every interleaving keeps. \<open>ready\<close> is what is known of the
  database besides the invariant itself.
\<close>

locale kept_by_operations =
  fixes exec :: "'op \<Rightarrow> 'db \<Rightarrow> 'db \<Rightarrow> 'db"
    and fits :: "'db \<Rightarrow> 'db \<Rightarrow> bool"
    and inv :: "'db \<Rightarrow> bool"
  assumes kept: "inv d \<Longrightarrow> fits s d \<Longrightarrow> inv (exec p s d)"
begin

inductive runs :: "'db \<Rightarrow> 'db \<Rightarrow> bool" for d where
  begin_at: "runs d d"
| then_exec: "runs d e \<Longrightarrow> fits s e \<Longrightarrow> runs d (exec p s e)"

lemma runs_kept: "runs d e \<Longrightarrow> inv d \<Longrightarrow> inv e"
  by (induction rule: runs.induct) (auto intro: kept)

lemma serial_kept: "inv d \<Longrightarrow> (\<And>e. fits e e) \<Longrightarrow> inv (fold (\<lambda>p e. exec p e e) ps d)"
  by (induction ps arbitrary: d) (auto intro: kept)

end

section \<open>The effect of an operation\<close>

lemma lifecycle_Inr:
  "activate_principal db_now i d = Inr (u, d') \<Longrightarrow>
    d' = d \<or> update_status db_now i True None d = Inr d'"
  "deactivate_principal db_now others i d = Inr (u, d') \<Longrightarrow>
    d' = others d \<or> \<not> is_superadmin_role i d \<and>
      protect_user_removal ''deactivate principal'' i (others d) = Inr () \<and>
      update_status db_now i False None (others d) = Inr d'"
  "retire_principal db_now others i d = Inr (u, d') \<Longrightarrow>
    \<not> is_superadmin_role i d \<and> protect_user_removal ''retire principal'' i (others d) = Inr () \<and>
      update_status db_now i False (Some db_now) (others d) = Inr d'"
  by (auto simp: activate_principal_def deactivate_principal_def retire_principal_def result_iffs
      protect_role_lifecycle_def activate_def deactivate_def retire_def split: if_splits)

lemma add_assignment_Inr:
  assumes "add_assignment fresh u r actor now d = Inr d'"
  obtains a where "d' = d\<lparr>id_user_roles := id_user_roles d @ [a]\<rparr>"
    and "satisfies (user_role_constraints d) (id_user_roles d')"
    and "active_assignment u r a"
  using assms by (auto simp: add_assignment_def result_iffs stmt_iffs active_assignment_def intro!: that)

lemma close_active_assignment_Inr:
  assumes "close_active_assignment u r actor now d = Inr (b, d')"
  obtains f where "d' = d\<lparr>id_user_roles := sql_update (active_assignment u r) f (id_user_roles d)\<rparr>"
    and "satisfies (user_role_constraints d) (id_user_roles d')"
    and "\<And>a. ur_revoked_at (f a) = Some now"
  using assms by (auto simp: close_active_assignment_def result_iffs stmt_iffs split: prod.splits intro!: that)

lemma assign_role_Inr:
  "assign_role fresh now others u r actor d = Inr (x, d') \<Longrightarrow>
    add_assignment fresh u r actor now (others d) = Inr d'"
  by (auto simp: assign_role_def result_iffs)

lemma revoke_role_Inr:
  "revoke_role now others u r actor d = Inr (x, d') \<Longrightarrow>
    (is_superadmin_role r d \<longrightarrow> protect_user_removal ''revoke superadmin role'' u (others d) = Inr ()) \<and>
    close_active_assignment u r actor now (others d) = Inr (True, d')"
  by (auto simp: revoke_role_def result_iffs split: if_splits prod.splits)

lemma grant_permission_Inr:
  assumes "grant_permission fresh now others i p actor d = Inr (x, d')"
  obtains g where "d' = (others d)\<lparr>id_grants := id_grants (others d) @ [g]\<rparr>"
    and "satisfies (grant_constraints (others d)) (id_grants d')"
  using assms by (auto simp: grant_permission_def add_grant_def result_iffs stmt_iffs split: option.splits intro!: that)

lemma revoke_permission_Inr:
  assumes "revoke_permission now others i p actor d = Inr (x, d')"
  obtains f where "\<not> is_superadmin_role i d"
    and "d' = (others d)\<lparr>id_grants :=
      sql_update (\<lambda>g. pp_principal g = i \<and> active_grant p g) f (id_grants (others d))\<rparr>"
    and "satisfies (grant_constraints (others d)) (id_grants d')"
  using assms by (auto simp: revoke_permission_def revoke_active_grant_def result_iffs stmt_iffs
      split: if_splits prod.splits intro!: that)

lemma resolve_exec:
  assumes "resolve jit pid iid db_now (\<lambda>_. d) id id a s = Inr (u, d')"
  shows "d' = d \<or> provision_user pid iid db_now a d = Inr (u, d')"
  using assms by (auto simp: resolve_def provision_def resolve_after_conflict_def result_iffs
      split: option.splits sum.splits if_splits)

lemma bootstrap_Inr:
  "bootstrap_superadmin fresh now others issuer subject d = Inr (x, d') \<Longrightarrow>
    d' = others d \<or> (\<exists>u r. add_assignment fresh u r u now (others d) = Inr d')"
  by (auto simp: bootstrap_superadmin_def result_iffs split: option.splits if_splits)

text \<open>
  The case split that every invariant proof starts from: an operation leaves the database
  as it is, changes the state of one principal, or applies one insert or update.
\<close>

lemma identity_exec_cases:
  obtains
    (Unchanged) "identity_exec p s d = d"
  | (Member) fresh g i t actor now clock added_at where
      "add_membership fresh g i t actor now d = Inr ((), identity_exec p s d)"
      "add_group_member fresh clock (\<lambda>_. d) g i actor added_at s = Inr ((), identity_exec p s d)"
  | (Unmember) g i actor now where "close_active_membership g i actor now d = Inr (True, identity_exec p s d)"
  | (Activate) now i where "update_status now i True None d = Inr (identity_exec p s d)"
  | (Remove) now i del operation where "\<not> is_superadmin_role i s"
      "protect_user_removal operation i d = Inr ()"
      "update_status now i False del d = Inr (identity_exec p s d)"
  | (Assign) fresh u r actor now where "add_assignment fresh u r actor now d = Inr (identity_exec p s d)"
  | (Revoke) u r actor now operation where
      "is_superadmin_role r s \<longrightarrow> protect_user_removal operation u d = Inr ()"
      "close_active_assignment u r actor now d = Inr (True, identity_exec p s d)"
  | (Grant) g where "identity_exec p s d = d\<lparr>id_grants := id_grants d @ [g]\<rparr>"
      "satisfies (grant_constraints d) (id_grants d @ [g])"
  | (Ungrant) i perm f where "\<not> is_superadmin_role i s"
      "identity_exec p s d = d\<lparr>id_grants := sql_update (\<lambda>g. pp_principal g = i \<and> active_grant perm g) f (id_grants d)\<rparr>"
      "satisfies (grant_constraints d) (id_grants (identity_exec p s d))"
  | (Provision) pid iid now a u where "provision_user pid iid now a d = Inr (u, identity_exec p s d)"
proof (cases p)
  case (AddGroupMember fresh clock g i actor added_at)
  show ?thesis
  proof (cases "add_group_member fresh clock (\<lambda>_. d) g i actor added_at s")
    case (Inr x)
    then have ok: "add_group_member fresh clock (\<lambda>_. d) g i actor added_at s = Inr ((), identity_exec p s d)"
      using AddGroupMember by (cases x) simp
    then obtain t where "add_membership fresh g i t actor (coalesce added_at clock) d = Inr ((), identity_exec p s d)"
      by (rule add_group_member_Inr) simp
    with ok show ?thesis by (rule Member [rotated])
  qed (use AddGroupMember Unchanged in simp)
next
  case (RemoveGroupMember clock g i actor)
  show ?thesis
  proof (cases "remove_group_member clock (\<lambda>_. d) g i actor s")
    case (Inr x)
    then show ?thesis
      using RemoveGroupMember Unmember
      by (cases x) (auto dest!: remove_group_member_Inr [where others = "\<lambda>_. d"])
  qed (use RemoveGroupMember Unchanged in simp)
next
  case (ActivatePrincipal now i)
  show ?thesis
  proof (cases "activate_principal now i d")
    case (Inr x)
    then show ?thesis
      using ActivatePrincipal Unchanged Activate by (cases x) (auto dest!: lifecycle_Inr(1))
  qed (use ActivatePrincipal Unchanged in simp)
next
  case (DeactivatePrincipal now i)
  show ?thesis
  proof (cases "deactivate_principal now (\<lambda>_. d) i s")
    case (Inr x)
    then show ?thesis
      using DeactivatePrincipal Unchanged Remove by (cases x) (auto dest!: lifecycle_Inr(2))
  qed (use DeactivatePrincipal Unchanged in simp)
next
  case (RetirePrincipal now i)
  show ?thesis
  proof (cases "retire_principal now (\<lambda>_. d) i s")
    case (Inr x)
    then show ?thesis
      using RetirePrincipal Remove by (cases x) (auto dest!: lifecycle_Inr(3))
  qed (use RetirePrincipal Unchanged in simp)
next
  case (AssignRole fresh now u r actor)
  show ?thesis
  proof (cases "assign_role fresh now (\<lambda>_. d) u r actor s")
    case (Inr x)
    then show ?thesis using AssignRole Assign by (cases x) (auto dest!: assign_role_Inr)
  qed (use AssignRole Unchanged in simp)
next
  case (RevokeRole now u r actor)
  show ?thesis
  proof (cases "revoke_role now (\<lambda>_. d) u r actor s")
    case (Inr x)
    then show ?thesis
      using RevokeRole Revoke [of r "''revoke superadmin role''" u actor now]
      by (cases x) (auto dest!: revoke_role_Inr)
  qed (use RevokeRole Unchanged in simp)
next
  case (GrantPermission fresh now i q actor)
  show ?thesis
  proof (cases "grant_permission fresh now (\<lambda>_. d) i q actor s")
    case (Inr x)
    then show ?thesis
      using GrantPermission Grant by (cases x) (auto elim!: grant_permission_Inr)
  qed (use GrantPermission Unchanged in simp)
next
  case (RevokePermission now i q actor)
  show ?thesis
  proof (cases "revoke_permission now (\<lambda>_. d) i q actor s")
    case (Inr x)
    then show ?thesis
      using RevokePermission Ungrant by (cases x) (auto elim!: revoke_permission_Inr)
  qed (use RevokePermission Unchanged in simp)
next
  case (Login jit pid iid now a)
  show ?thesis
  proof (cases "resolve jit pid iid now (\<lambda>_. d) id id a s")
    case (Inr x)
    then show ?thesis
      using Login Unchanged Provision by (cases x) (auto dest!: resolve_exec)
  qed (use Login Unchanged in simp)
next
  case (BootstrapSuperadmin fresh now issuer subject)
  show ?thesis
  proof (cases "bootstrap_superadmin fresh now (\<lambda>_. d) issuer subject s")
    case (Inr x)
    then show ?thesis
      using BootstrapSuperadmin Unchanged Assign by (cases x) (auto dest!: bootstrap_Inr)
  qed (use BootstrapSuperadmin Unchanged in simp)
qed

section \<open>Types\<close>

lemma identity_exec_well_typed:
  assumes "well_typed d"
  shows "well_typed (identity_exec p s d)"
proof (cases p s d rule: identity_exec_cases)
  case Member
  from Member(1) show ?thesis by (rule add_membership_Inr) (simp add: well_typed_memberships assms)
next
  case Unmember
  then show ?thesis by (rule close_active_membership_Inr) (simp add: well_typed_memberships assms)
next
  case Assign
  then show ?thesis by (rule add_assignment_Inr) (simp add: well_typed_user_roles assms)
next
  case Revoke
  from Revoke(2) show ?thesis
    by (rule close_active_assignment_Inr) (simp add: well_typed_user_roles assms)
next
  case Grant
  then show ?thesis by (simp add: well_typed_grants assms)
next
  case Ungrant
  then show ?thesis by (simp add: well_typed_grants assms)
qed (use assms in \<open>auto intro: update_status_well_typed provision_user_well_typed\<close>)

lemma identity_exec_roles: "id_roles (identity_exec p s d) = id_roles d"
  by (cases p s d rule: identity_exec_cases)
    (auto elim!: add_membership_Inr close_active_membership_Inr add_assignment_Inr
      close_active_assignment_Inr provision_user_Inr dest!: update_status_Inr(1))


abbreviation same_roles :: "identity_db \<Rightarrow> identity_db \<Rightarrow> bool" where
  "same_roles s d \<equiv> id_roles s = id_roles d"

interpretation types: kept_by_operations identity_exec same_roles well_typed
  by unfold_locales (rule identity_exec_well_typed)

lemma interleaved_runs: "interleaved d e \<Longrightarrow> types.runs d e"
  by (induction rule: interleaved.induct) (auto intro: types.runs.intros)

section \<open>The last superadmin\<close>

definition live_id :: "identity_db \<Rightarrow> uuid \<Rightarrow> bool" where
  "live_id d i \<longleftrightarrow> sql_exists (\<lambda>p. pr_id p = i \<and> live p) (id_principals d)"

lemma count_join:
  assumes "distinct (map pr_id ps)"
  shows "length [x. p \<leftarrow> ps, pr_id p = i \<and> Q \<and> live p] =
    (if Q \<and> sql_exists (\<lambda>p. pr_id p = i \<and> live p) ps then 1 else 0)"
proof (cases "Q")
  case True
  have "length [x. p \<leftarrow> ps, pr_id p = i \<and> live p] = rowcount (\<lambda>p. pr_id p = i \<and> live p) ps"
    by (induction ps) (simp_all add: rowcount_def)
  also have "\<dots> = (if sql_exists (\<lambda>p. pr_id p = i \<and> live p) ps then 1 else 0)"
    using assms by (auto simp: rowcount_key sql_exists_iff dest: lookup_SomeD lookup_unique split: option.splits)
  finally show ?thesis using True by simp
qed (induction ps; simp)

lemma count_active_superadmins_eq:
  assumes "distinct (map pr_id (id_principals d))"
  shows "count_active_superadmins role d =
    rowcount (\<lambda>a. ur_role a = role \<and> ur_revoked_at a = None \<and> live_id d (ur_user a)) (id_user_roles d)"
proof -
  have "length [a. a \<leftarrow> as, p \<leftarrow> id_principals d,
      pr_id p = ur_user a \<and> ur_role a = role \<and> ur_revoked_at a = None \<and> live p] =
    rowcount (\<lambda>a. ur_role a = role \<and> ur_revoked_at a = None \<and> live_id d (ur_user a)) as" for as
  proof (induction as)
    case (Cons a as)
    show ?case
      using Cons count_join [OF assms, where x = a and i = "ur_user a"
        and Q = "ur_role a = role \<and> ur_revoked_at a = None"]
      by (simp add: rowcount_def live_id_def)
  qed (simp add: rowcount_def)
  then show ?thesis by (simp add: count_active_superadmins_def)
qed


definition superadmin_of :: "identity_db \<Rightarrow> uuid \<Rightarrow> uuid \<Rightarrow> bool" where
  "superadmin_of d r u \<longleftrightarrow> assigned d u r \<and> live_id d u"

text \<open>The role exists and is usable, and some live user holds it.\<close>

definition superadmin_safe :: "identity_db \<Rightarrow> bool" where
  "superadmin_safe d \<longleftrightarrow> (case find_superadmin_role_id d of None \<Rightarrow> False
    | Some r \<Rightarrow> usable d ROLE r \<and> 0 < count_active_superadmins r d)"

lemma well_typed_keys:
  assumes "well_typed d"
  shows "distinct (map pr_id (id_principals d))"
    and "distinct (map (\<lambda>a. (ur_user a, ur_role a)) (filter (\<lambda>a. ur_revoked_at a = None) (id_user_roles d)))"
  using assms by (simp_all add: well_typed_def constraints_hold_def principal_constraints_def user_role_constraints_def)

lemma superadmin_count:
  assumes "well_typed d"
  shows "0 < count_active_superadmins r d \<longleftrightarrow> (\<exists>u. superadmin_of d r u)"
  unfolding count_active_superadmins_eq [OF well_typed_keys(1) [OF assms]]
  using rowcount_0_iff [of _ "id_user_roles d"]
  by (auto simp: superadmin_of_def assigned_def active_assignment_def neq0_conv [symmetric] simp del: neq0_conv)

lemma user_has_superadmin_role_iff:
  assumes "find_superadmin_role_id d = Some r"
  shows "user_has_superadmin_role u d \<longleftrightarrow> superadmin_of d r u"
  using assms
  by (fastforce simp: user_has_superadmin_role_def superadmin_of_def assigned_def live_id_def
      sql_exists_iff active_assignment_def)

text \<open>Two superadmins are two users: an active assignment is unique for user and role.\<close>

lemma another_superadmin:
  assumes "well_typed d" and "1 < count_active_superadmins r d"
  shows "\<exists>v. v \<noteq> u \<and> superadmin_of d r v"
proof (rule ccontr)
  assume none: "\<not> ?thesis"
  define P :: "user_role \<Rightarrow> bool" where "P = (\<lambda>a. ur_role a = r \<and> ur_revoked_at a = None \<and> live_id d (ur_user a))"
  let ?as = "filter P (id_user_roles d)"
  let ?key = "\<lambda>a. (ur_user a, ur_role a)"
  from assms(2) have len: "1 < length ?as"
    by (simp add: count_active_superadmins_eq [OF well_typed_keys(1) [OF assms(1)]] rowcount_def P_def)
  have "?as = filter P (filter (\<lambda>a. ur_revoked_at a = None) (id_user_roles d))"
    by (auto simp: P_def intro: filter_cong)
  then have "distinct (map ?key ?as)"
    using distinct_map_filter [OF well_typed_keys(2) [OF assms(1)], of P] by presburger
  moreover have "ur_user a = u \<and> ur_role a = r" if "a \<in> set ?as" for a
  proof -
    from that have "superadmin_of d r (ur_user a)"
      by (auto simp: P_def superadmin_of_def assigned_def active_assignment_def)
    with none that show ?thesis by (auto simp: P_def)
  qed
  then have "set (map ?key ?as) \<subseteq> {(u, r)}" by auto
  ultimately have "length (map ?key ?as) \<le> 1"
    by (metis card_mono distinct_card finite.emptyI finite_insert is_singletonI is_singleton_altdef)
  with len show False by simp
qed

lemma protect_user_removal_leaves_one:
  assumes "well_typed d" and "find_superadmin_role_id d = Some r" and "\<exists>v. superadmin_of d r v"
    and "protect_user_removal operation u d = Inr ()"
  shows "\<exists>v. v \<noteq> u \<and> superadmin_of d r v"
proof (cases "superadmin_of d r u")
  case True
  with assms(2,4) have "1 < count_active_superadmins r d"
    by (simp add: protect_user_removal_def lock_superadmin_role_def user_has_superadmin_role_iff result_iffs)
  with another_superadmin [OF assms(1)] show ?thesis by blast
qed (use assms(3) in metis)

lemma sql_exists_sql_update: "sql_exists q (sql_update p f t) \<longleftrightarrow> (\<exists>r \<in> set t. q (if p r then f r else r))"
  by (auto simp: sql_exists_iff set_sql_update)

lemma update_status_other:
  assumes "update_status now i act del d = Inr d'" and "j \<noteq> i \<or> (act \<and> del = None)"
  shows "usable d t j \<Longrightarrow> usable d' t j" and "live_id d j \<Longrightarrow> live_id d' j"
proof -
  note d' = update_status_Inr(1) [OF assms(1)]
  show "usable d' t j" if "usable d t j"
    using that assms(2) by (fastforce simp: d' usable_def sql_exists_sql_update live_def sql_exists_iff [of _ "id_principals d"])
  show "live_id d' j" if "live_id d j"
    using that assms(2) by (fastforce simp: d' live_id_def sql_exists_sql_update live_def sql_exists_iff [of _ "id_principals d"])
qed

lemma update_status_assigned: "update_status now i act del d = Inr d' \<Longrightarrow> assigned d' = assigned d"
  by (drule update_status_Inr(1)) (simp add: fun_eq_iff assigned_def)

lemma assigned_mono:
  "add_assignment fresh u r actor now d = Inr d' \<Longrightarrow> assigned d v q \<Longrightarrow> assigned d' v q"
  by (auto simp: assigned_def elim!: add_assignment_Inr)

lemma close_other_assignment:
  assumes "close_active_assignment u r actor now d = Inr (b, d')" and "assigned d v q"
    and "v \<noteq> u \<or> q \<noteq> r"
  shows "assigned d' v q"
  using assms(1)
proof (rule close_active_assignment_Inr)
  fix f
  assume d': "d' = d\<lparr>id_user_roles := sql_update (active_assignment u r) f (id_user_roles d)\<rparr>"
  from assms(2) obtain a where a: "a \<in> set (id_user_roles d)" "active_assignment v q a"
    by (auto simp: assigned_def)
  with assms(3) have "\<not> active_assignment u r a" by (auto simp: active_assignment_def)
  with a show ?thesis by (force simp: d' assigned_def set_sql_update)
qed

lemma superadmin_mono:
  assumes "set (id_principals d) \<subseteq> set (id_principals d')" and "id_user_roles d' = id_user_roles d"
  shows "usable d t i \<Longrightarrow> usable d' t i" and "superadmin_of d r u \<Longrightarrow> superadmin_of d' r u"
  using assms by (auto simp: usable_def superadmin_of_def assigned_def live_id_def sql_exists_iff)

lemma superadmin_frame:
  "id_principals d' = id_principals d \<Longrightarrow> id_user_roles d' = id_user_roles d \<Longrightarrow>
    usable d' = usable d \<and> superadmin_of d' = superadmin_of d"
  by (auto simp: fun_eq_iff usable_def superadmin_of_def assigned_def live_id_def)

text \<open>An operation that decides after the lock leaves a live holder of a usable role.\<close>

lemma identity_exec_superadmin:
  assumes "well_typed d" and "same_roles s d" and "find_superadmin_role_id d = Some r"
    and "usable d ROLE r" and "\<exists>u. superadmin_of d r u"
  shows "usable (identity_exec p s d) ROLE r \<and> (\<exists>u. superadmin_of (identity_exec p s d) r u)"
proof (cases p s d rule: identity_exec_cases)
  case Member
  then show ?thesis
    using assms(4,5) superadmin_frame [of "identity_exec p s d" d] by (auto elim!: add_membership_Inr)
next
  case Unmember
  then show ?thesis
    using assms(4,5) superadmin_frame [of "identity_exec p s d" d]
    by (auto elim!: close_active_membership_Inr)
next
  case (Activate now i)
  note keep = update_status_other [OF Activate]
  from assms(4,5) show ?thesis
    by (auto simp: superadmin_of_def update_status_assigned [OF Activate] intro: keep)
next
  case (Remove now i del operation)
  from assms(2,3) Remove(1) have "i \<noteq> r" by (auto simp: is_superadmin_role_def find_superadmin_role_id_def)
  obtain v where v: "v \<noteq> i" "superadmin_of d r v"
    using protect_user_removal_leaves_one [OF assms(1,3,5) Remove(2)] by blast
  note keep = update_status_other [OF Remove(3)]
  from assms(4) \<open>i \<noteq> r\<close> v show ?thesis
    by (auto simp: superadmin_of_def update_status_assigned [OF Remove(3)] intro!: keep exI [of _ v])
next
  case Assign
  then obtain a where "identity_exec p s d = d\<lparr>id_user_roles := id_user_roles d @ [a]\<rparr>"
    by (rule add_assignment_Inr)
  with assms(4,5) show ?thesis
    by (auto simp: usable_def superadmin_of_def assigned_def live_id_def)
next
  case (Revoke u q actor now operation)
  have "find_superadmin_role_id s = Some r" using assms(2,3) by (simp add: find_superadmin_role_id_def)
  then obtain v where v: "superadmin_of d r v" "v \<noteq> u \<or> r \<noteq> q"
    using Revoke(1) assms(5) protect_user_removal_leaves_one [OF assms(1,3,5)]
    by (cases "q = r") (auto simp: is_superadmin_role_def)
  have "usable (identity_exec p s d) ROLE r" "live_id (identity_exec p s d) = live_id d"
    using Revoke(2) assms(4) by (auto simp: usable_def live_id_def elim!: close_active_assignment_Inr)
  with v close_other_assignment [OF Revoke(2)] show ?thesis by (auto simp: superadmin_of_def)
next
  case Grant
  then show ?thesis using assms(4,5) superadmin_frame [of "identity_exec p s d" d] by simp
next
  case Ungrant
  then show ?thesis using assms(4,5) superadmin_frame [of "identity_exec p s d" d] by simp
next
  case Provision
  then have "set (id_principals d) \<subseteq> set (id_principals (identity_exec p s d))"
    and "id_user_roles (identity_exec p s d) = id_user_roles d"
    by (auto elim!: provision_user_Inr)
  note mono = superadmin_mono [OF this]
  show ?thesis using mono(1) [OF assms(4)] assms(5) mono(2) by blast
qed (use assms(4,5) in simp)

lemma superadmin_safe_iff:
  "well_typed d \<Longrightarrow> superadmin_safe d \<longleftrightarrow>
    (\<exists>r. find_superadmin_role_id d = Some r \<and> usable d ROLE r \<and> (\<exists>u. superadmin_of d r u))"
  using superadmin_count by (auto simp: superadmin_safe_def split: option.splits)

lemma identity_exec_find_role: "find_superadmin_role_id (identity_exec p s d) = find_superadmin_role_id d"
  by (simp add: find_superadmin_role_id_def identity_exec_roles)

text \<open>A grant to the superadmin role stays active.\<close>

definition granted :: "identity_db \<Rightarrow> uuid \<Rightarrow> permission \<Rightarrow> datetime \<Rightarrow> bool" where
  "granted d r p now \<longleftrightarrow>
    (\<exists>g \<in> set (id_grants d). pp_principal g = r \<and> active_grant p g \<and> pp_granted_at g \<le> now)"

lemma identity_exec_granted:
  assumes "same_roles s d" and "find_superadmin_role_id d = Some r" and "granted d r q now"
  shows "granted (identity_exec p s d) r q now"
proof (cases p s d rule: identity_exec_cases)
  case (Ungrant i perm f)
  from assms(1,2) Ungrant(1) have "i \<noteq> r" by (auto simp: is_superadmin_role_def find_superadmin_role_id_def)
  obtain g where "g \<in> set (id_grants d)" "pp_principal g = r" "active_grant q g" "pp_granted_at g \<le> now"
    using assms(3) by (auto simp: granted_def)
  moreover have "\<not> (pp_principal g = i \<and> active_grant perm g)" using \<open>i \<noteq> r\<close> calculation(2) by auto
  ultimately show ?thesis
    unfolding granted_def Ungrant(2) by (force simp: set_sql_update)
qed (use assms(3) in \<open>auto simp: granted_def elim!: add_membership_Inr close_active_membership_Inr
      add_assignment_Inr close_active_assignment_Inr provision_user_Inr dest!: update_status_Inr(1)\<close>)

definition role_safe_inv :: "uuid \<Rightarrow> identity_db \<Rightarrow> bool" where
  "role_safe_inv r d \<longleftrightarrow> well_typed d \<and> find_superadmin_role_id d = Some r \<and>
    usable d ROLE r \<and> (\<exists>u. superadmin_of d r u)"

interpretation role_safe: kept_by_operations identity_exec same_roles "role_safe_inv r" for r
proof
  show "role_safe_inv r (identity_exec p s d)" if "role_safe_inv r d" and "same_roles s d" for d s p
    using that identity_exec_superadmin [of d s r p]
    unfolding role_safe_inv_def by (simp add: identity_exec_well_typed identity_exec_find_role)
qed

definition superadmin_inv :: "uuid \<Rightarrow> permission \<Rightarrow> datetime \<Rightarrow> identity_db \<Rightarrow> bool" where
  "superadmin_inv r q now d \<longleftrightarrow> role_safe_inv r d \<and> granted d r q now"

interpretation superadmin: kept_by_operations identity_exec same_roles "superadmin_inv r q now" for r q now
proof
  show "superadmin_inv r q now (identity_exec p s d)"
    if "superadmin_inv r q now d" and "same_roles s d" for d s p
    using that role_safe.kept [of r d s p] identity_exec_granted [of s d r q now p]
    unfolding superadmin_inv_def by (simp add: role_safe_inv_def)
qed

text \<open>A live holder of a usable role with a grant is allowed.\<close>

lemma superadmin_allowed:
  assumes "superadmin_inv r q now d"
  shows "\<exists>u. is_allowed now u q d"
proof -
  from assms obtain u where wt: "well_typed d" and r: "usable d ROLE r" and u: "superadmin_of d r u"
    and g: "granted d r q now" by (auto simp: superadmin_inv_def role_safe_inv_def)
  from u obtain a where a: "a \<in> set (id_user_roles d)" "active_assignment u r a"
    by (auto simp: superadmin_of_def assigned_def)
  from wt a have "ur_user a \<in> set (map us_principal_id (id_users d))"
    by (simp add: well_typed_def constraints_hold_def user_role_constraints_def list_all_iff)
  with a have "user_exists u d" by (auto simp: user_exists_def sql_exists_iff active_assignment_def)
  moreover from wt a have "of_type d USER u" by (auto simp: well_typed_def list_all_iff active_assignment_def)
  moreover from u have "live_id d u" by (simp add: superadmin_of_def)
  ultimately have "usable d USER u"
    using well_typed_keys(1) [OF wt]
    by (auto simp: usable_def of_type_def live_id_def sql_exists_iff distinct_map dest: inj_onD)
  with \<open>user_exists u d\<close> u r have "acts_as d u r"
    by (auto simp: superadmin_of_def may_act_def intro: acts_as.role)
  then have "r \<in> resolve_effective_principal_ids u d"
    by (auto simp: resolve_effective_principal_ids_def find_effective_principal_ids_def set_active_user
        set_active_roles in_group_iff elim!: acts_as.cases)
  with g have "is_allowed now u q d"
    by (auto simp: is_allowed_def has_permission_def granted_def sql_exists_iff)
  then show ?thesis ..
qed


lemma superadmin_runs:
  assumes "well_typed d" and "superadmin_safe d" and "interleaved d e"
  obtains r where "find_superadmin_role_id d = Some r" and "role_safe_inv r e"
    and "\<And>q now. granted d r q now \<Longrightarrow> superadmin_inv r q now e"
proof -
  obtain r where r: "find_superadmin_role_id d = Some r" "usable d ROLE r" "\<exists>u. superadmin_of d r u"
    using assms(2) superadmin_safe_iff [OF assms(1)] by blast
  note runs = interleaved_runs [OF assms(3)]
  have "role_safe_inv r e"
    using role_safe.runs_kept [OF runs] assms(1) r by (simp add: role_safe_inv_def)
  moreover have "superadmin_inv r q now e" if "granted d r q now" for q now
    using superadmin.runs_kept [OF runs] assms(1) r that by (simp add: superadmin_inv_def role_safe_inv_def)
  ultimately show thesis using r(1) that by blast
qed

lemma superadmin_kept:
  assumes "well_typed d" and "superadmin_safe d" and "interleaved d e"
    and "find_superadmin_role_id d = Some r" and "granted d r q now"
  shows "\<exists>u. is_allowed now u q e"
proof (rule superadmin_runs [OF assms(1-3)])
  fix r' assume "find_superadmin_role_id d = Some r'"
    and "\<And>q now. granted d r' q now \<Longrightarrow> superadmin_inv r' q now e"
  with assms(4,5) show ?thesis by (auto intro: superadmin_allowed)
qed

section \<open>Login\<close>

text \<open>Other transactions may add identities; they leave the one that logs in as it is.\<close>

definition quiet_for :: "authenticated_identity \<Rightarrow> (identity_db \<Rightarrow> identity_db) \<Rightarrow> bool" where
  "quiet_for a w \<longleftrightarrow> (\<forall>d l.
    find_by_oidc_subject (ai_issuer a) (ai_subject a) d = Inr (Some l) \<longrightarrow>
    find_by_oidc_subject (ai_issuer a) (ai_subject a) (w d) = Inr (Some l))"

definition identifies :: "authenticated_identity \<Rightarrow> user_identifier \<Rightarrow> bool" where
  "identifies a i \<longleftrightarrow> ui_type i = OIDC_SUBJECT \<and> ui_issuer i = ai_issuer a \<and>
    ui_normalized_value i = ai_subject a \<and> ui_valid_to i = None"

lemma join_one:
  assumes "distinct (map key xs)" and "x \<in> set xs"
  shows "[f y. y \<leftarrow> xs, key y = key x \<and> Q y] = (if Q x then [f x] else [])"
proof -
  have "[f y. y \<leftarrow> xs, key y = key x \<and> Q y] = map f (filter (\<lambda>y. key y = key x \<and> Q y) xs)"
    by (induction xs) auto
  also have "\<dots> = (if Q x then [f x] else [])"
    by (simp add: filter_key [OF assms(1)] lookup_in_set [OF assms])
  finally show ?thesis .
qed

definition joined_identity :: "identity_db \<Rightarrow> user_identifier \<Rightarrow> local_user_identity list" where
  "joined_identity d i = [\<lparr>li_principal_id = pr_id p, li_is_active = pr_is_active p, li_deleted_at = pr_deleted_at p\<rparr>.
    u \<leftarrow> id_users d, p \<leftarrow> id_principals d, us_principal_id u = ui_user i \<and> pr_id p = us_principal_id u]"

lemma find_by_oidc_subject_eq:
  "find_by_oidc_subject (ai_issuer a) (ai_subject a) d =
    map_error IdentityDbError (one_or_none (concat (map (joined_identity d) (filter (identifies a) (id_identifiers d)))))"
proof -
  have "[\<lparr>li_principal_id = pr_id p, li_is_active = pr_is_active p, li_deleted_at = pr_deleted_at p\<rparr>.
      i \<leftarrow> is, u \<leftarrow> id_users d, p \<leftarrow> id_principals d,
      us_principal_id u = ui_user i \<and> pr_id p = us_principal_id u \<and> ui_type i = OIDC_SUBJECT \<and>
      ui_issuer i = ai_issuer a \<and> ui_normalized_value i = ai_subject a \<and> ui_valid_to i = None] =
    concat (map (joined_identity d) (filter (identifies a) is))" for "is"
    by (induction "is") (auto simp: joined_identity_def identifies_def)
  then show ?thesis by (simp add: find_by_oidc_subject_def)
qed

lemma joined_identity_one:
  assumes "distinct (map us_principal_id (id_users d))" and "distinct (map pr_id (id_principals d))"
    and "ui_user i \<in> us_principal_id ` set (id_users d)"
    and "p \<in> set (id_principals d)" and "pr_id p = ui_user i"
  shows "joined_identity d i =
    [\<lparr>li_principal_id = pr_id p, li_is_active = pr_is_active p, li_deleted_at = pr_deleted_at p\<rparr>]"
proof -
  let ?li = "\<lambda>p. \<lparr>li_principal_id = pr_id p, li_is_active = pr_is_active p, li_deleted_at = pr_deleted_at p\<rparr>"
  have inner: "[?li q. q \<leftarrow> id_principals d, us_principal_id u = ui_user i \<and> pr_id q = us_principal_id u] =
      (if us_principal_id u = ui_user i then [?li p] else [])" for u
  proof (cases "us_principal_id u = ui_user i")
    case True
    then show ?thesis
      using join_one [OF assms(2,4), where f = ?li and Q = "\<lambda>_. True"] assms(5) by simp
  qed (induction "id_principals d"; simp)
  obtain u where u: "u \<in> set (id_users d)" "us_principal_id u = ui_user i" using assms(3) by auto
  have "joined_identity d i = concat (map (\<lambda>u. if us_principal_id u = ui_user i then [?li p] else []) (id_users d))"
    by (simp only: joined_identity_def inner)
  also have "\<dots> = [?li p]"
    using join_one [OF assms(1) u(1), where f = "\<lambda>_. ?li p" and Q = "\<lambda>_. True"] u(2) by simp
  finally show ?thesis .
qed


definition users_keyed :: "identity_db \<Rightarrow> bool" where
  "users_keyed d \<longleftrightarrow> satisfies principal_constraints (id_principals d) \<and>
    satisfies (user_constraints d) (id_users d) \<and> satisfies (identifier_constraints d) (id_identifiers d)"

lemma well_typed_users_keyed: "well_typed d \<Longrightarrow> users_keyed d"
  by (simp add: well_typed_def constraints_hold_def users_keyed_def)

text \<open>An active identity has one row, which joins with one user and one principal.\<close>

lemma identity_found:
  assumes "users_keyed d" and "i \<in> set (id_identifiers d)" and "identifies a i"
  obtains p where "p \<in> set (id_principals d)" and "pr_id p = ui_user i"
    and "find_by_oidc_subject (ai_issuer a) (ai_subject a) d =
      Inr (Some \<lparr>li_principal_id = pr_id p, li_is_active = pr_is_active p, li_deleted_at = pr_deleted_at p\<rparr>)"
proof -
  let ?key = "\<lambda>r. (ui_type r, ui_issuer r, ui_normalized_value r)"
  have keys: "distinct (map us_principal_id (id_users d))" "distinct (map pr_id (id_principals d))"
      "distinct (map ?key (filter (\<lambda>r. ui_valid_to r = None) (id_identifiers d)))"
    and user: "ui_user i \<in> us_principal_id ` set (id_users d)"
    and principal: "\<And>u. u \<in> set (id_users d) \<Longrightarrow> us_principal_id u \<in> pr_id ` set (id_principals d)"
    using assms(1,2) by (auto simp: users_keyed_def principal_constraints_def user_constraints_def
        identifier_constraints_def list_all_iff principal_ids_def)
  obtain u where "u \<in> set (id_users d)" "us_principal_id u = ui_user i" using user by auto
  then obtain p where p: "p \<in> set (id_principals d)" "pr_id p = ui_user i" using principal by fastforce
  have eq: "filter (identifies a) (id_identifiers d) =
      filter (\<lambda>r. ?key r = ?key i) (filter (\<lambda>r. ui_valid_to r = None) (id_identifiers d))"
    using assms(3) by (auto simp: identifies_def intro: filter_cong)
  have "i \<in> set (filter (\<lambda>r. ui_valid_to r = None) (id_identifiers d))"
    using assms(2,3) by (simp add: identifies_def)
  then have "filter (identifies a) (id_identifiers d) = [i]"
    using filter_key [OF keys(3), of "?key i" "\<lambda>_. True"] lookup_in_set [OF keys(3)] by (simp add: eq)
  with joined_identity_one [OF keys(1,2) user p] p that show ?thesis
    by (simp add: find_by_oidc_subject_eq)
qed

lemma identity_unknown:
  "\<not> (\<exists>i \<in> set (id_identifiers d). identifies a i) \<Longrightarrow>
    find_by_oidc_subject (ai_issuer a) (ai_subject a) d = Inr None"
proof -
  assume "\<not> (\<exists>i \<in> set (id_identifiers d). identifies a i)"
  then have "filter (identifies a) (id_identifiers d) = []" by (simp add: filter_empty_conv)
  then show ?thesis by (simp add: find_by_oidc_subject_eq)
qed

text \<open>The inserts fail only on the unique index of the active identities.\<close>

lemma provision_user_outcome:
  assumes "well_typed d" and "pid \<notin> set (principal_ids d)" and "iid \<notin> ui_id ` set (id_identifiers d)"
  shows "if \<exists>i \<in> set (id_identifiers d). identifies a i
    then provision_user pid iid now a d = Inl IdentityAlreadyProvisioned
    else \<exists>d'. provision_user pid iid now a d = Inr (pid, d')"
proof -
  let ?p = "\<lparr>pr_id = pid, pr_type = USER, pr_is_active = True, pr_created_at = now,
    pr_status_changed_at = now, pr_deleted_at = None\<rparr>"
  let ?u = "\<lparr>us_principal_id = pid, us_display_name = display_name_or_subject a,
    us_created_at = now, us_updated_at = now\<rparr>"
  let ?i = "\<lparr>ui_id = iid, ui_user = pid, ui_type = OIDC_SUBJECT, ui_value = ai_subject a,
    ui_normalized_value = ai_subject a, ui_issuer = ai_issuer a, ui_verified_at = None,
    ui_valid_from = Some now, ui_valid_to = None, ui_created_at = now, ui_updated_at = now\<rparr>"
  let ?d1 = "d\<lparr>id_principals := id_principals d @ [?p]\<rparr>"
  let ?d2 = "?d1\<lparr>id_users := id_users d @ [?u]\<rparr>"
  from assms(1) have old: "users_keyed d" by (rule well_typed_users_keyed)
  have fresh: "pid \<notin> us_principal_id ` set (id_users d)"
    using old assms(2) by (auto simp: users_keyed_def user_constraints_def list_all_iff)
  have s1: "insert_stmt principal_constraints [?p] (id_principals d) = Inr (id_principals d @ [?p])"
    using old assms(2)
    by (auto simp: insert_stmt_Inr users_keyed_def principal_constraints_def principal_ids_def)
  have s2: "insert_stmt (user_constraints ?d1) [?u] (id_users d) = Inr (id_users d @ [?u])"
    using old fresh by (auto simp: insert_stmt_Inr users_keyed_def user_constraints_def principal_ids_def list_all_iff)
  have s3: "if \<exists>i \<in> set (id_identifiers d). identifies a i
      then insert_stmt (identifier_constraints ?d2) [?i] (id_identifiers d) =
        Inl (IntegrityError ''uq_user_identifiers_active_identity'')
      else insert_stmt (identifier_constraints ?d2) [?i] (id_identifiers d) = Inr (id_identifiers d @ [?i])"
  proof (cases "\<exists>i \<in> set (id_identifiers d). identifies a i")
    case True
    then have "(ui_type ?i, ui_issuer ?i, ui_normalized_value ?i) \<in>
        (\<lambda>r. (ui_type r, ui_issuer r, ui_normalized_value r)) ` {r \<in> set (id_identifiers d). ui_valid_to r = None}"
      by (force simp: identifies_def)
    then show ?thesis
      using True old by (simp add: insert_stmt_def sql_write_def violated_def users_keyed_def
          identifier_constraints_def check_def unique_index_def)
  next
    case False
    then have "(ui_type ?i, ui_issuer ?i, ui_normalized_value ?i) \<notin>
        (\<lambda>r. (ui_type r, ui_issuer r, ui_normalized_value r)) ` {r \<in> set (id_identifiers d). ui_valid_to r = None}"
      by (auto simp: identifies_def)
    then show ?thesis
      using False old assms(3)
      by (auto simp: insert_stmt_Inr users_keyed_def identifier_constraints_def list_all_iff)
  qed
  show ?thesis
    using s3 by (auto simp: provision_user_def Let_def s1 s2 on_constraint_def split: if_splits)
qed

lemma provisioned_found:
  assumes "provision_user pid iid now a d = Inr (u, d')"
  shows "u = pid \<and> find_by_oidc_subject (ai_issuer a) (ai_subject a) d' =
    Inr (Some \<lparr>li_principal_id = pid, li_is_active = True, li_deleted_at = None\<rparr>)"
  using assms
proof (rule provision_user_Inr)
  fix p us i
  assume u: "u = pid" and d': "d' = d\<lparr>id_principals := id_principals d @ [p], id_users := id_users d @ [us],
      id_identifiers := id_identifiers d @ [i]\<rparr>"
    and p: "p = \<lparr>pr_id = pid, pr_type = USER, pr_is_active = True, pr_created_at = now,
      pr_status_changed_at = now, pr_deleted_at = None\<rparr>"
    and i: "ui_user i = pid" "ui_type i = OIDC_SUBJECT" "ui_issuer i = ai_issuer a"
      "ui_normalized_value i = ai_subject a" "ui_valid_to i = None"
    and "satisfies principal_constraints (id_principals d')"
      "satisfies (user_constraints d') (id_users d')"
      "satisfies (identifier_constraints d') (id_identifiers d')"
  then have keyed: "users_keyed d'" by (simp add: users_keyed_def)
  then have "distinct (map pr_id (id_principals d'))" by (simp add: users_keyed_def principal_constraints_def)
  then have "lookup pr_id pid (id_principals d') = Some p" by (rule lookup_unique) (simp_all add: d' p)
  moreover have "i \<in> set (id_identifiers d')" "identifies a i" by (simp_all add: d' i identifies_def)
  with keyed obtain q where "q \<in> set (id_principals d')" "pr_id q = pid"
    "find_by_oidc_subject (ai_issuer a) (ai_subject a) d' =
      Inr (Some \<lparr>li_principal_id = pr_id q, li_is_active = pr_is_active q, li_deleted_at = pr_deleted_at q\<rparr>)"
    using i(1) by (metis identity_found)
  moreover from calculation \<open>distinct (map pr_id (id_principals d'))\<close> have "q = p"
    by (metis lookup_unique option.inject)
  ultimately show ?thesis using u p by simp
qed


definition not_blocked :: "authenticated_identity \<Rightarrow> identity_db \<Rightarrow> bool" where
  "not_blocked a d \<longleftrightarrow> (\<forall>l. find_by_oidc_subject (ai_issuer a) (ai_subject a) d = Inr (Some l) \<longrightarrow>
    li_is_active l \<and> li_deleted_at l = None)"

lemma found_usable:
  assumes "find_by_oidc_subject (ai_issuer a) (ai_subject a) d = Inr (Some l)" and "not_blocked a d"
  shows "usable_id l = Inr (li_principal_id l)"
  using assms by (simp add: not_blocked_def usable_id_def ensure_usable_def)

text \<open>What \<open>find_by_oidc_subject\<close> can answer on a well-typed database.\<close>

lemma identity_lookup_cases:
  assumes "well_typed d"
  obtains (Known) l where "find_by_oidc_subject (ai_issuer a) (ai_subject a) d = Inr (Some l)"
    and "\<exists>i \<in> set (id_identifiers d). identifies a i"
  | (Unknown) "find_by_oidc_subject (ai_issuer a) (ai_subject a) d = Inr None"
    and "\<not> (\<exists>i \<in> set (id_identifiers d). identifies a i)"
proof (cases "\<exists>i \<in> set (id_identifiers d). identifies a i")
  case True
  then obtain i where "i \<in> set (id_identifiers d)" "identifies a i" by blast
  with well_typed_users_keyed [OF assms] True Known show ?thesis by (metis identity_found)
qed (use Unknown identity_unknown in blast)

text \<open>
  \<open>settled a u d\<close>: the identity belongs to the usable user \<open>u\<close>, which a login returns without
  a write.
\<close>

definition settled :: "authenticated_identity \<Rightarrow> uuid \<Rightarrow> identity_db \<Rightarrow> bool" where
  "settled a u d \<longleftrightarrow> (\<exists>l. find_by_oidc_subject (ai_issuer a) (ai_subject a) d = Inr (Some l) \<and>
    usable_id l = Inr u)"

lemma settled_login: "settled a u d \<Longrightarrow> resolve jit pid iid now id id id a d = Inr (u, d)"
  by (auto simp: settled_def resolve_def)

lemma settled_quiet: "settled a u d \<Longrightarrow> quiet_for a w \<Longrightarrow> settled a u (w d)"
  by (auto simp: settled_def quiet_for_def)

lemma settled_provisioned: "provision_user pid iid now a d = Inr (u, d') \<Longrightarrow> settled a u d'"
  by (auto simp: settled_def usable_id_def ensure_usable_def dest!: provisioned_found)

lemma provision_settles:
  assumes "well_typed d" and "well_typed (w2 d)" and "well_typed (w3 (w2 d))"
    and "not_blocked a d" and "not_blocked a (w2 d)" and "quiet_for a w2" and "quiet_for a w3"
    and "pid \<notin> set (principal_ids (w2 d))" and "iid \<notin> ui_id ` set (id_identifiers (w2 d))"
  shows "\<exists>u d'. provision pid iid now w2 w3 a d = Inr (u, d') \<and> settled a u d'"
  using assms(1)
proof (cases rule: identity_lookup_cases [where a = a])
  case (Known l)
  then have l: "usable_id l = Inr (li_principal_id l)" using found_usable assms(4) by blast
  with Known(1) have "settled a (li_principal_id l) d" by (simp add: settled_def)
  with settled_quiet [OF _ assms(6)] Known(1) l show ?thesis by (simp add: provision_def)
next
  case Unknown
  show ?thesis
    using assms(2)
  proof (cases rule: identity_lookup_cases [where a = a])
    case (Known l)
    then have l: "usable_id l = Inr (li_principal_id l)" using found_usable assms(5) by blast
    from Known(1) assms(7) have "find_by_oidc_subject (ai_issuer a) (ai_subject a) (w3 (w2 d)) = Inr (Some l)"
      by (simp add: quiet_for_def)
    with Unknown(1) l provision_user_outcome [OF assms(2,8,9), of a now] Known(2) show ?thesis
      by (simp add: provision_def resolve_after_conflict_def settled_def)
  next
    case new: Unknown
    then obtain d' where "provision_user pid iid now a (w2 d) = Inr (pid, d')"
      using provision_user_outcome [OF assms(2,8,9), of a now] by auto
    with Unknown(1) settled_provisioned show ?thesis by (auto simp: provision_def)
  qed
qed

section \<open>Acyclic groups\<close>

lemma identity_exec_acyclic:
  assumes "groups_acyclic d"
  shows "groups_acyclic (identity_exec p d d)"
proof -
  have same: "groups_acyclic (identity_exec p d d)" if "id_memberships (identity_exec p d d) = id_memberships d"
    using assms that by (simp add: groups_acyclic_def group_edges_def)
  show ?thesis
  proof (cases p d d rule: identity_exec_cases)
    case (Member fresh g i t actor now clock added_at)
    have "add_group_member fresh clock (\<lambda>_. d) g i actor added_at d =
        add_group_member fresh clock id g i actor added_at d"
      by (simp add: add_group_member_def)
    with Member(2) add_group_member_acyclic [OF assms] show ?thesis by simp
  next
    case Unmember
    then show ?thesis
      using assms by (auto simp: groups_acyclic_def intro: acyclic_subset dest!: close_membership_edges)
  qed (rule same; auto elim!: add_assignment_Inr close_active_assignment_Inr provision_user_Inr
      dest!: update_status_Inr(1))+
qed

lemma add_group_member_cycle:
  "add_group_member fresh clock others g i actor added_at d = Inl (GroupCycleDetected g i) \<Longrightarrow>
    would_create_cycle g i d"
  by (auto simp: add_group_member_def get_principal_def find_by_id_def ensure_active_def ensure_group_def
      get_allowed_member_type_def add_membership_def on_constraint_def result_iffs
      split: option.splits if_splits)

interpretation acyclic_groups: kept_by_operations identity_exec "(=)" groups_acyclic
  by unfold_locales (simp add: identity_exec_acyclic)

end
