(* ===== verification/Pipeline.thy ===== *)
theory Pipeline
  imports IngestionWorker
begin

text \<open>
  The ingestion pipeline (\<open>modules/ingestion/services/ingestion_pipeline.py\<close>), which composes
  the services of documents, versions, uploads and ingestion: a document is created with one
  version and one artifact, the run is configured, and the item is queued. Each step is a
  transaction of its own and stays committed when a later step raises. The theorem of this
  theory follows a document from the request to its chunks.
\<close>

section \<open>The service\<close>

definition DEFAULT_VERSION_LABEL :: pystr where
  "DEFAULT_VERSION_LABEL = lit ''v1''"

definition DEFAULT_ARTIFACT_KEY :: pystr where
  "DEFAULT_ARTIFACT_KEY = lit ''source''"

record ingest_command =
  ig_title :: pystr
  ig_source_name :: pystr
  ig_content_type :: pystr
  ig_content :: bytes
  ig_language_code :: pystr
  ig_canonical_key :: "pystr option"
  ig_version_label :: pystr
  ig_artifact_key :: pystr
  ig_chunking :: "json option"

record queued_ingestion =
  qi_document_id :: uuid
  qi_version_id :: uuid
  qi_artifact_id :: uuid
  qi_canonical_key :: pystr
  qi_run_id :: uuid
  qi_item_id :: uuid
  qi_status :: ingestion_status

datatype ingest_error =
    IngestDocumentError document_error
  | IngestUploadError upload_error
  | IngestConfigError value_error
  | IngestDbError db_error

text \<open>Fresh identifiers, clock readings, and whether the commit of the upload succeeds.\<close>

record ingest_env =
  ie_key_id :: uuid
  ie_document_id :: uuid
  ie_version_id :: uuid
  ie_artifact_id :: uuid
  ie_run_id :: uuid
  ie_item_id :: uuid
  ie_job_id :: uuid
  ie_document_now :: datetime
  ie_version_now :: datetime
  ie_upload_now :: datetime
  ie_run_db :: datetime
  ie_item_db :: datetime
  ie_upload_commits :: bool

definition canonical_key_of :: "ingest_env \<Rightarrow> ingest_command \<Rightarrow> pystr" where
  "canonical_key_of env cmd = (case ig_canonical_key cmd of
      Some k \<Rightarrow> if k = [] then lit ''ingestion-'' @ uuid_str (ie_key_id env) else k
    | None \<Rightarrow> lit ''ingestion-'' @ uuid_str (ie_key_id env))"

definition raw_chunking_configuration :: "ingest_command \<Rightarrow> json" where
  "raw_chunking_configuration cmd = (case ig_chunking cmd of
      Some j \<Rightarrow> if j = JObj [] then config_as_mapping default_chunking_config else j
    | None \<Rightarrow> config_as_mapping default_chunking_config)"

definition upload_command_of :: "uuid \<Rightarrow> uuid \<Rightarrow> ingest_command \<Rightarrow> upload_command" where
  "upload_command_of doc version cmd = \<lparr>up_document_id = doc, up_version_id = version,
    up_artifact_key = ig_artifact_key cmd, up_language_code = ig_language_code cmd,
    up_source_name = ig_source_name cmd, up_source_uri = None, up_content_type = ig_content_type cmd,
    up_content = ig_content cmd, up_source_updated_at = None\<rparr>"

definition run_configuration_of :: "ingest_command \<Rightarrow> chunking_config \<Rightarrow> json" where
  "run_configuration_of cmd ch = JObj
    [(lit ''language_code'', JStr (ig_language_code cmd)), (lit ''chunking'', config_as_mapping ch)]"

text \<open>The foreign key of an item refers to the artifacts of the knowledge tables.\<close>

definition with_artifacts :: "knowledge_db \<Rightarrow> ingestion_db \<Rightarrow> ingestion_db" where
  "with_artifacts k d = d\<lparr>idb_artifact_ids := map ar_id (kdb_artifacts k)\<rparr>"

text \<open>The run and the item are two transactions; the first one stays when the second raises.\<close>

definition queue_item ::
  "(json \<Rightarrow> string) \<Rightarrow> ingest_env \<Rightarrow> ingest_command \<Rightarrow> uuid \<Rightarrow> chunking_config \<Rightarrow> uuid \<Rightarrow> ingestion_db \<Rightarrow>
    (ingest_error + uuid \<times> uuid) \<times> ingestion_db"
where
  "queue_item configuration_hash env cmd actor ch artifact d =
    (let configuration = run_configuration_of cmd ch in
     case create_run_tx (ie_run_id env) configuration (configuration_hash configuration) (Some actor)
       (ie_run_db env) d of
       Inl e \<Rightarrow> (Inl (IngestDbError e), d)
     | Inr (rid, d1) \<Rightarrow>
         (case add_item_tx (ie_item_id env) (ie_job_id env) rid artifact (ie_item_db env) d1 of
            Inl e \<Rightarrow> (Inl (IngestDbError e), d1)
          | Inr (i, d2) \<Rightarrow> (Inr (rid, i), d2)))"

definition ingest ::
  "'s s3_client \<Rightarrow> (bytes \<Rightarrow> string) \<Rightarrow> (json \<Rightarrow> string) \<Rightarrow> upload_config \<Rightarrow> ingest_env \<Rightarrow> ingest_command \<Rightarrow>
    uuid \<Rightarrow> knowledge_db \<Rightarrow> 's \<Rightarrow> ingestion_db \<Rightarrow>
    (ingest_error + queued_ingestion) \<times> knowledge_db \<times> 's \<times> ingestion_db"
where
  "ingest c sha configuration_hash cfg env cmd actor k s d =
    (let key = canonical_key_of env cmd in
     case create_document (ie_document_id env) (ie_document_now env) key (ig_title cmd) actor None None
       None (Some (ig_language_code cmd)) (JObj []) k of
       Inl e \<Rightarrow> (Inl (IngestDocumentError e), k, s, d)
     | Inr (doc, k1) \<Rightarrow>
     (case create_version (ie_version_id env) (ie_version_now env) (kd_id doc) (ig_version_label cmd)
       (Some actor) (JObj []) k1 of
       Inl e \<Rightarrow> (Inl (IngestDocumentError e), k1, s, d)
     | Inr (version, k2) \<Rightarrow>
     (case upload c sha cfg (ie_artifact_id env) (ie_upload_now env) (ie_upload_commits env)
       (upload_command_of (kd_id doc) (vr_id version) cmd) actor k2 s of
       (Inl e, k3, s1) \<Rightarrow> (Inl (IngestUploadError e), k3, s1, d)
     | (Inr uploaded, k3, s1) \<Rightarrow>
     (case config_from_run_configuration (JObj [(lit ''chunking'', raw_chunking_configuration cmd)]) of
       Inl e \<Rightarrow> (Inl (IngestConfigError e), k3, s1, d)
     | Inr ch \<Rightarrow>
     (case queue_item configuration_hash env cmd actor ch (ua_artifact_id uploaded) (with_artifacts k3 d) of
       (Inl e, d1) \<Rightarrow> (Inl e, k3, s1, d1)
     | (Inr (rid, i), d1) \<Rightarrow>
         (Inr \<lparr>qi_document_id = kd_id doc, qi_version_id = vr_id version,
            qi_artifact_id = ua_artifact_id uploaded, qi_canonical_key = key, qi_run_id = rid,
            qi_item_id = i, qi_status = PENDING\<rparr>, k3, s1, d1))))))"


section \<open>Facts\<close>

lemma ingest_cases:
  assumes "ingest c sha ch cfg env cmd actor k s d = (Inr q, k3, s1, d2)"
  obtains doc k1 version k2 uploaded chunking where
    "create_document (ie_document_id env) (ie_document_now env) (canonical_key_of env cmd) (ig_title cmd)
      actor None None None (Some (ig_language_code cmd)) (JObj []) k = Inr (doc, k1)"
    "create_version (ie_version_id env) (ie_version_now env) (kd_id doc) (ig_version_label cmd)
      (Some actor) (JObj []) k1 = Inr (version, k2)"
    "upload c sha cfg (ie_artifact_id env) (ie_upload_now env) (ie_upload_commits env)
      (upload_command_of (kd_id doc) (vr_id version) cmd) actor k2 s = (Inr uploaded, k3, s1)"
    "config_from_run_configuration (JObj [(lit ''chunking'', raw_chunking_configuration cmd)]) = Inr chunking"
    "queue_item ch env cmd actor chunking (ua_artifact_id uploaded) (with_artifacts k3 d) =
      (Inr (qi_run_id q, qi_item_id q), d2)"
    "qi_artifact_id q = ua_artifact_id uploaded"
  using assms by (auto simp: ingest_def Let_def split: sum.splits prod.splits intro!: that)

text \<open>The item that is queued is pending, refers to the run, and the run carries the configuration.\<close>

lemma run_created:
  assumes "create_run_tx rid configuration h by db d = Inr (r, d')" and "ingestion_ok d"
  shows "r = rid \<and> ingestion_ok d' \<and> (\<exists>row. find_run rid d' = Inr (Some row) \<and>
    run_configuration row = configuration)"
proof -
  let ?row = "\<lparr>run_id = rid, run_configuration = configuration, run_configuration_hash = h,
    run_created_by = by, run_created_at = db\<rparr>"
  from assms(1) have "add_run rid configuration h by db d = Inr d'" and "r = rid"
    by (auto simp: create_run_tx_def result_iffs)
  from add_run_ok [OF this(1) assms(2)] this have ok: "ingestion_ok d'" and "idb_runs d' = idb_runs d @ [?row]"
    by (auto simp: add_run_def result_iffs stmt_iffs)
  then have keys: "distinct (map run_id (idb_runs d'))" and row: "?row \<in> set (idb_runs d')"
    by (simp_all add: ingestion_ok_def run_constraints_def)
  have "lookup run_id rid (idb_runs d') = Some ?row" by (rule lookup_unique [OF keys row]) simp
  with ok \<open>r = rid\<close> show ?thesis by (simp add: find_run_def one_or_none_pk [OF keys])
qed

lemma item_added:
  assumes "add_item_tx i job rid a db d = Inr (i', d')" and "ingestion_ok d"
  shows "i' = i \<and> ingestion_ok d' \<and> idb_runs d' = idb_runs d \<and>
    lookup it_id i (idb_items d') = Some (new_item i rid a db)"
proof -
  obtain d1 where d1: "add_item i rid a db d = Inr d1"
    and d': "on_outbox (enqueue job PROCESS_INGESTION_ITEM i (item_payload i) db) d1 = Inr d'" "i' = i"
    using assms(1) by (auto simp: add_item_tx_def result_iffs)
  from add_item_ok [OF d1 assms(2)] have ok1: "ingestion_ok d1" .
  have new: "idb_items d1 = idb_items d @ [new_item i rid a db]" "idb_runs d1 = idb_runs d"
    using d1 by (auto simp: add_item_def result_iffs stmt_iffs)
  have "lookup it_id i (idb_items d1) = Some (new_item i rid a db)"
    by (rule lookup_unique [OF ingestion_ok_items(2) [OF ok1]]) (simp_all add: new new_item_def)
  moreover have "idb_items d' = idb_items d1" "idb_runs d' = idb_runs d1"
    using d'(1) by (auto simp: on_outbox_def result_iffs)
  ultimately show ?thesis using new d' enqueue_db_ok [OF d'(1) ok1] by simp
qed

lemma item_queued:
  assumes "queue_item h env cmd actor ch a d = (Inr (rid, i), d')" and "ingestion_ok d"
  shows "ingestion_ok d' \<and> lookup it_id i (idb_items d') = Some (new_item i rid a (ie_item_db env)) \<and>
    (\<exists>row. find_run rid d' = Inr (Some row) \<and> run_configuration row = run_configuration_of cmd ch)"
proof -
  obtain d1 where run: "create_run_tx (ie_run_id env) (run_configuration_of cmd ch) (h (run_configuration_of cmd ch))
      (Some actor) (ie_run_db env) d = Inr (rid, d1)"
    and item: "add_item_tx (ie_item_id env) (ie_job_id env) rid a (ie_item_db env) d1 = Inr (i, d')"
    using assms(1) by (auto simp: queue_item_def Let_def split: sum.splits)
  from run_created [OF run assms(2)] obtain row where "ingestion_ok d1"
    and row: "rid = ie_run_id env" "find_run rid d1 = Inr (Some row)" "run_configuration row = run_configuration_of cmd ch"
    by auto
  from item_added [OF item this(1)] row show ?thesis by (simp add: find_run_def)
qed

lemma run_configuration_reads:
  assumes "config_post_init ch = Inr ch"
  shows "config_from_run_configuration (run_configuration_of cmd ch) = Inr ch"
proof -
  have "get (run_configuration_of cmd ch) ''chunking'' = get (JObj [(lit ''chunking'', config_as_mapping ch)]) ''chunking''"
    by (simp add: run_configuration_of_def lit_def)
  then have "config_from_run_configuration (run_configuration_of cmd ch) =
      config_from_run_configuration (JObj [(lit ''chunking'', config_as_mapping ch)])"
    by (simp add: config_from_run_configuration_def)
  with written_config_reads [OF assms] show ?thesis by simp
qed

text \<open>New artifacts do not disturb the ingestion tables.\<close>

lemma with_artifacts_ok:
  assumes "ingestion_ok (with_artifacts k d)" and "set (map ar_id (kdb_artifacts k)) \<subseteq> set (map ar_id (kdb_artifacts k'))"
  shows "ingestion_ok (with_artifacts k' d)"
  using assms by (auto simp: ingestion_ok_def with_artifacts_def satisfies_items chunk_cs_def list_all_iff)


text \<open>Before the upload the knowledge tables stay consistent; it then stores what the command holds.\<close>

lemma ingest_stores:
  assumes "s3_laws c" and "knowledge_ok k" and "ie_artifact_id env < 2 ^ 128"
    and "create_document i now key title actor None None None lang (JObj []) k = Inr (doc, k1)"
    and "create_version v vnow (kd_id doc) label (Some actor) (JObj []) k1 = Inr (version, k2)"
    and "upload c sha cfg a unow commits ucmd actor k2 s = (Inr u, k3, s1)"
  shows "knowledge_ok k2 \<and> ua_artifact_id u = a \<and>
    set (map ar_id (kdb_artifacts k)) \<subseteq> set (map ar_id (kdb_artifacts k3))"
proof -
  have "k1 = knowledge_exec (DocumentOp (CreateDocument i now key title actor None None None lang (JObj []))) k"
    using assms(4) by simp
  then have ok1: "knowledge_ok k1" by (simp only: knowledge_exec_ok [OF assms(2)])
  have "k2 = knowledge_exec (VersionOp (CreateVersion v vnow (kd_id doc) label (Some actor) (JObj []))) k1"
    using assms(5) by simp
  then have "knowledge_ok k2" by (simp only: knowledge_exec_ok [OF ok1])
  moreover have "kdb_artifacts k2 = kdb_artifacts k"
    using assms(4,5) by (auto simp: create_document_def create_document_row_def create_version_def
        create_version_row_def Let_def result_iffs)
  ultimately show ?thesis
    using assms(6) by (auto simp: upload_def Let_def add_artifact_Inr split: sum.splits prod.splits if_splits option.splits)
qed


section \<open>From the request to the chunks\<close>

text \<open>What the loader hands to the extractors for the artifact of a request.\<close>

definition loaded_request :: "(bytes \<Rightarrow> string) \<Rightarrow> ingest_env \<Rightarrow> ingest_command \<Rightarrow> loaded_artifact" where
  "loaded_request sha env cmd = \<lparr>la_artifact_id = ie_artifact_id env, la_content = ig_content cmd,
    la_mime_type = ig_content_type cmd, la_expected_file_hash = sha (ig_content cmd),
    la_observed_file_hash = sha (ig_content cmd), la_file_size_bytes = int (length (ig_content cmd)),
    la_language_code = Some (ig_language_code cmd)\<rparr>"

text \<open>
  A delivery that is not disturbed: others leave the item alone, the processor finishes before
  its lease expires, the clock does not go back and the chunk identifiers are fresh.
\<close>

definition undisturbed :: "lifecycle \<Rightarrow> delivery \<Rightarrow> uuid \<Rightarrow> ingestion_db \<Rightarrow> bool" where
  "undisturbed lc dl i d \<longleftrightarrow> quiet i (dl_before_process dl) \<and> quiet i (dl_before_complete dl) \<and>
    dl_before_settle dl = id \<and> dl_race dl = ProcessorDone False \<and>
    dl_complete_db dl < dl_claim_now dl + lc_lease_duration lc \<and> dl_claim_now dl \<le> dl_complete_now dl \<and>
    (\<forall>n. length (dl_chunk_ids dl n) = n \<and> distinct (dl_chunk_ids dl n)) \<and>
    (\<forall>n d'. idb_chunks d' = idb_chunks d \<longrightarrow> set (dl_chunk_ids dl n) \<inter>
      ck_id ` set (idb_chunks (dl_before_complete dl (dl_before_process dl d'))) = {})"

text \<open>
  C20. A request that is accepted is ingested. When \<open>ingest\<close> returns, then after any later
  uploads and knowledge transactions that leave the artifact alone, and any ingestion
  transactions that leave the item alone, an undisturbed delivery of the queued item completes
  it: the item records the hash of the bytes of the request, and its chunks are well formed
  and hold, in order, exactly the words of the text that is extracted from those bytes, cut
  as the request's chunking configuration (or the default one) says.
\<close>

theorem ingested_request_is_chunked:
  assumes laws: "s3_laws c" and ok: "knowledge_ok k" "ingestion_ok (with_artifacts k d)"
    and ingest: "ingest c sha h cfg env cmd actor k s d = (Inr q, k1, s1, d1)"
    and fresh: "ie_artifact_id env < 2 ^ 128"
    and later: "list_all (leaves_artifact (ie_artifact_id env)) evs" "fold (upload_exec c sha) evs (k1, s1) = (k2, s2)"
    and others: "quiet (qi_item_id q) f"
    and chunking: "config_from_run_configuration (JObj [(lit ''chunking'', raw_chunking_configuration cmd)]) = Inr ch"
      "registered_tokenizers (cc_reference_tokenizer ch, cc_reference_tokenizer_version ch) \<noteq> None"
    and extracted: "extract_document p (loaded_request sha env cmd) = Inr res"
      "list_all (\<lambda>blk. utf8_encodable (blk_text blk)) (doc_blocks (er_document res))"
      "list_all block_page_positive (doc_blocks (er_document res))"
    and worker: "0 < lc_max_attempts lc" "0 < lc_lease_duration lc" "undisturbed lc dl (qi_item_id q) (f d1)"
  shows "\<exists>d' r. handle lc (task_env c sha tsha p) dl (qi_item_id q) k2 s2 (f d1) = (None, d') \<and>
    lookup it_id (qi_item_id q) (idb_items d') = Some r \<and> it_status r = COMPLETED \<and>
    it_observed_file_hash r = Some (sha (ig_content cmd)) \<and>
    drafts_wf (whitespace_builder tsha (Some (ig_language_code cmd))) (list_for_item (qi_item_id q) d') \<and>
    words (list_for_item (qi_item_id q) d') = block_words (body_blocks ch (er_document res))"
  using ingest
proof (cases rule: ingest_cases)
  case (1 doc ka version kb u chunking')
  let ?i = "qi_item_id q" and ?r = "new_item (qi_item_id q) (qi_run_id q) (ie_artifact_id env) (ie_item_db env)"
  have ch: "chunking' = ch" using 1(4) chunking(1) by simp
  note stored = ingest_stores [OF laws ok(1) fresh 1(1,2,3)]
  then have kok: "knowledge_ok kb" and a: "ua_artifact_id u = ie_artifact_id env"
    and dok: "ingestion_ok (with_artifacts k1 d)" using with_artifacts_ok [OF ok(2)] by auto
  from item_queued [OF 1(5) dok] obtain rn where d1: "ingestion_ok d1" "lookup it_id ?i (idb_items d1) = Some ?r"
    and rn: "find_run (qi_run_id q) d1 = Inr (Some rn)" "run_configuration rn = run_configuration_of cmd ch"
    by (auto simp: a ch)
  note q = quietD [OF others d1(1)]
  have load: "load_artifact c sha (it_artifact_id ?r) k2 s2 = Inr (loaded_request sha env cmd)"
    using uploaded_artifact_loads [OF laws kok fresh 1(3) later]
    by (simp add: loaded_request_def upload_command_of_def new_item_def)
  have run: "find_run (it_run_id ?r) (f d1) = Inr (Some rn)"
    using rn(1) q(3) by (simp add: find_run_def new_item_def)
  have config: "config_from_run_configuration (run_configuration rn) = Inr ch"
    using run_configuration_reads [OF read_config_valid [OF chunking(1)]] rn(2) by simp
  have row: "lookup it_id ?i (idb_items (f d1)) = Some ?r" using q(2) d1(2) by simp
  note und = worker(3) [unfolded undisturbed_def]
  show ?thesis
    using worker_completes_item [OF q(1) row _ _ worker(2) load extracted(1,2) run config chunking(2),
        of dl tsha] und extracted(3) worker(1)
    by (simp add: new_item_def loaded_request_def)
qed


text \<open>A request on empty tables, with one principal.\<close>

definition empty_knowledge :: knowledge_db where
  "empty_knowledge = \<lparr>kdb_documents = [], kdb_acl = [], kdb_versions = [], kdb_artifacts = [],
    kdb_principal_ids = [5]\<rparr>"

definition empty_ingestion :: ingestion_db where
  "empty_ingestion = \<lparr>idb_runs = [], idb_items = [], idb_chunks = [], idb_outbox = [],
    idb_artifact_ids = [], idb_principal_ids = [5]\<rparr>"

definition sample_ingest_env :: ingest_env where
  "sample_ingest_env = \<lparr>ie_key_id = 9, ie_document_id = 2, ie_version_id = 3, ie_artifact_id = 30, ie_run_id = 50,
    ie_item_id = 4, ie_job_id = 8, ie_document_now = 1, ie_version_now = 2, ie_upload_now = 3, ie_run_db = 4,
    ie_item_db = 5, ie_upload_commits = True\<rparr>"

definition sample_request :: ingest_command where
  "sample_request = \<lparr>ig_title = [116], ig_source_name = [110], ig_content_type = [116], ig_content = [7],
    ig_language_code = [101, 110], ig_canonical_key = None, ig_version_label = DEFAULT_VERSION_LABEL,
    ig_artifact_key = [98], ig_chunking = None\<rparr>"

definition sample_new_document :: document where
  "sample_new_document = \<lparr>kd_id = 2, kd_created_by = Some 5,
    kd_canonical_key = canonical_key_of sample_ingest_env sample_request, kd_title = [116], kd_description = None,
    kd_document_type = None, kd_department = None, kd_default_language_code = Some [101, 110],
    kd_metadata = JObj [], kd_created_at = 1, kd_updated_at = 1, kd_deleted_at = None\<rparr>"

definition sample_new_version :: version_row where
  "sample_new_version = \<lparr>vr_id = 3, vr_document_id = 2, vr_label = DEFAULT_VERSION_LABEL,
    vr_effective_from = None, vr_effective_to = None, vr_published_at = None, vr_status = DRAFT,
    vr_created_by = Some 5, vr_metadata = JObj [], vr_created_at = 2, vr_updated_at = 2\<rparr>"

lemma empty_ok: "knowledge_ok empty_knowledge" "ingestion_ok (with_artifacts empty_knowledge empty_ingestion)"
  by (simp_all add: knowledge_ok_def documents_ok_def versions_ok_def document_constraints_def acl_cs_def
      acl_constraints_def version_cs_def version_constraints_def artifact_cs_def artifact_constraints_def
      ingestion_ok_def satisfies_items chunk_cs_def chunk_constraints_def run_constraints_def outbox_ok_def
      with_artifacts_def empty_knowledge_def empty_ingestion_def)

lemma sample_document_created:
  "create_document 2 1 (canonical_key_of sample_ingest_env sample_request) [116] 5 None None None
    (Some [101, 110]) (JObj []) empty_knowledge =
    Inr (sample_new_document, empty_knowledge\<lparr>kdb_documents := [sample_new_document]\<rparr>)"
  by (simp add: Let_def create_document_def create_document_row_def canonical_key_exists_def sql_exists_def insert_stmt_def
      sql_write_def violated_def document_constraints_def unique_index_def empty_knowledge_def sample_new_document_def)

lemma sample_version_created:
  "create_version 3 2 2 DEFAULT_VERSION_LABEL (Some 5) (JObj []) (empty_knowledge\<lparr>kdb_documents := [sample_new_document]\<rparr>) =
    Inr (sample_new_version, empty_knowledge\<lparr>kdb_documents := [sample_new_document], kdb_versions := [sample_new_version]\<rparr>)"
  unfolding create_version_def create_version_row_def insert_stmt_def
  by (subst sql_write_ok)
    (simp_all add: require_active_version_document_def find_active_document_def sql_select_def
      satisfies_version_cs empty_knowledge_def sample_new_document_def sample_new_version_def sample_version_defs)

lemma sample_artifact_uploaded:
  "\<exists>u k1 s1. upload sample_client (\<lambda>_. ''h'') sample_upload_config 30 3 True (upload_command_of 2 3 sample_request) 5
      (empty_knowledge\<lparr>kdb_documents := [sample_new_document], kdb_versions := [sample_new_version]\<rparr>) [] =
    (Inr u, k1, s1) \<and> ua_artifact_id u = 30 \<and> map ar_id (kdb_artifacts k1) = [30]"
proof -
  let ?k = "empty_knowledge\<lparr>kdb_documents := [sample_new_document], kdb_versions := [sample_new_version]\<rparr>"
  have "upload_checks sample_upload_config 30 (upload_command_of 2 3 sample_request) ?k = Inr ()"
    unfolding upload_checks_def
    by (simp add: validate_target_def validate_file_def find_version_def version_of_def find_document_def sql_select_def
        artifact_key_exists_def storage_key_exists_def sql_exists_def strip_def lstrip_def rstrip_def py_isspace_def
        Let_def upload_command_of_def sample_request_def sample_upload_config_def empty_knowledge_def
        sample_new_document_def sample_new_version_def)
  moreover have "add_artifact (upload_row (\<lambda>_. ''h'') sample_upload_config 30 3 (upload_command_of 2 3 sample_request) 5) ?k =
      Inr (new_artifact (upload_row (\<lambda>_. ''h'') sample_upload_config 30 3 (upload_command_of 2 3 sample_request) 5),
        ?k\<lparr>kdb_artifacts := [new_artifact (upload_row (\<lambda>_. ''h'') sample_upload_config 30 3 (upload_command_of 2 3 sample_request) 5)]\<rparr>)"
    unfolding add_artifact_def insert_stmt_def
    by (subst sql_write_ok) (simp_all add: artifact_cs_def artifact_constraints_def version_ids_def new_artifact_def
        upload_row_def upload_command_of_def sample_request_def empty_knowledge_def sample_new_version_def)
  ultimately show ?thesis
    by (simp add: upload_def Let_def minio_put_def sample_client_def new_artifact_def upload_row_def)
qed

lemma default_config_valid: "config_post_init default_chunking_config = Inr default_chunking_config"
  by (simp add: config_post_init_def default_chunking_config_def strip_blank_iff lit_def py_isspace_def)

lemma default_config_read:
  "config_from_run_configuration (JObj [(lit ''chunking'', raw_chunking_configuration sample_request)]) = Inr default_chunking_config"
  by (simp add: raw_chunking_configuration_def sample_request_def written_config_reads default_config_valid)

lemma sample_item_queued:
  assumes "map ar_id (kdb_artifacts k) = [30]"
  shows "\<exists>d. queue_item (\<lambda>_. ''c'') sample_ingest_env sample_request 5 ch 30 (with_artifacts k empty_ingestion) = (Inr (50, 4), d)
    \<and> idb_chunks d = []"
proof -
  have "enqueue 8 PROCESS_INGESTION_ITEM 4 (item_payload 4) 5 [] = Inr [new_job 8 PROCESS_INGESTION_ITEM 4 (item_payload 4) 5]"
    by (simp add: enqueue_ok outbox_ok_def)
  then show ?thesis
    using assms
    by (simp add: queue_item_def Let_def create_run_tx_def add_run_def add_item_tx_def add_item_def on_outbox_def
        insert_stmt_def sql_write_ok satisfies_items run_constraints_def with_artifacts_def
        empty_ingestion_def sample_ingest_env_def new_item_def item_row_ok_def item_checks)
qed

lemma sample_ingested:
  "\<exists>q k1 s1 d1. ingest sample_client (\<lambda>_. ''h'') (\<lambda>_. ''c'') sample_upload_config sample_ingest_env sample_request 5
      empty_knowledge [] empty_ingestion = (Inr q, k1, s1, d1) \<and> qi_item_id q = 4 \<and> idb_chunks d1 = []"
proof -
  obtain u k1 s1 where up: "upload sample_client (\<lambda>_. ''h'') sample_upload_config 30 3 True (upload_command_of 2 3 sample_request) 5
      (empty_knowledge\<lparr>kdb_documents := [sample_new_document], kdb_versions := [sample_new_version]\<rparr>) [] =
      (Inr u, k1, s1)" "ua_artifact_id u = 30" "map ar_id (kdb_artifacts k1) = [30]"
    using sample_artifact_uploaded by (elim exE conjE)
  obtain d1 where "queue_item (\<lambda>_. ''c'') sample_ingest_env sample_request 5 default_chunking_config 30
      (with_artifacts k1 empty_ingestion) = (Inr (50, 4), d1)" "idb_chunks d1 = []"
    using sample_item_queued [OF up(3), of default_chunking_config] by (elim exE conjE)
  moreover have "ie_document_id sample_ingest_env = 2" "ie_version_id sample_ingest_env = 3"
    "ie_artifact_id sample_ingest_env = 30" "ie_document_now sample_ingest_env = 1"
    "ie_version_now sample_ingest_env = 2" "ie_upload_now sample_ingest_env = 3" "ie_upload_commits sample_ingest_env"
    "ig_title sample_request = [116]" "ig_language_code sample_request = [101, 110]"
    "ig_version_label sample_request = DEFAULT_VERSION_LABEL" "kd_id sample_new_document = 2" "vr_id sample_new_version = 3"
    by (simp_all add: sample_ingest_env_def sample_request_def sample_new_document_def sample_new_version_def)
  ultimately show ?thesis
    unfolding ingest_def Let_def
    by (simp add: sample_document_created sample_version_created up default_config_read)
qed

theorem ingested_request_is_chunked_witness:
  "\<exists>q k1 s1 d1 d' r. ingest sample_client (\<lambda>_. ''h'') (\<lambda>_. ''c'') sample_upload_config sample_ingest_env sample_request 5
      empty_knowledge [] empty_ingestion = (Inr q, k1, s1, d1) \<and>
    handle sample_lifecycle (task_env sample_client (\<lambda>_. ''h'') (\<lambda>_. ''h'') sample_pipeline) sample_delivery
      (qi_item_id q) k1 s1 d1 = (None, d') \<and>
    lookup it_id (qi_item_id q) (idb_items d') = Some r \<and> it_status r = COMPLETED"
proof -
  obtain q k1 s1 d1 where ingest: "ingest sample_client (\<lambda>_. ''h'') (\<lambda>_. ''c'') sample_upload_config sample_ingest_env
      sample_request 5 empty_knowledge [] empty_ingestion = (Inr q, k1, s1, d1)"
    and q: "qi_item_id q = 4" "idb_chunks d1 = []"
    using sample_ingested by (elim exE conjE)
  let ?res = "build_result sample_document OPENAI_OCR False None"
  have extracted: "extract_document sample_pipeline (loaded_request (\<lambda>_. ''h'') sample_ingest_env sample_request) = Inr ?res"
    by (simp add: extract_document_def sample_pipeline_def)
  have blocks: "list_all (\<lambda>blk. utf8_encodable (blk_text blk)) (doc_blocks (er_document ?res))"
    "list_all block_page_positive (doc_blocks (er_document ?res))"
    using sample_encodable
    by (simp_all add: build_result_def sample_document_def sample_block_def block_page_positive_def)
  have und: "undisturbed sample_lifecycle sample_delivery (qi_item_id q) (id d1)"
    using q by (simp add: undisturbed_def sample_delivery_def sample_lifecycle_def quiet_def)
  have "\<exists>d' r. handle sample_lifecycle (task_env sample_client (\<lambda>_. ''h'') (\<lambda>_. ''h'') sample_pipeline) sample_delivery
      (qi_item_id q) k1 s1 (id d1) = (None, d') \<and>
    lookup it_id (qi_item_id q) (idb_items d') = Some r \<and> it_status r = COMPLETED \<and>
    it_observed_file_hash r = Some ((\<lambda>_. ''h'') (ig_content sample_request)) \<and>
    drafts_wf (whitespace_builder (\<lambda>_. ''h'') (Some (ig_language_code sample_request))) (list_for_item (qi_item_id q) d') \<and>
    words (list_for_item (qi_item_id q) d') = block_words (body_blocks default_chunking_config (er_document ?res))"
    by (rule ingested_request_is_chunked [where evs = "[]" and f = id,
        OF sample_client_laws empty_ok ingest _ _ _ _ default_config_read _ extracted blocks _ _ und])
      (simp_all add: sample_ingest_env_def quiet_def registered_tokenizers_def default_chunking_config_def sample_lifecycle_def)
  with ingest show ?thesis by fastforce
qed

end
