(* ===== verification/Api.thy ===== *)
theory Api
  imports Keycloak IdentityServices Pipeline
begin

text \<open>
  The HTTP surface: the dependencies that authenticate and authorise a request
  (\<open>apps/api/dependencies/\<close>), the exception handlers
  (\<open>apps/api/utilities/exception_handlers.py\<close>), the validation the request schemas declare
  (\<open>apps/api/schemas/\<close>) and the routes (\<open>apps/api/routes/\<close>), each of which calls one service
  of the other theories.

  A request is a value of \<open>api_route\<close> with the parsed arguments, and the authorization header;
  routing, parsing and the JSON encoding of a response are the framework's. As the framework
  does, the dependencies run first, in the order token, local user, permission, then the
  payload is validated, then the route's function runs. Instants always carry a time zone here,
  so the schemas' checks for a missing one have nothing to refuse.
\<close>

section \<open>Errors and their status\<close>

datatype api_error =
    HttpException nat string
  | VerifierRaised
  | IdentityRaised identity_error
  | DocumentRaised document_error
  | StorageRaised storage_error
  | CommitRaised
  | LoadRaised load_error
  | ExtractionRaised extraction_error
  | ConfigRaised value_error
  | DbRaised db_error

text \<open>
  \<open>register_exception_handlers\<close>. An error without a handler is answered with 500 by the
  framework.
\<close>

fun identity_status :: "identity_error \<Rightarrow> nat" where
  "identity_status (GroupMembershipNotFound _ _) = 404"
| "identity_status (PermissionGrantNotFound _ _) = 404"
| "identity_status (PermissionNotFound _) = 404"
| "identity_status (PermissionTargetNotFound _) = 404"
| "identity_status (PrincipalNotFound _ _) = 404"
| "identity_status (RoleAssignmentNotFound _ _) = 404"
| "identity_status (RoleAssignmentRoleNotFound _) = 404"
| "identity_status (RoleAssignmentUserNotFound _) = 404"
| "identity_status (GroupCycleDetected _ _) = 409"
| "identity_status (GroupMemberTypeNotAllowed _ _) = 409"
| "identity_status (GroupMembershipAlreadyExists _ _) = 409"
| "identity_status (GroupPrincipalRequired _) = 409"
| "identity_status (GroupSelfMembership _ _) = 409"
| "identity_status (LastSuperadminViolation _ _) = 409"
| "identity_status (PermissionGrantConflict _ _) = 409"
| "identity_status (PermissionTargetInactive _) = 409"
| "identity_status (PermissionTargetRetired _) = 409"
| "identity_status (PrincipalInactive _ _) = 409"
| "identity_status (PrincipalRetired _ _) = 409"
| "identity_status (ProtectedSuperadminRole _) = 409"
| "identity_status (RoleAssignmentConflict _ _) = 409"
| "identity_status _ = 500"

fun document_status :: "document_error \<Rightarrow> nat" where
  "document_status (DocumentAclGrantNotFound _ _) = 404"
| "document_status (DocumentAclPrincipalNotFound _) = 404"
| "document_status (DocumentArtifactNotFound _ _) = 404"
| "document_status (DocumentNotFound _) = 404"
| "document_status (DocumentVersionDocumentNotFound _) = 404"
| "document_status (DocumentVersionNotFound _ _) = 404"
| "document_status (DocumentAclExpirationInvalid _ _) = 422"
| "document_status (DocumentArtifactContentTypeInvalid _) = 422"
| "document_status DocumentArtifactEmpty = 422"
| "document_status (DocumentArtifactKeyInvalid _) = 422"
| "document_status (DocumentArtifactLanguageCodeInvalid _) = 422"
| "document_status (DocumentVersionInvalidEffectiveRange _ _) = 422"
| "document_status (DocumentVersionInvalidTransition _ _ _ _) = 422"
| "document_status (DocumentAclGrantConflict _ _ _) = 409"
| "document_status (DocumentArtifactConflict _ _) = 409"
| "document_status (DocumentArtifactStorageLocationConflict _ _) = 409"
| "document_status (DocumentArtifactVersionNotDraft _ _) = 409"
| "document_status (DocumentCanonicalKeyConflict _) = 409"
| "document_status (DocumentDeleted _) = 409"
| "document_status (DocumentVersionConflict _ _) = 409"
| "document_status (DocumentVersionOverlap _ _) = 409"
| "document_status (DocumentArtifactTooLarge _ _) = 413"
| "document_status _ = 500"

fun storage_status :: "storage_error \<Rightarrow> nat" where
  "storage_status (ObjectNotFound _) = 404"
| "storage_status _ = 500"

fun load_status :: "load_error \<Rightarrow> nat" where
  "load_status (ArtifactUnavailableForIngestion _ _) = 404"
| "load_status (ArtifactIntegrityMismatch _ _ _ _ _) = 422"
| "load_status (LoadStorageError e) = storage_status e"
| "load_status (LoadDbError e) = document_status e"

fun extraction_status :: "extraction_error \<Rightarrow> nat" where
  "extraction_status (ExtractionFailed _ _ _) = 502"
| "extraction_status UncaughtExtractorError = 500"

fun status_of :: "api_error \<Rightarrow> nat" where
  "status_of (HttpException code _) = code"
| "status_of VerifierRaised = 500"
| "status_of (IdentityRaised e) = identity_status e"
| "status_of (DocumentRaised e) = document_status e"
| "status_of (StorageRaised e) = storage_status e"
| "status_of CommitRaised = 500"
| "status_of (LoadRaised e) = load_status e"
| "status_of (ExtractionRaised e) = extraction_status e"
| "status_of (ConfigRaised _) = 500"
| "status_of (DbRaised _) = 500"

section \<open>Authentication\<close>

text \<open>
  The settings the requests depend on, and what is not part of the program: the JWT library,
  the identity provider, the storage client, SHA-256, the hash of a configuration and the
  extractors, which are told the language.
\<close>

record api_settings =
  se_disable_auth :: bool
  se_issuer :: pystr
  se_seed_username :: pystr
  se_seed_email :: pystr
  se_seed_display_name :: pystr
  se_jit_enabled :: bool
  se_verifier :: verifier_config
  se_upload :: upload_config

record 's externals =
  ex_jwt :: jwt_library
  ex_provider :: provider
  ex_s3 :: "'s s3_client"
  ex_sha :: "bytes \<Rightarrow> string"
  ex_configuration_hash :: "json \<Rightarrow> string"
  ex_extraction :: "pystr option \<Rightarrow> extraction_pipeline"

text \<open>
  What one request reads from the world: clocks, fresh identifiers, whether the commit of an
  upload succeeds, and what other transactions commit to the identity database between its
  steps.
\<close>

record api_env =
  en_refresh :: refresh_env
  en_forced_refresh :: refresh_env
  en_user_id :: uuid
  en_identifier_id :: uuid
  en_login_now :: datetime
  en_before_provision :: "identity_db \<Rightarrow> identity_db"
  en_before_insert :: "identity_db \<Rightarrow> identity_db"
  en_after_conflict :: "identity_db \<Rightarrow> identity_db"
  en_before_check :: "identity_db \<Rightarrow> identity_db"
  en_check_now :: datetime
  en_meanwhile :: "identity_db \<Rightarrow> identity_db"
  en_fresh :: uuid
  en_now :: datetime
  en_commits :: bool
  en_ingest :: ingest_env

text \<open>
  \<open>_bearer_token\<close>. A header is latin-1 text, in which only the capital ASCII letters are
  mapped to the letters of "bearer" by \<open>lower\<close>.
\<close>

definition ascii_lower :: "pystr \<Rightarrow> pystr" where
  "ascii_lower s = map (\<lambda>c. if 65 \<le> c \<and> c \<le> 90 then c + 32 else c) s"

definition bearer_token :: "pystr option \<Rightarrow> api_error + pystr" where
  "bearer_token authorization = (case authorization of
      None \<Rightarrow> Inl (HttpException 401 ''Authentication required'')
    | Some h \<Rightarrow>
        let scheme = takeWhile (\<lambda>c. c \<noteq> 32) h;
            rest = dropWhile (\<lambda>c. c \<noteq> 32) h;
            bearer = tl rest in
        if ascii_lower scheme \<noteq> lit ''bearer'' \<or> rest = [] \<or> strip bearer = []
        then Inl (HttpException 401 ''Invalid authorization header'')
        else Inr (strip bearer))"

definition seed_identity :: "api_settings \<Rightarrow> authenticated_identity" where
  "seed_identity settings = \<lparr>ai_issuer = se_issuer settings, ai_subject = se_seed_username settings,
    ai_email = Some (se_seed_email settings), ai_email_verified = Some True,
    ai_username = Some (se_seed_username settings), ai_display_name = Some (se_seed_display_name settings)\<rparr>"

definition get_authenticated_identity ::
  "api_settings \<Rightarrow> 's externals \<Rightarrow> api_env \<Rightarrow> pystr option \<Rightarrow> jwks_cache \<Rightarrow>
    (api_error + authenticated_identity) \<times> jwks_cache"
where
  "get_authenticated_identity settings ext env authorization c =
    (if se_disable_auth settings then (Inr (seed_identity settings), c)
     else (case bearer_token authorization of
         Inl e \<Rightarrow> (Inl e, c)
       | Inr bearer \<Rightarrow>
           (case verify (se_verifier settings) (ex_provider ext) (ex_jwt ext) (en_refresh env)
             (en_forced_refresh env) bearer c of
              (Inl (TokenVerificationError _), c') \<Rightarrow>
                (Inl (HttpException 401 ''Invalid authentication token''), c')
            | (Inl UncaughtVerifierError, c') \<Rightarrow> (Inl VerifierRaised, c')
            | (Inr a, c') \<Rightarrow> (Inr a, c'))))"

text \<open>The subclasses of \<open>IdentityResolutionError\<close>.\<close>

fun resolution_error :: "identity_error \<Rightarrow> bool" where
  "resolution_error LocalIdentityNotProvisioned = True"
| "resolution_error LocalIdentityDisabled = True"
| "resolution_error LocalIdentityRetired = True"
| "resolution_error IdentityAlreadyProvisioned = True"
| "resolution_error IdentityProvisioningConflict = True"
| "resolution_error _ = False"

definition get_local_principal_id ::
  "api_settings \<Rightarrow> api_env \<Rightarrow> authenticated_identity \<Rightarrow> identity_db \<Rightarrow> (api_error + uuid) \<times> identity_db"
where
  "get_local_principal_id settings env a d =
    (case resolve (se_jit_enabled settings) (en_user_id env) (en_identifier_id env) (en_login_now env)
       (en_before_provision env) (en_before_insert env) (en_after_conflict env) a d of
       Inr (u, d') \<Rightarrow> (Inr u, d')
     | Inl e \<Rightarrow>
         (Inl (if resolution_error e
               then HttpException 403 ''Authenticated identity has no usable local access''
               else IdentityRaised e),
          en_after_conflict env (en_before_insert env (en_before_provision env d))))"

definition permission_dependency :: "api_env \<Rightarrow> permission \<Rightarrow> uuid \<Rightarrow> identity_db \<Rightarrow> api_error + uuid" where
  "permission_dependency env p u d = (case require_permission (en_check_now env) u p d of
      Inl (PermissionDenied _ _) \<Rightarrow> Inl (HttpException 403 ''Insufficient permissions'')
    | Inl e \<Rightarrow> Inl (IdentityRaised e)
    | Inr _ \<Rightarrow> Inr u)"

section \<open>Requests\<close>

record upload_file =
  uf_filename :: "pystr option"
  uf_content_type :: "pystr option"
  uf_content :: bytes

record document_create_request =
  dc_canonical_key :: pystr
  dc_title :: pystr
  dc_description :: "pystr option"
  dc_document_type :: "pystr option"
  dc_department :: "pystr option"
  dc_default_language_code :: "pystr option"
  dc_metadata :: json

record document_update_request =
  du_fields_set :: "document_field list"
  du_title :: "pystr option"
  du_description :: "pystr option"
  du_document_type :: "pystr option"
  du_department :: "pystr option"
  du_default_language_code :: "pystr option"
  du_metadata :: "json option"

record acl_grant_request =
  dg_grantee :: uuid
  dg_permission :: document_permission
  dg_expires_at :: "datetime option"

datatype group_route =
    GetGroupMembers uuid
  | PostGroupMember uuid uuid
  | DeleteGroupMember uuid uuid

datatype permission_route =
    GetPermissions
  | GetPrincipalPermissions uuid
  | PostPrincipalPermission uuid permission
  | DeletePrincipalPermission uuid permission

datatype principal_route =
    PatchActivate uuid
  | PatchDeactivate uuid
  | PatchRetire uuid

datatype role_route =
    GetUserRoles uuid
  | PostUserRole uuid uuid
  | DeleteUserRole uuid uuid

datatype document_route =
    PostDocument document_create_request
  | PatchDocument uuid document_update_request
  | DeleteDocumentById uuid
  | GetAcl uuid bool
  | PostAcl uuid acl_grant_request
  | DeleteAcl uuid uuid

datatype version_route =
    PostVersion uuid pystr json
  | GetVersions uuid
  | GetEffectiveVersion uuid "datetime option"
  | GetVersion uuid uuid
  | PostPublish uuid uuid datetime
  | PostWithdraw uuid uuid datetime
  | PostArchive uuid uuid

datatype artifact_route =
    PostArtifact uuid uuid pystr pystr upload_file "pystr option" "datetime option"
  | GetArtifacts uuid uuid
  | GetArtifact uuid uuid uuid

datatype ingestion_route =
    PostExtraction uuid "pystr option"
  | PostPipeline pystr upload_file "pystr option" "pystr option" pystr pystr
  | GetIngestionItem uuid

datatype iam_route =
    GroupRoute group_route
  | PermissionRoute permission_route
  | PrincipalRoute principal_route
  | RoleRoute role_route

datatype api_route =
    GetMe
  | DocumentRoute document_route
  | VersionRoute version_route
  | ArtifactRoute artifact_route
  | IngestionRoute ingestion_route
  | IamRoute iam_route

record api_request =
  rq_authorization :: "pystr option"
  rq_route :: api_route

text \<open>The permission each route requires; \<open>/auth/me\<close> requires a local user only.\<close>

fun group_route_permission :: "group_route \<Rightarrow> permission" where
  "group_route_permission (GetGroupMembers _) = IAM_GROUPS_MANAGE"
| "group_route_permission (PostGroupMember _ _) = IAM_GROUPS_MANAGE"
| "group_route_permission (DeleteGroupMember _ _) = IAM_GROUPS_MANAGE"

fun permission_route_permission :: "permission_route \<Rightarrow> permission" where
  "permission_route_permission GetPermissions = IAM_PERMISSIONS_MANAGE"
| "permission_route_permission (GetPrincipalPermissions _) = IAM_PERMISSIONS_MANAGE"
| "permission_route_permission (PostPrincipalPermission _ _) = IAM_PERMISSIONS_MANAGE"
| "permission_route_permission (DeletePrincipalPermission _ _) = IAM_PERMISSIONS_MANAGE"

fun principal_route_permission :: "principal_route \<Rightarrow> permission" where
  "principal_route_permission (PatchActivate _) = IAM_PRINCIPALS_MANAGE"
| "principal_route_permission (PatchDeactivate _) = IAM_PRINCIPALS_MANAGE"
| "principal_route_permission (PatchRetire _) = IAM_PRINCIPALS_MANAGE"

fun role_route_permission :: "role_route \<Rightarrow> permission" where
  "role_route_permission (GetUserRoles _) = IAM_ROLES_MANAGE"
| "role_route_permission (PostUserRole _ _) = IAM_ROLES_MANAGE"
| "role_route_permission (DeleteUserRole _ _) = IAM_ROLES_MANAGE"

fun document_route_permission :: "document_route \<Rightarrow> permission" where
  "document_route_permission (PostDocument _) = KNOWLEDGE_DOCUMENTS_MANAGE"
| "document_route_permission (PatchDocument _ _) = KNOWLEDGE_DOCUMENTS_MANAGE"
| "document_route_permission (DeleteDocumentById _) = KNOWLEDGE_DOCUMENTS_MANAGE"
| "document_route_permission (GetAcl _ _) = KNOWLEDGE_DOCUMENT_ACL_MANAGE"
| "document_route_permission (PostAcl _ _) = KNOWLEDGE_DOCUMENT_ACL_MANAGE"
| "document_route_permission (DeleteAcl _ _) = KNOWLEDGE_DOCUMENT_ACL_MANAGE"

fun iam_permission :: "iam_route \<Rightarrow> permission" where
  "iam_permission (GroupRoute r) = group_route_permission r"
| "iam_permission (PermissionRoute r) = permission_route_permission r"
| "iam_permission (PrincipalRoute r) = principal_route_permission r"
| "iam_permission (RoleRoute r) = role_route_permission r"

text \<open>The routes of versions, artifacts and ingestion all require the same one.\<close>

fun route_permission :: "api_route \<Rightarrow> permission option" where
  "route_permission GetMe = None"
| "route_permission (DocumentRoute r) = Some (document_route_permission r)"
| "route_permission (VersionRoute r) = Some KNOWLEDGE_DOCUMENTS_MANAGE"
| "route_permission (ArtifactRoute r) = Some KNOWLEDGE_DOCUMENTS_MANAGE"
| "route_permission (IngestionRoute r) = Some KNOWLEDGE_DOCUMENTS_MANAGE"
| "route_permission (IamRoute r) = Some (iam_permission r)"

text \<open>The constraints the schemas and the parameters declare.\<close>

definition length_between :: "nat \<Rightarrow> nat \<Rightarrow> pystr \<Rightarrow> bool" where
  "length_between low high s \<longleftrightarrow> low \<le> length s \<and> length s \<le> high"

definition optional :: "('a \<Rightarrow> bool) \<Rightarrow> 'a option \<Rightarrow> bool" where
  "optional p x = (case x of None \<Rightarrow> True | Some y \<Rightarrow> p y)"

definition valid_create_request :: "document_create_request \<Rightarrow> bool" where
  "valid_create_request r \<longleftrightarrow> length_between 1 255 (dc_canonical_key r) \<and>
    length_between 1 500 (dc_title r) \<and> optional (length_between 0 100) (dc_document_type r) \<and>
    optional (length_between 0 100) (dc_department r) \<and>
    optional (length_between 0 20) (dc_default_language_code r) \<and> is_mapping (dc_metadata r)"

definition valid_update_request :: "document_update_request \<Rightarrow> bool" where
  "valid_update_request r \<longleftrightarrow> optional (length_between 1 500) (du_title r) \<and>
    optional (length_between 0 100) (du_document_type r) \<and> optional (length_between 0 100) (du_department r) \<and>
    optional (length_between 0 20) (du_default_language_code r) \<and> optional is_mapping (du_metadata r) \<and>
    du_fields_set r \<noteq> [] \<and> (TITLE \<in> set (du_fields_set r) \<longrightarrow> du_title r \<noteq> None) \<and>
    (METADATA \<in> set (du_fields_set r) \<longrightarrow> du_metadata r \<noteq> None)"

fun valid_document_request :: "document_route \<Rightarrow> bool" where
  "valid_document_request (PostDocument r) = valid_create_request r"
| "valid_document_request (PatchDocument _ r) = valid_update_request r"
| "valid_document_request _ = True"

fun valid_version_request :: "version_route \<Rightarrow> bool" where
  "valid_version_request (PostVersion _ label metadata) = (length_between 1 100 label \<and> is_mapping metadata)"
| "valid_version_request _ = True"

fun valid_artifact_request :: "artifact_route \<Rightarrow> bool" where
  "valid_artifact_request (PostArtifact _ _ key language _ _ _) = (key \<noteq> [] \<and> language \<noteq> [])"
| "valid_artifact_request _ = True"

fun valid_ingestion_request :: "ingestion_route \<Rightarrow> bool" where
  "valid_ingestion_request (PostExtraction _ language) = optional (length_between 1 20) language"
| "valid_ingestion_request (PostPipeline language _ _ _ label key) =
    (language \<noteq> [] \<and> label \<noteq> [] \<and> key \<noteq> [])"
| "valid_ingestion_request (GetIngestionItem _) = True"

fun valid_request :: "api_route \<Rightarrow> bool" where
  "valid_request (DocumentRoute r) = valid_document_request r"
| "valid_request (VersionRoute r) = valid_version_request r"
| "valid_request (ArtifactRoute r) = valid_artifact_request r"
| "valid_request (IngestionRoute r) = valid_ingestion_request r"
| "valid_request _ = True"

section \<open>Responses\<close>

record document_response =
  dr_id :: uuid
  dr_created_by :: "uuid option"
  dr_canonical_key :: pystr
  dr_title :: pystr
  dr_description :: "pystr option"
  dr_document_type :: "pystr option"
  dr_department :: "pystr option"
  dr_default_language_code :: "pystr option"
  dr_metadata :: json
  dr_created_at :: datetime
  dr_updated_at :: datetime

record acl_grant_response =
  agr_grant_id :: uuid
  agr_principal_id :: uuid
  agr_permission :: document_permission
  agr_granted_at :: datetime
  agr_granted_by :: "uuid option"
  agr_expires_at :: "datetime option"
  agr_revoked_at :: "datetime option"
  agr_revoked_by :: "uuid option"

text \<open>Neither the storage key nor the creator of an artifact is shown.\<close>

record artifact_response =
  atr_artifact_id :: uuid
  atr_version_id :: uuid
  atr_key :: pystr
  atr_language_code :: pystr
  atr_source_name :: pystr
  atr_source_uri :: "pystr option"
  atr_source_updated_at :: "datetime option"
  atr_storage_provider :: pystr
  atr_mime_type :: pystr
  atr_file_hash :: string
  atr_file_size_bytes :: int
  atr_status :: artifact_status
  atr_metadata :: json
  atr_created_at :: datetime
  atr_updated_at :: datetime
  atr_retired_at :: "datetime option"
  atr_deleted_at :: "datetime option"

record item_status_response =
  isr_item_id :: uuid
  isr_run_id :: uuid
  isr_artifact_id :: uuid
  isr_status :: ingestion_status
  isr_attempt_count :: int
  isr_observed_file_hash :: "string option"
  isr_execution_metadata :: json
  isr_error_code :: "string option"
  isr_error_message :: "pystr option"
  isr_started_at :: "datetime option"
  isr_completed_at :: "datetime option"

record extraction_response =
  exr_artifact_id :: uuid
  exr_mime_type :: pystr
  exr_file_hash :: string
  exr_file_size_bytes :: int
  exr_method :: extraction_method
  exr_fallback_used :: bool
  exr_fallback_reason :: "string option"
  exr_quality_score :: "rat option"
  exr_block_count :: nat
  exr_blocks :: "(pystr \<times> block_type \<times> int option) list"
  exr_metadata :: json

text \<open>
  The other response models have the fields of the service's results, one for one, and carry
  those results.
\<close>

datatype api_body =
    NoContent
  | ErrorDetail
  | MeBody uuid authenticated_identity
  | GroupMembersBody "direct_group_member list"
  | PermissionsBody "(pystr \<times> pystr option) list"
  | PrincipalPermissionsBody "active_permission_grant list"
  | RolesBody "assigned_role list"
  | DocumentBody document_response
  | AclBody "acl_grant_response list"
  | GrantBody acl_grant_response
  | VersionBody version_row
  | VersionsBody "version_row list"
  | EffectiveVersionBody "version_row option"
  | UploadBody uploaded_artifact
  | ArtifactBody artifact_response
  | ArtifactsBody "artifact_response list"
  | ExtractionBody extraction_response
  | QueuedBody queued_ingestion
  | ItemBody item_status_response

definition to_document_response :: "document \<Rightarrow> document_response" where
  "to_document_response d = \<lparr>dr_id = kd_id d, dr_created_by = kd_created_by d,
    dr_canonical_key = kd_canonical_key d, dr_title = kd_title d, dr_description = kd_description d,
    dr_document_type = kd_document_type d, dr_department = kd_department d,
    dr_default_language_code = kd_default_language_code d, dr_metadata = kd_metadata d,
    dr_created_at = kd_created_at d, dr_updated_at = kd_updated_at d\<rparr>"

definition to_acl_grant_response :: "acl_grant \<Rightarrow> acl_grant_response" where
  "to_acl_grant_response g = \<lparr>agr_grant_id = ag_id g, agr_principal_id = ag_principal_id g,
    agr_permission = ag_permission g, agr_granted_at = ag_granted_at g, agr_granted_by = ag_granted_by g,
    agr_expires_at = ag_expires_at g, agr_revoked_at = ag_revoked_at g, agr_revoked_by = ag_revoked_by g\<rparr>"

definition to_artifact_response :: "artifact_row \<Rightarrow> artifact_response" where
  "to_artifact_response a = \<lparr>atr_artifact_id = ar_id a, atr_version_id = ar_version_id a,
    atr_key = ar_key a, atr_language_code = ar_language_code a, atr_source_name = ar_source_name a,
    atr_source_uri = ar_source_uri a, atr_source_updated_at = ar_source_updated_at a,
    atr_storage_provider = ar_storage_provider a, atr_mime_type = ar_mime_type a,
    atr_file_hash = ar_file_hash a, atr_file_size_bytes = ar_file_size_bytes a, atr_status = ar_status a,
    atr_metadata = ar_metadata a, atr_created_at = ar_created_at a, atr_updated_at = ar_updated_at a,
    atr_retired_at = ar_retired_at a, atr_deleted_at = ar_deleted_at a\<rparr>"

definition to_item_response :: "ingestion_item \<Rightarrow> item_status_response" where
  "to_item_response i = \<lparr>isr_item_id = it_id i, isr_run_id = it_run_id i, isr_artifact_id = it_artifact_id i,
    isr_status = it_status i, isr_attempt_count = it_attempt_count i,
    isr_observed_file_hash = it_observed_file_hash i, isr_execution_metadata = it_execution_metadata i,
    isr_error_code = it_error_code i, isr_error_message = it_error_message i,
    isr_started_at = it_started_at i, isr_completed_at = it_completed_at i\<rparr>"

definition to_extraction_response :: "artifact_extraction \<Rightarrow> extraction_response" where
  "to_extraction_response e =
    (let artifact = ae_artifact e; result = ae_result e; doc = er_document result;
         blocks = map (\<lambda>b. (blk_text b, blk_type b, blk_page b)) (doc_blocks doc) in
     \<lparr>exr_artifact_id = la_artifact_id artifact, exr_mime_type = la_mime_type artifact,
      exr_file_hash = la_observed_file_hash artifact, exr_file_size_bytes = la_file_size_bytes artifact,
      exr_method = er_method result, exr_fallback_used = er_fallback_used result,
      exr_fallback_reason = er_fallback_reason result, exr_quality_score = er_quality_score result,
      exr_block_count = length blocks, exr_blocks = blocks, exr_metadata = doc_metadata doc\<rparr>)"

section \<open>The routes\<close>

definition answer :: "nat \<Rightarrow> ('a \<Rightarrow> api_body) \<Rightarrow> 'e + 'a \<Rightarrow> 'e + nat \<times> api_body" where
  "answer code f r = and_then r (\<lambda>x. Inr (code, f x))"

text \<open>A transaction and its response: the result is answered, the database committed.\<close>

definition transact ::
  "nat \<Rightarrow> ('a \<Rightarrow> api_body) \<Rightarrow> 'db \<Rightarrow> 'e + 'a \<times> 'db \<Rightarrow> ('e + nat \<times> api_body) \<times> 'db"
where
  "transact code f d r = (answer code (\<lambda>(x, _). f x) r, db_after d r)"

definition no_content :: "'db \<Rightarrow> 'e + unit \<times> 'db \<Rightarrow> ('e + nat \<times> api_body) \<times> 'db" where
  "no_content d r = transact 204 (\<lambda>_. NoContent) d r"

text \<open>
  \<open>routes/iam/\<close>. A service reads \<open>s\<close> first and decides on \<open>d\<close>, which holds what other
  transactions have committed meanwhile.
\<close>

fun group_call ::
  "api_env \<Rightarrow> uuid \<Rightarrow> group_route \<Rightarrow> identity_db \<Rightarrow> identity_db \<Rightarrow>
    (identity_error + nat \<times> api_body) \<times> identity_db"
where
  "group_call env actor (GetGroupMembers g) s d =
    (answer 200 GroupMembersBody (list_group_members g s), d)"
| "group_call env actor (PostGroupMember g i) s d =
    no_content d (add_group_member (en_fresh env) (en_now env) (\<lambda>_. d) g i actor None s)"
| "group_call env actor (DeleteGroupMember g i) s d =
    no_content d (remove_group_member (en_now env) (\<lambda>_. d) g i actor s)"

fun permission_call ::
  "api_env \<Rightarrow> uuid \<Rightarrow> permission_route \<Rightarrow> identity_db \<Rightarrow> identity_db \<Rightarrow>
    (identity_error + nat \<times> api_body) \<times> identity_db"
where
  "permission_call env actor GetPermissions s d = (Inr (200, PermissionsBody (list_permissions s)), d)"
| "permission_call env actor (GetPrincipalPermissions i) s d =
    (answer 200 PrincipalPermissionsBody (list_principal_permissions i s), d)"
| "permission_call env actor (PostPrincipalPermission i p) s d =
    no_content d (grant_permission (en_fresh env) (en_now env) (\<lambda>_. d) i p actor s)"
| "permission_call env actor (DeletePrincipalPermission i p) s d =
    no_content d (revoke_permission (en_now env) (\<lambda>_. d) i p actor s)"

fun principal_call ::
  "api_env \<Rightarrow> principal_route \<Rightarrow> identity_db \<Rightarrow> identity_db \<Rightarrow>
    (identity_error + nat \<times> api_body) \<times> identity_db"
where
  "principal_call env (PatchActivate i) s d = no_content d (activate_principal (en_now env) i d)"
| "principal_call env (PatchDeactivate i) s d =
    no_content d (deactivate_principal (en_now env) (\<lambda>_. d) i s)"
| "principal_call env (PatchRetire i) s d = no_content d (retire_principal (en_now env) (\<lambda>_. d) i s)"

fun role_call ::
  "api_env \<Rightarrow> uuid \<Rightarrow> role_route \<Rightarrow> identity_db \<Rightarrow> identity_db \<Rightarrow>
    (identity_error + nat \<times> api_body) \<times> identity_db"
where
  "role_call env actor (GetUserRoles u) s d = (answer 200 RolesBody (list_roles u s), d)"
| "role_call env actor (PostUserRole u r) s d =
    no_content d (assign_role (en_fresh env) (en_now env) (\<lambda>_. d) u r actor s)"
| "role_call env actor (DeleteUserRole u r) s d =
    no_content d (revoke_role (en_now env) (\<lambda>_. d) u r actor s)"

fun iam_call ::
  "api_env \<Rightarrow> uuid \<Rightarrow> iam_route \<Rightarrow> identity_db \<Rightarrow> identity_db \<Rightarrow>
    (identity_error + nat \<times> api_body) \<times> identity_db"
where
  "iam_call env actor (GroupRoute r) s d = group_call env actor r s d"
| "iam_call env actor (PermissionRoute r) s d = permission_call env actor r s d"
| "iam_call env actor (PrincipalRoute r) s d = principal_call env r s d"
| "iam_call env actor (RoleRoute r) s d = role_call env actor r s d"

text \<open>The patch a PATCH request stands for.\<close>

definition patch_of :: "document_update_request \<Rightarrow> document_patch" where
  "patch_of r = \<lparr>dp_fields = du_fields_set r, dp_title = coalesce (du_title r) [],
    dp_description = du_description r, dp_document_type = du_document_type r,
    dp_department = du_department r, dp_default_language_code = du_default_language_code r,
    dp_metadata = coalesce (du_metadata r) (JObj [])\<rparr>"

definition missing_filename :: "upload_file \<Rightarrow> bool" where
  "missing_filename f \<longleftrightarrow> (case uf_filename f of None \<Rightarrow> True | Some n \<Rightarrow> strip n = [])"

text \<open>\<open>file.read(max_file_size_bytes + 1)\<close>.\<close>

definition read_upload :: "api_settings \<Rightarrow> upload_file \<Rightarrow> bytes" where
  "read_upload settings f = take (nat (uc_max_file_size_bytes (se_upload settings) + 1)) (uf_content f)"

definition upload_command_of_request ::
  "api_settings \<Rightarrow> uuid \<Rightarrow> uuid \<Rightarrow> pystr \<Rightarrow> pystr \<Rightarrow> upload_file \<Rightarrow> pystr option \<Rightarrow> datetime option \<Rightarrow> upload_command"
where
  "upload_command_of_request settings doc v key language f uri updated_at = \<lparr>up_document_id = doc,
    up_version_id = v, up_artifact_key = key, up_language_code = language,
    up_source_name = coalesce (uf_filename f) [], up_source_uri = uri,
    up_content_type = coalesce (uf_content_type f) [], up_content = read_upload settings f,
    up_source_updated_at = updated_at\<rparr>"

fun upload_raised :: "upload_error \<Rightarrow> api_error" where
  "upload_raised (DocumentFailure e) = DocumentRaised e"
| "upload_raised (StorageFailure e) = StorageRaised e"
| "upload_raised CommitFailure = CommitRaised"

definition FILENAME_REQUIRED :: api_error where
  "FILENAME_REQUIRED = HttpException 422 ''uploaded file must have a filename''"

definition post_artifact ::
  "api_settings \<Rightarrow> 's externals \<Rightarrow> api_env \<Rightarrow> uuid \<Rightarrow> uuid \<Rightarrow> uuid \<Rightarrow> pystr \<Rightarrow> pystr \<Rightarrow> upload_file \<Rightarrow>
    pystr option \<Rightarrow> datetime option \<Rightarrow> knowledge_db \<Rightarrow> 's \<Rightarrow>
    (api_error + nat \<times> api_body) \<times> knowledge_db \<times> 's"
where
  "post_artifact settings ext env actor doc v key language f uri updated_at k s =
    (if missing_filename f then (Inl FILENAME_REQUIRED, k, s)
     else (case upload (ex_s3 ext) (ex_sha ext) (se_upload settings) (en_fresh env) (en_now env)
         (en_commits env) (upload_command_of_request settings doc v key language f uri updated_at) actor k s of
       (r, k', s') \<Rightarrow> (answer 201 UploadBody (map_error upload_raised r), k', s')))"

text \<open>\<open>routes/knowledge/\<close>.\<close>

fun document_call ::
  "api_env \<Rightarrow> uuid \<Rightarrow> document_route \<Rightarrow> knowledge_db \<Rightarrow> (document_error + nat \<times> api_body) \<times> knowledge_db"
where
  "document_call env actor (PostDocument r) k =
    transact 201 (DocumentBody \<circ> to_document_response) k
      (create_document (en_fresh env) (en_now env) (dc_canonical_key r) (dc_title r) actor (dc_description r)
        (dc_document_type r) (dc_department r) (dc_default_language_code r) (dc_metadata r) k)"
| "document_call env actor (PatchDocument i r) k =
    transact 200 (DocumentBody \<circ> to_document_response) k (update_document i (patch_of r) (en_now env) k)"
| "document_call env actor (DeleteDocumentById i) k = no_content k (delete_document i (en_now env) k)"
| "document_call env actor (GetAcl i include_history) k =
    (answer 200 (\<lambda>gs. AclBody (map to_acl_grant_response gs)) (list_acl_grants i include_history (en_now env) k), k)"
| "document_call env actor (PostAcl i r) k =
    transact 201 (GrantBody \<circ> to_acl_grant_response) k
      (grant_acl (en_fresh env) (en_now env) i (dg_grantee r) (dg_permission r) (dg_expires_at r) actor k)"
| "document_call env actor (DeleteAcl i g) k = no_content k (revoke_acl i g actor (en_now env) k)"

fun version_call ::
  "api_env \<Rightarrow> uuid \<Rightarrow> version_route \<Rightarrow> knowledge_db \<Rightarrow> (document_error + nat \<times> api_body) \<times> knowledge_db"
where
  "version_call env actor (PostVersion doc label metadata) k =
    transact 201 VersionBody k (create_version (en_fresh env) (en_now env) doc label (Some actor) metadata k)"
| "version_call env actor (GetVersions doc) k = (answer 200 VersionsBody (list_versions doc k), k)"
| "version_call env actor (GetEffectiveVersion doc when) k =
    (answer 200 EffectiveVersionBody (get_effective_version doc when (en_now env) k), k)"
| "version_call env actor (GetVersion doc v) k = (answer 200 VersionBody (get_version doc v k), k)"
| "version_call env actor (PostPublish doc v start) k =
    transact 200 VersionBody k (publish_version doc v start (en_now env) k)"
| "version_call env actor (PostWithdraw doc v until) k =
    transact 200 VersionBody k (withdraw_version doc v until (en_now env) k)"
| "version_call env actor (PostArchive doc v) k =
    transact 200 VersionBody k (archive_version doc v (en_now env) k)"

fun artifact_call ::
  "api_settings \<Rightarrow> 's externals \<Rightarrow> api_env \<Rightarrow> uuid \<Rightarrow> artifact_route \<Rightarrow> knowledge_db \<Rightarrow> 's \<Rightarrow>
    (api_error + nat \<times> api_body) \<times> knowledge_db \<times> 's"
where
  "artifact_call settings ext env actor (PostArtifact doc v key language f uri updated_at) k s =
    post_artifact settings ext env actor doc v key language f uri updated_at k s"
| "artifact_call settings ext env actor (GetArtifacts doc v) k s =
    (answer 200 (\<lambda>as. ArtifactsBody (map to_artifact_response as))
      (map_error DocumentRaised (list_artifacts doc v k)), k, s)"
| "artifact_call settings ext env actor (GetArtifact doc v a) k s =
    (answer 200 (ArtifactBody \<circ> to_artifact_response)
      (map_error DocumentRaised (get_artifact doc v a k)), k, s)"

text \<open>\<open>routes/ingestion/extraction.py\<close>.\<close>

fun extraction_raised :: "load_error + extraction_error \<Rightarrow> api_error" where
  "extraction_raised (Inl e) = LoadRaised e"
| "extraction_raised (Inr e) = ExtractionRaised e"

fun ingest_raised :: "ingest_error \<Rightarrow> api_error" where
  "ingest_raised (IngestDocumentError e) = DocumentRaised e"
| "ingest_raised (IngestUploadError e) = upload_raised e"
| "ingest_raised (IngestConfigError e) = ConfigRaised e"
| "ingest_raised (IngestDbError e) = DbRaised e"

definition title_or_filename :: "pystr option \<Rightarrow> upload_file \<Rightarrow> pystr" where
  "title_or_filename title f = (if coalesce title [] = [] then coalesce (uf_filename f) [] else coalesce title [])"

definition ingest_command_of ::
  "api_settings \<Rightarrow> pystr \<Rightarrow> upload_file \<Rightarrow> pystr option \<Rightarrow> pystr option \<Rightarrow> pystr \<Rightarrow> pystr \<Rightarrow> ingest_command"
where
  "ingest_command_of settings language f title key label artifact_key = \<lparr>ig_title = title_or_filename title f,
    ig_source_name = coalesce (uf_filename f) [], ig_content_type = coalesce (uf_content_type f) [],
    ig_content = read_upload settings f, ig_language_code = language, ig_canonical_key = key,
    ig_version_label = label, ig_artifact_key = artifact_key, ig_chunking = None\<rparr>"

record 's api_state =
  st_cache :: jwks_cache
  st_identity :: identity_db
  st_knowledge :: knowledge_db
  st_storage :: 's
  st_ingestion :: ingestion_db

fun ingestion_call ::
  "api_settings \<Rightarrow> 's externals \<Rightarrow> api_env \<Rightarrow> uuid \<Rightarrow> ingestion_route \<Rightarrow> 's api_state \<Rightarrow>
    (api_error + nat \<times> api_body) \<times> 's api_state"
where
  "ingestion_call settings ext env actor (PostExtraction artifact language) st =
    (answer 200 (ExtractionBody \<circ> to_extraction_response) (map_error extraction_raised
      (extract_artifact (ex_s3 ext) (ex_sha ext) (ex_extraction ext language) artifact (st_knowledge st)
        (st_storage st))), st)"
| "ingestion_call settings ext env actor (PostPipeline language f title key label artifact_key) st =
    (if missing_filename f then (Inl FILENAME_REQUIRED, st)
     else (case ingest (ex_s3 ext) (ex_sha ext) (ex_configuration_hash ext) (se_upload settings) (en_ingest env)
         (ingest_command_of settings language f title key label artifact_key) actor (st_knowledge st)
         (st_storage st) (st_ingestion st) of
       (r, k, s, i) \<Rightarrow> (answer 202 QueuedBody (map_error ingest_raised r),
         st\<lparr>st_knowledge := k, st_storage := s, st_ingestion := i\<rparr>)))"
| "ingestion_call settings ext env actor (GetIngestionItem i) st =
    (case find_item i (st_ingestion st) of
       Inl e \<Rightarrow> (Inl (DbRaised e), st)
     | Inr None \<Rightarrow> (Inl (HttpException 404 ''Ingestion item was not found.''), st)
     | Inr (Some item) \<Rightarrow> (Inr (200, ItemBody (to_item_response item)), st))"

text \<open>
  The function of the route. The principals a grant may name are those of the identity
  database.
\<close>

definition with_principals :: "identity_db \<Rightarrow> knowledge_db \<Rightarrow> knowledge_db" where
  "with_principals d k = k\<lparr>kdb_principal_ids := principal_ids d\<rparr>"

fun route_call ::
  "api_settings \<Rightarrow> 's externals \<Rightarrow> api_env \<Rightarrow> authenticated_identity \<Rightarrow> uuid \<Rightarrow> api_route \<Rightarrow> 's api_state \<Rightarrow>
    (api_error + nat \<times> api_body) \<times> 's api_state"
where
  "route_call settings ext env a actor GetMe st = (Inr (200, MeBody actor a), st)"
| "route_call settings ext env a actor (IamRoute r) st =
    (case iam_call env actor r (st_identity st) (en_meanwhile env (st_identity st)) of
       (res, d) \<Rightarrow> (map_error IdentityRaised res, st\<lparr>st_identity := d\<rparr>))"
| "route_call settings ext env a actor (DocumentRoute r) st =
    (case document_call env actor r (with_principals (st_identity st) (st_knowledge st)) of
       (res, k) \<Rightarrow> (map_error DocumentRaised res, st\<lparr>st_knowledge := k\<rparr>))"
| "route_call settings ext env a actor (VersionRoute r) st =
    (case version_call env actor r (st_knowledge st) of
       (res, k) \<Rightarrow> (map_error DocumentRaised res, st\<lparr>st_knowledge := k\<rparr>))"
| "route_call settings ext env a actor (ArtifactRoute r) st =
    (case artifact_call settings ext env actor r (st_knowledge st) (st_storage st) of
       (res, k, s) \<Rightarrow> (res, st\<lparr>st_knowledge := k, st_storage := s\<rparr>))"
| "route_call settings ext env a actor (IngestionRoute r) st = ingestion_call settings ext env actor r st"

section \<open>A request\<close>

record api_response =
  rs_status :: nat
  rs_body :: api_body

fun response_of :: "api_error + nat \<times> api_body \<Rightarrow> api_response" where
  "response_of (Inl e) = \<lparr>rs_status = status_of e, rs_body = ErrorDetail\<rparr>"
| "response_of (Inr (code, body)) = \<lparr>rs_status = code, rs_body = body\<rparr>"

definition authorize :: "api_env \<Rightarrow> api_route \<Rightarrow> uuid \<Rightarrow> identity_db \<Rightarrow> api_error + uuid" where
  "authorize env r u d = (case route_permission r of
      None \<Rightarrow> Inr u | Some p \<Rightarrow> permission_dependency env p u d)"

definition handle_request ::
  "api_settings \<Rightarrow> 's externals \<Rightarrow> api_env \<Rightarrow> api_request \<Rightarrow> 's api_state \<Rightarrow> api_response \<times> 's api_state"
where
  "handle_request settings ext env rq st =
    (case get_authenticated_identity settings ext env (rq_authorization rq) (st_cache st) of
       (Inl e, c) \<Rightarrow> (response_of (Inl e), st\<lparr>st_cache := c\<rparr>)
     | (Inr a, c) \<Rightarrow>
         (case get_local_principal_id settings env a (st_identity st) of
            (Inl e, d) \<Rightarrow> (response_of (Inl e), st\<lparr>st_cache := c, st_identity := d\<rparr>)
          | (Inr u, d) \<Rightarrow>
              let d' = en_before_check env d; st' = st\<lparr>st_cache := c, st_identity := d'\<rparr> in
              (case authorize env (rq_route rq) u d' of
                 Inl e \<Rightarrow> (response_of (Inl e), st')
               | Inr actor \<Rightarrow>
                   if \<not> valid_request (rq_route rq)
                   then (response_of (Inl (HttpException 422 ''validation'')), st')
                   else (case route_call settings ext env a actor (rq_route rq) st' of
                       (res, st'') \<Rightarrow> (response_of res, st'')))))"

end
