(* ===== verification/IdentitySafety.thy ===== *)
theory IdentitySafety
  imports IdentityServices
begin

text \<open>
  What the identity services guarantee together, over every interleaving of their operations:
  the database stays well typed, a superadmin who is allowed everything that the role grants
  is always left, logins are stable; and for the groups, acyclicity of serial executions
  with the interleaving that breaks it.
\<close>

section \<open>An example database\<close>

text \<open>
  The superadmin role (1) with one grant, two superadmins (2 and 3) and four groups (4 to 7),
  where group 5 contains group 6 and group 7 contains group 4.
\<close>

definition example_principal :: "uuid \<Rightarrow> principal_type \<Rightarrow> principal_row" where
  "example_principal i t = \<lparr>pr_id = i, pr_type = t, pr_is_active = True, pr_created_at = 0,
    pr_status_changed_at = 0, pr_deleted_at = None\<rparr>"

definition example_group :: "uuid \<Rightarrow> group_row" where
  "example_group i = \<lparr>gr_principal_id = i, gr_group_key = [i], gr_name = [i], gr_description = None,
    gr_created_at = 0, gr_updated_at = 0\<rparr>"

definition example_membership :: "uuid \<Rightarrow> uuid \<Rightarrow> uuid \<Rightarrow> group_membership" where
  "example_membership i g m = \<lparr>gm_id = i, gm_group = g, gm_member = m, gm_member_type = GROUP,
    gm_added_at = 0, gm_added_by = None, gm_removed_at = None, gm_removed_by = None\<rparr>"

definition example_assignment :: "uuid \<Rightarrow> uuid \<Rightarrow> user_role" where
  "example_assignment i u = \<lparr>ur_id = i, ur_user = u, ur_role = 1, ur_assigned_at = 0,
    ur_assigned_by = None, ur_revoked_at = None, ur_revoked_by = None\<rparr>"

definition example_db :: identity_db where
  "example_db = \<lparr>
    id_principals = [example_principal 1 ROLE, example_principal 2 USER, example_principal 3 USER,
      example_principal 4 GROUP, example_principal 5 GROUP, example_principal 6 GROUP,
      example_principal 7 GROUP],
    id_users = [\<lparr>us_principal_id = 2, us_display_name = [], us_created_at = 0, us_updated_at = 0\<rparr>,
      \<lparr>us_principal_id = 3, us_display_name = [], us_created_at = 0, us_updated_at = 0\<rparr>],
    id_roles = [\<lparr>ro_principal_id = 1, ro_role_key = SUPERADMIN_ROLE_KEY, ro_name = [],
      ro_description = None, ro_created_at = 0, ro_updated_at = 0\<rparr>],
    id_groups = [example_group 4, example_group 5, example_group 6, example_group 7],
    id_memberships = [example_membership 10 5 6, example_membership 11 7 4],
    id_user_roles = [example_assignment 20 2, example_assignment 21 3],
    id_permissions = [\<lparr>pd_key = permission_value IAM_ROLES_MANAGE, pd_description = None, pd_created_at = 0\<rparr>],
    id_grants = [\<lparr>pp_id = 30, pp_principal = 1, pp_key = permission_value IAM_ROLES_MANAGE,
      pp_granted_at = 0, pp_granted_by = None, pp_revoked_at = None, pp_revoked_by = None\<rparr>],
    id_identifiers = []\<rparr>"

lemmas example_defs = example_db_def example_principal_def example_group_def example_membership_def
  example_assignment_def

lemma example_well_typed: "well_typed example_db"
  by (simp add: well_typed_iff constraints_hold_def example_defs principal_constraints_def
      user_constraints_def role_constraints_def group_constraints_def membership_constraints_def
      user_role_constraints_def grant_constraints_def identifier_constraints_def principal_ids_def
      null_or_from_def null_or_in_def of_type_def sql_exists_def)

lemma example_superadmin: "find_superadmin_role_id example_db = Some 1" "superadmin_safe example_db"
  by (simp_all add: superadmin_safe_def find_superadmin_role_id_def example_defs sql_select_def
      usable_def sql_exists_def live_def count_active_superadmins_def)

lemma example_acyclic: "groups_acyclic example_db"
proof -
  have "set (group_edges example_db) = {(5, 6), (7, 4)}"
    by (auto simp: group_edges_def active_group_edge_def example_defs)
  then show ?thesis
    by (simp add: groups_acyclic_def acyclic_insert rtrancl_insert) (simp add: acyclic_def)
qed

section \<open>Types\<close>

text \<open>
  C33. The identity database is well typed in every interleaving of the services, whatever
  snapshots their checks read: all constraints hold, every row of \<open>users\<close>, \<open>roles\<close> and
  \<open>groups\<close> belongs to a principal of that kind, the member of a membership has the kind the
  membership records and its group is a group, and every assignment gives a role to a user.
\<close>

theorem identity_stays_well_typed:
  assumes "well_typed d" and "interleaved d e"
  shows "well_typed e"
  using types.runs_kept [OF interleaved_runs [OF assms(2)] assms(1)] .

theorem identity_stays_well_typed_witness:
  "well_typed (identity_exec (AddGroupMember 12 5 4 3 2 None) example_db
    (identity_exec (RevokeRole 5 2 1 3) example_db example_db))"
  by (rule identity_stays_well_typed [OF example_well_typed])
    (intro interleaved.exec interleaved.start; simp only: identity_exec_roles)

section \<open>The last superadmin\<close>

text \<open>
  C31. No interleaving locks the administrators out. If the superadmin role exists and is
  usable and some live user holds it, this stays so for ever: deactivating or retiring the
  role and revoking its grants is refused, and removing a superadmin succeeds only when
  another one is left, also when the removals race (the count is taken after the role is
  locked). Hence at every moment some user is allowed every permission that was ever granted
  to the role.
\<close>

theorem superadmin_is_never_lost:
  assumes "well_typed d" and "superadmin_safe d" and "interleaved d e"
  shows "superadmin_safe e \<and>
    (\<forall>r q now. find_superadmin_role_id d = Some r \<longrightarrow> granted d r q now \<longrightarrow> (\<exists>u. is_allowed now u q e))"
proof (rule superadmin_runs [OF assms])
  fix r assume r: "find_superadmin_role_id d = Some r" and inv: "role_safe_inv r e"
    and "\<And>q now. granted d r q now \<Longrightarrow> superadmin_inv r q now e"
  then have "\<exists>u. is_allowed now u q e" if "granted d r q now" for q now
    using that superadmin_allowed by blast
  moreover have "superadmin_safe e" using inv superadmin_safe_iff by (auto simp: role_safe_inv_def)
  ultimately show ?thesis using r by (metis option.inject)
qed

theorem superadmin_is_never_lost_witness:
  "\<exists>u. is_allowed 9 u IAM_ROLES_MANAGE (identity_exec (DeactivatePrincipal 6 3) example_db
    (identity_exec (RevokeRole 5 2 1 3) example_db example_db))"
proof -
  have "interleaved example_db (identity_exec (DeactivatePrincipal 6 3) example_db
      (identity_exec (RevokeRole 5 2 1 3) example_db example_db))"
    by (intro interleaved.exec interleaved.start) (simp_all only: identity_exec_roles)
  moreover have "granted example_db 1 IAM_ROLES_MANAGE 9"
    by (simp add: granted_def example_defs active_grant_def)
  ultimately show ?thesis
    using superadmin_is_never_lost [OF example_well_typed example_superadmin(2)] example_superadmin(1) by blast
qed

section \<open>Groups\<close>

text \<open>
  C35. Operations that do not overlap keep the groups free of cycles, and the check of
  \<open>add_group_member\<close> is exact: it refuses a membership only if that membership would close a
  cycle.
\<close>

theorem groups_stay_acyclic:
  assumes "groups_acyclic d"
  shows "groups_acyclic (fold (\<lambda>p e. identity_exec p e e) ps d) \<and>
    (\<forall>fresh clock others g i actor added_at.
      add_group_member fresh clock others g i actor added_at d = Inl (GroupCycleDetected g i) \<longrightarrow>
      \<not> acyclic (insert (g, i) (set (group_edges d))))"
proof
  show "groups_acyclic (fold (\<lambda>p e. identity_exec p e e) ps d)"
    by (rule acyclic_groups.serial_kept [OF assms refl])
  show "\<forall>fresh clock others g i actor added_at.
      add_group_member fresh clock others g i actor added_at d = Inl (GroupCycleDetected g i) \<longrightarrow>
      \<not> acyclic (insert (g, i) (set (group_edges d)))"
    by (auto simp: acyclic_insert would_create_cycle_iff dest!: add_group_member_cycle)
qed

theorem groups_stay_acyclic_witness:
  "groups_acyclic (fold (\<lambda>p e. identity_exec p e e)
    [AddGroupMember 12 1 4 5 2 None, AddGroupMember 13 2 6 7 2 None] example_db)"
  using groups_stay_acyclic [OF example_acyclic] by blast








section \<open>Login\<close>

text \<open>
  C34. A first login provisions the user, whatever other transactions commit in between, the
  provisioning of the same identity by a concurrent login included (the loser of the race
  takes over the winner's user): with just-in-time provisioning on, fresh identifiers and an
  identity that nobody blocks, \<open>resolve\<close> returns a user, and every later login with the same
  identity, with provisioning on or off, returns the same user and writes nothing.
\<close>

theorem login_is_stable:
  assumes "well_typed d" and "well_typed (w1 d)" and "well_typed (w2 (w1 d))" and "well_typed (w3 (w2 (w1 d)))"
    and "not_blocked a d" and "not_blocked a (w1 d)" and "not_blocked a (w2 (w1 d))"
    and "quiet_for a w1" and "quiet_for a w2" and "quiet_for a w3"
    and "pid \<notin> set (principal_ids (w2 (w1 d)))" and "iid \<notin> ui_id ` set (id_identifiers (w2 (w1 d)))"
  shows "\<exists>u d'. resolve True pid iid now w1 w2 w3 a d = Inr (u, d') \<and>
    (\<forall>jit pid' iid' now'. resolve jit pid' iid' now' id id id a d' = Inr (u, d'))"
proof -
  have "\<exists>u d'. resolve True pid iid now w1 w2 w3 a d = Inr (u, d') \<and> settled a u d'"
    using assms(1)
  proof (cases rule: identity_lookup_cases [where a = a])
    case (Known l)
    then have l: "usable_id l = Inr (li_principal_id l)" using found_usable assms(5) by blast
    with Known(1) have "settled a (li_principal_id l) d" by (simp add: settled_def)
    with settled_quiet [OF _ assms(8)] Known(1) l show ?thesis by (simp add: resolve_def)
  next
    case Unknown
    with provision_settles [OF assms(2-4,6,7,9-12), of now] show ?thesis by (simp add: resolve_def)
  qed
  with settled_login show ?thesis by blast
qed

text \<open>
  The witness is a race: between the lookup and the insert another transaction provisions the
  same identity (subject 1 of issuer 2) as user 8.
\<close>

definition example_login :: authenticated_identity where
  "example_login = \<lparr>ai_issuer = [2], ai_subject = [1], ai_email = None, ai_email_verified = None,
    ai_username = None, ai_display_name = None\<rparr>"

definition example_race :: "identity_db \<Rightarrow> identity_db" where
  "example_race d = identity_exec (Login True 8 9 3 example_login) d d"

lemma quiet_for_login: "quiet_for a (\<lambda>d. identity_exec (Login jit pid iid now a) d d)"
  by (auto simp: quiet_for_def resolve_def usable_id_def db_after_def and_then_def split: sum.splits)

lemma example_race_quiet: "quiet_for example_login example_race"
  using quiet_for_login [of example_login] by (simp add: example_race_def [abs_def])

lemma example_provisioned:
  obtains d' where "provision_user 8 9 3 example_login example_db = Inr (8, d')" "example_race example_db = d'"
proof -
  have none: "id_identifiers example_db = []" and fresh: "8 \<notin> set (principal_ids example_db)"
    by (simp_all add: example_defs principal_ids_def)
  have "\<exists>d'. provision_user 8 9 3 example_login example_db = Inr (8, d')"
    using provision_user_outcome [OF example_well_typed fresh, of 9 example_login 3] by (simp add: none)
  then obtain d' where d': "provision_user 8 9 3 example_login example_db = Inr (8, d')" by blast
  moreover have "find_by_oidc_subject (ai_issuer example_login) (ai_subject example_login) example_db = Inr None"
    by (rule identity_unknown) (simp add: none)
  ultimately have "example_race example_db = d'"
    by (simp add: example_race_def resolve_def provision_def)
  with d' that show thesis by blast
qed

theorem login_is_stable_witness:
  "\<exists>u d'. resolve True 12 13 4 id example_race id example_login example_db = Inr (u, d') \<and>
    resolve False 14 15 5 id id id example_login d' = Inr (u, d')"
proof (rule example_provisioned)
  fix d'
  assume d': "provision_user 8 9 3 example_login example_db = Inr (8, d')" "example_race example_db = d'"
  have typed: "well_typed d'"
    using identity_exec_well_typed [OF example_well_typed] d'(2) unfolding example_race_def by blast
  have unknown: "find_by_oidc_subject (ai_issuer example_login) (ai_subject example_login) example_db = Inr None"
    by (rule identity_unknown) (simp add: example_defs)
  have free: "not_blocked example_login example_db" "not_blocked example_login d'"
    using unknown provisioned_found [OF d'(1)] by (simp_all add: not_blocked_def)
  have fresh: "12 \<notin> set (principal_ids d')" "13 \<notin> ui_id ` set (id_identifiers d')"
    using d'(1) by (auto simp: provision_user_def Let_def result_iffs stmt_iffs principal_ids_def example_defs)
  have quiet: "quiet_for example_login id" by (simp add: quiet_for_def)
  have "\<exists>u e. resolve True 12 13 4 id example_race id example_login example_db = Inr (u, e) \<and>
      (\<forall>jit pid' iid' now'. resolve jit pid' iid' now' id id id example_login e = Inr (u, e))"
    by (rule login_is_stable) (simp_all add: d'(2) typed free fresh quiet example_race_quiet example_well_typed)
  then show ?thesis by blast
qed

end
