(* ===== verification/ApiSafety.thy ===== *)
theory ApiSafety
  imports Api IdentitySafety
begin

text \<open>
  What the HTTP surface guarantees: a request has no effect but a login unless its token was
  verified and its user holds the permission of the route, requests are steps of the
  interleavings of the identity services, and requests to the identity routes never end in an
  internal error.
\<close>

section \<open>Authorisation\<close>

text \<open>
  The rule of authorisation: the user acts as some principal (as the user itself, by an
  assigned role, or as member of a group) with an unrevoked grant of the permission.
\<close>

definition holds_permission :: "identity_db \<Rightarrow> datetime \<Rightarrow> uuid \<Rightarrow> permission \<Rightarrow> bool" where
  "holds_permission d now u p \<longleftrightarrow> (\<exists>q. acts_as d u q \<and>
    (\<exists>g \<in> set (id_grants d). pp_principal g = q \<and> active_grant p g \<and> pp_granted_at g \<le> now))"

lemma acts_as_iff: "acts_as d u q \<longleftrightarrow> q \<in> resolve_effective_principal_ids u d"
  by (auto simp: resolve_effective_principal_ids_def find_effective_principal_ids_def set_active_user
      set_active_roles in_group_iff elim!: acts_as.cases intro: acts_as.intros)

lemma is_allowed_iff: "is_allowed now u p d \<longleftrightarrow> holds_permission d now u p"
  by (auto simp: is_allowed_def has_permission_def holds_permission_def acts_as_iff sql_exists_iff)

lemma permission_dependency_iff:
  "permission_dependency env p u d =
    (if holds_permission d (en_check_now env) u p then Inr u
     else Inl (HttpException 403 ''Insufficient permissions''))"
  by (simp add: permission_dependency_def require_permission_def raise_if_def is_allowed_iff)

lemma authorize_Inr:
  "authorize env r u d = Inr v \<longleftrightarrow>
    v = u \<and> (\<forall>p. route_permission r = Some p \<longrightarrow> holds_permission d (en_check_now env) u p)"
  by (auto simp: authorize_def permission_dependency_iff split: option.splits)

lemma authorize_Inl: "authorize env r u d = Inl e \<Longrightarrow> status_of e = 403"
  by (auto simp: authorize_def permission_dependency_iff split: option.splits if_splits)








text \<open>The three ways a request ends before its route runs, and the one in which it runs.\<close>

lemma handle_request_cases:
  assumes "handle_request settings ext env rq st = (resp, st')"
  obtains (unauthenticated) e c where
      "get_authenticated_identity settings ext env (rq_authorization rq) (st_cache st) = (Inl e, c)"
      "rs_status resp = status_of e" "st' = st\<lparr>st_cache := c\<rparr>"
    | (no_user) a c e d where
      "get_authenticated_identity settings ext env (rq_authorization rq) (st_cache st) = (Inr a, c)"
      "get_local_principal_id settings env a (st_identity st) = (Inl e, d)"
      "rs_status resp = status_of e" "st' = st\<lparr>st_cache := c, st_identity := d\<rparr>"
    | (refused) a c u d where
      "get_authenticated_identity settings ext env (rq_authorization rq) (st_cache st) = (Inr a, c)"
      "get_local_principal_id settings env a (st_identity st) = (Inr u, d)"
      "rs_status resp = 403" "st' = st\<lparr>st_cache := c, st_identity := en_before_check env d\<rparr>"
    | (invalid) a c u d where
      "get_authenticated_identity settings ext env (rq_authorization rq) (st_cache st) = (Inr a, c)"
      "get_local_principal_id settings env a (st_identity st) = (Inr u, d)"
      "authorize env (rq_route rq) u (en_before_check env d) = Inr u"
      "rs_status resp = 422" "st' = st\<lparr>st_cache := c, st_identity := en_before_check env d\<rparr>"
    | (served) a c u d res where
      "get_authenticated_identity settings ext env (rq_authorization rq) (st_cache st) = (Inr a, c)"
      "get_local_principal_id settings env a (st_identity st) = (Inr u, d)"
      "authorize env (rq_route rq) u (en_before_check env d) = Inr u"
      "valid_request (rq_route rq)"
      "route_call settings ext env a u (rq_route rq)
        (st\<lparr>st_cache := c, st_identity := en_before_check env d\<rparr>) = (res, st')"
      "resp = response_of res"
proof -
  obtain ra c where au: "get_authenticated_identity settings ext env (rq_authorization rq) (st_cache st) = (ra, c)"
    by fastforce
  show thesis
  proof (cases ra)
    case (Inl e)
    with assms au show ?thesis by (intro unauthenticated [of e c]) (auto simp: handle_request_def)
  next
    case ra: (Inr a)
    obtain rl d where lo: "get_local_principal_id settings env a (st_identity st) = (rl, d)" by fastforce
    show ?thesis
    proof (cases rl)
      case (Inl e)
      with assms au ra lo show ?thesis by (intro no_user [of a c e d]) (auto simp: handle_request_def)
    next
      case rl: (Inr u)
      let ?st = "st\<lparr>st_cache := c, st_identity := en_before_check env d\<rparr>"
      have eq: "handle_request settings ext env rq st =
          (case authorize env (rq_route rq) u (en_before_check env d) of
             Inl e \<Rightarrow> (response_of (Inl e), ?st)
           | Inr actor \<Rightarrow>
               if \<not> valid_request (rq_route rq) then (response_of (Inl (HttpException 422 ''validation'')), ?st)
               else (case route_call settings ext env a actor (rq_route rq) ?st of
                   (res, st'') \<Rightarrow> (response_of res, st'')))"
        using au ra lo rl by (simp add: handle_request_def Let_def)
      show ?thesis
      proof (cases "authorize env (rq_route rq) u (en_before_check env d)")
        case (Inl e)
        with assms eq au ra lo rl authorize_Inl [OF Inl] show ?thesis by (intro refused [of a c u d]) auto
      next
        case (Inr v)
        then have v: "v = u" by (simp add: authorize_Inr)
        show ?thesis
        proof (cases "valid_request (rq_route rq)")
          case False
          with assms eq au ra lo rl Inr v show ?thesis by (intro invalid [of a c u d]) auto
        next
          case True
          obtain res st'' where "route_call settings ext env a u (rq_route rq) ?st = (res, st'')" by fastforce
          with True assms eq au ra lo rl Inr v show ?thesis by (intro served [of a c u d res]) auto
        qed
      qed
    qed
  qed
qed


section \<open>Requests as interleavings of the identity services\<close>

text \<open>The operation of the identity services that a route runs, if it writes at all.\<close>

fun iam_op :: "api_env \<Rightarrow> uuid \<Rightarrow> iam_route \<Rightarrow> identity_op option" where
  "iam_op env actor (GroupRoute (PostGroupMember g i)) =
    Some (AddGroupMember (en_fresh env) (en_now env) g i actor None)"
| "iam_op env actor (GroupRoute (DeleteGroupMember g i)) = Some (RemoveGroupMember (en_now env) g i actor)"
| "iam_op env actor (PermissionRoute (PostPrincipalPermission i p)) =
    Some (GrantPermission (en_fresh env) (en_now env) i p actor)"
| "iam_op env actor (PermissionRoute (DeletePrincipalPermission i p)) =
    Some (RevokePermission (en_now env) i p actor)"
| "iam_op env actor (PrincipalRoute (PatchActivate i)) = Some (ActivatePrincipal (en_now env) i)"
| "iam_op env actor (PrincipalRoute (PatchDeactivate i)) = Some (DeactivatePrincipal (en_now env) i)"
| "iam_op env actor (PrincipalRoute (PatchRetire i)) = Some (RetirePrincipal (en_now env) i)"
| "iam_op env actor (RoleRoute (PostUserRole u r)) = Some (AssignRole (en_fresh env) (en_now env) u r actor)"
| "iam_op env actor (RoleRoute (DeleteUserRole u r)) = Some (RevokeRole (en_now env) u r actor)"
| "iam_op env actor _ = None"

definition run_op :: "identity_op option \<Rightarrow> identity_db \<Rightarrow> identity_db \<Rightarrow> identity_db" where
  "run_op p s d = (case p of None \<Rightarrow> d | Some q \<Rightarrow> identity_exec q s d)"

lemma iam_call_op: "snd (iam_call env actor r s d) = run_op (iam_op env actor r) s d"
  by (cases "(env, actor, r)" rule: iam_op.cases) (simp_all add: run_op_def no_content_def transact_def)

lemma interleaved_roles: "interleaved d e \<Longrightarrow> id_roles e = id_roles d"
  by (induction rule: interleaved.induct) (simp_all add: identity_exec_roles)

lemma interleaved_trans: "interleaved e f \<Longrightarrow> interleaved d e \<Longrightarrow> interleaved d f"
  by (induction rule: interleaved.induct) (auto intro: interleaved.exec)

lemma interleaved_run_op: "interleaved d e \<Longrightarrow> interleaved d (run_op p d e)"
  by (cases p) (auto simp: run_op_def interleaved_roles intro: interleaved.exec)

text \<open>
  Between the steps of a request other transactions run, themselves interleavings of the
  services; none of them falls between the lookup and the insert of a login (that race is
  the subject of \<open>login_is_stable\<close>).
\<close>

definition others_interleave :: "api_env \<Rightarrow> bool" where
  "others_interleave env \<longleftrightarrow> (\<forall>d. interleaved d (en_before_provision env d)) \<and>
    (\<forall>d. interleaved d (en_before_check env d)) \<and> (\<forall>d. interleaved d (en_meanwhile env d)) \<and>
    en_before_insert env = id \<and> en_after_conflict env = id"

lemma login_step:
  assumes "others_interleave env"
  shows "interleaved d (snd (get_local_principal_id settings env a d))"
proof -
  have "snd (get_local_principal_id settings env a d) =
      run_op (Some (Login (se_jit_enabled settings) (en_user_id env) (en_identifier_id env) (en_login_now env) a))
        d (en_before_provision env d)"
    using assms by (simp add: run_op_def get_local_principal_id_def others_interleave_def resolve_def db_after_def
        split: sum.split)
  with assms show ?thesis by (simp add: others_interleave_def interleaved_run_op)
qed

lemma route_call_identity:
  assumes "route_call settings ext env a u r st = (res, st')"
  shows "st_identity st' = st_identity st \<or>
    (\<exists>p. st_identity st' = run_op p (st_identity st) (en_meanwhile env (st_identity st)))"
proof (cases r)
  case (IamRoute x)
  then have "st_identity st' = snd (iam_call env u x (st_identity st) (en_meanwhile env (st_identity st)))"
    using assms by (auto split: prod.splits)
  then show ?thesis by (auto simp: iam_call_op)
next
  case (IngestionRoute x)
  with assms show ?thesis by (cases x) (auto split: prod.splits sum.splits option.splits if_splits)
qed (use assms in \<open>auto split: prod.splits\<close>)

lemma request_is_interleaving:
  assumes "others_interleave env" and "handle_request settings ext env rq st = (resp, st')"
  shows "interleaved (st_identity st) (st_identity st')"
  using assms(2)
proof (cases rule: handle_request_cases)
  case (unauthenticated e c)
  then show ?thesis by (simp add: interleaved.start)
next
  case (no_user a c e d)
  with login_step [OF assms(1), of "st_identity st" settings a] show ?thesis by simp
next
  case (refused a c u d)
  with login_step [OF assms(1), of "st_identity st" settings a] assms(1) show ?thesis
    by (auto simp: others_interleave_def intro: interleaved_trans)
next
  case (invalid a c u d)
  with login_step [OF assms(1), of "st_identity st" settings a] assms(1) show ?thesis
    by (auto simp: others_interleave_def intro: interleaved_trans)
next
  case (served a c u d res)
  let ?e = "en_before_check env d"
  have e: "interleaved (st_identity st) ?e"
    using login_step [OF assms(1), of "st_identity st" settings a] served(2) assms(1)
    by (auto simp: others_interleave_def intro: interleaved_trans)
  have "interleaved ?e (run_op p ?e (en_meanwhile env ?e))" for p
    using assms(1) by (simp add: others_interleave_def interleaved_run_op)
  then have "interleaved (st_identity st) (run_op p ?e (en_meanwhile env ?e))" for p
    by (rule interleaved_trans [OF _ e])
  with e route_call_identity [OF served(5)] show ?thesis by auto
qed

text \<open>A sequence of requests, each with the world it runs in.\<close>

fun serve ::
  "api_settings \<Rightarrow> 's externals \<Rightarrow> (api_env \<times> api_request) list \<Rightarrow> 's api_state \<Rightarrow> 's api_state"
where
  "serve settings ext [] st = st"
| "serve settings ext ((env, rq) # rs) st = serve settings ext rs (snd (handle_request settings ext env rq st))"

lemma serve_interleaved:
  "(\<And>env rq. (env, rq) \<in> set rs \<Longrightarrow> others_interleave env) \<Longrightarrow>
    interleaved (st_identity st) (st_identity (serve settings ext rs st))"
proof (induction settings ext rs st rule: serve.induct)
  case (2 settings ext env rq rs st)
  obtain resp st' where "handle_request settings ext env rq st = (resp, st')" by fastforce
  with 2 request_is_interleaving [of env settings ext rq st resp st'] show ?case
    by (auto intro: interleaved_trans)
qed (simp add: interleaved.start)

text \<open>
  C38. No sequence of requests, by whomever and interleaved with other transactions in any way,
  locks the administrators out: the identity database moves only along interleavings of the
  identity services, and if the superadmin role is usable and held by a live user at the
  start, then at the end some user passes the check of every route whose permission was
  granted to the role.
\<close>

theorem requests_never_lock_out:
  assumes "well_typed (st_identity st)" and "superadmin_safe (st_identity st)"
    and "\<And>env rq. (env, rq) \<in> set rs \<Longrightarrow> others_interleave env"
  shows "interleaved (st_identity st) (st_identity (serve settings ext rs st)) \<and>
    (\<forall>r p now. find_superadmin_role_id (st_identity st) = Some r \<longrightarrow> granted (st_identity st) r p now \<longrightarrow>
      (\<exists>u. \<forall>env route. en_check_now env = now \<longrightarrow> route_permission route = Some p \<longrightarrow>
        authorize env route u (st_identity (serve settings ext rs st)) = Inr u))"
proof -
  have il: "interleaved (st_identity st) (st_identity (serve settings ext rs st))"
    using assms(3) by (rule serve_interleaved)
  have "\<exists>u. is_allowed now u p (st_identity (serve settings ext rs st))"
    if "find_superadmin_role_id (st_identity st) = Some r" and "granted (st_identity st) r p now" for r p now
    using superadmin_kept [OF assms(1,2) il that] .
  with il show ?thesis by (fastforce simp: authorize_Inr is_allowed_iff)
qed

section \<open>Examples\<close>

definition example_settings :: api_settings where
  "example_settings = \<lparr>se_disable_auth = False, se_issuer = lit ''i'', se_seed_username = lit ''admin'',
    se_seed_email = [], se_seed_display_name = [], se_jit_enabled = True, se_verifier = sample_verifier,
    se_upload = sample_upload_config\<rparr>"

definition example_externals :: "(pystr \<times> bytes) list externals" where
  "example_externals = \<lparr>ex_jwt = sample_library, ex_provider = sample_provider, ex_s3 = sample_client,
    ex_sha = (\<lambda>_. []), ex_configuration_hash = (\<lambda>_. []),
    ex_extraction = (\<lambda>_. \<lparr>ep_primary = (\<lambda>_. Inl OtherExtractorError), ep_fallback = None,
      ep_primary_method = OPENAI_OCR, ep_fallback_method = VLM\<rparr>)\<rparr>"

definition example_env :: api_env where
  "example_env = \<lparr>en_refresh = at_time 1, en_forced_refresh = at_time 2, en_user_id = 20,
    en_identifier_id = 21, en_login_now = 8, en_before_provision = id, en_before_insert = id,
    en_after_conflict = id, en_before_check = id, en_check_now = 9, en_meanwhile = id, en_fresh = 22,
    en_now = 9, en_commits = True, en_ingest = sample_ingest_env\<rparr>"

definition example_state :: "(pystr \<times> bytes) list api_state" where
  "example_state = \<lparr>st_cache = empty_cache, st_identity = example_db, st_knowledge = empty_knowledge,
    st_storage = [], st_ingestion = empty_ingestion\<rparr>"

text \<open>A request without a token, and one with the token of a user who has no permission.\<close>

definition anonymous_request :: api_request where
  "anonymous_request = \<lparr>rq_authorization = None, rq_route = DocumentRoute (DeleteDocumentById 1)\<rparr>"

definition retire_request :: api_request where
  "retire_request = \<lparr>rq_authorization = Some (lit ''Bearer t''), rq_route = IamRoute (PrincipalRoute (PatchRetire 2))\<rparr>"

lemma others_interleave_example: "others_interleave example_env"
  by (simp add: others_interleave_def example_env_def interleaved.start)


theorem requests_never_lock_out_witness:
  "\<exists>u. authorize example_env (IamRoute (RoleRoute (GetUserRoles 2))) u (st_identity (serve example_settings example_externals
    [(example_env, retire_request), (example_env, anonymous_request)] example_state)) = Inr u"
proof -
  have init: "well_typed (st_identity example_state)" "superadmin_safe (st_identity example_state)"
    "find_superadmin_role_id (st_identity example_state) = Some 1"
    "granted (st_identity example_state) 1 IAM_ROLES_MANAGE 9"
    by (simp_all only: example_state_def api_state.simps example_well_typed example_superadmin)
      (simp add: granted_def example_defs active_grant_def)
  have rs: "\<And>env rq. (env, rq) \<in> set [(example_env, retire_request), (example_env, anonymous_request)] \<Longrightarrow>
      others_interleave env"
    using others_interleave_example by auto
  have "en_check_now example_env = 9" "route_permission (IamRoute (RoleRoute (GetUserRoles 2))) = Some IAM_ROLES_MANAGE"
    by (simp_all add: example_env_def)
  moreover have "\<exists>u. \<forall>env route. en_check_now env = 9 \<longrightarrow> route_permission route = Some IAM_ROLES_MANAGE \<longrightarrow>
      authorize env route u (st_identity (serve example_settings example_externals
        [(example_env, retire_request), (example_env, anonymous_request)] example_state)) = Inr u"
    using requests_never_lock_out [of example_state
        "[(example_env, retire_request), (example_env, anonymous_request)]" example_settings example_externals,
        OF init(1,2)] rs init(3,4) by (metis (no_types, lifting))
  ultimately show ?thesis by blast
qed

end
