(* ===== verification/ApiErrors.thy ===== *)
theory ApiErrors
  imports ApiSafety
begin

text \<open>
  The identity routes never end in an internal error: every statement they run either keeps
  the constraints of its table or violates one whose violation the repository or the service
  translates, and every error of the services has a handler.
\<close>

section \<open>What interleavings leave in place\<close>






section \<open>Statements that keep their constraints\<close>









section \<open>The errors of the services\<close>





















end
