(* ===== verification/Spec2Isabelle.thy ===== *)
theory Spec2Isabelle
  imports EmbeddingWorker ApiErrors
begin

text \<open>
  AtlasRAG in Isabelle/HOL: a model of the program's own logic and the theorems that make it
  correct. Paths are relative to the repository; \<open>modules/\<close>, \<open>platform/\<close> and \<open>contracts/\<close>
  stand for the directories of that name under \<open>src/atlasrag/\<close>.

  \<^bold>\<open>The program.\<close> AtlasRAG stores documents with versions and artifacts (knowledge module),
  extracts their text and cuts it into chunks (ingestion module), stores one vector for each
  chunk (embedding module), and decides who may do so (identity module). Ingestion and
  embedding are done by workers, which receive jobs from a broker. The modules meet in the
  database: a request queues an ingestion item together with a row of the outbox table in one
  transaction; the publisher hands the outbox rows to the broker; a worker claims the item
  under a lease, loads the artifact, extracts, chunks and completes it; embedding runs go the
  same way, on the chunks of completed items.

  \<^bold>\<open>How code becomes definitions.\<close> A table is the list of its rows, a row a record with the
  columns of the model class, and the constraints of the class (CHECK, UNIQUE, partial unique
  indexes, the exclusion constraint, foreign keys) a list that every write checks in order. A
  repository method is a function on the tables. A service method is one transaction, of type
  \<open>db \<Rightarrow> error + result \<times> db\<close>: a raised exception is \<open>Inl\<close> and leaves the database as it was.
  Clock readings (the application's and the database's apart), fresh identifiers and what
  other processes commit between two transactions of an operation, or between a check and a
  write, are arguments, so that a theorem quantified over them speaks of every interleaving.
  Interleavings without restriction are lists of operations folded over the database
  (\<open>knowledge_exec\<close>, \<open>upload_exec\<close> and their like) or, where an operation also depends on an earlier
  snapshot, an inductive predicate on databases (\<open>interleaved\<close>).

  \<^bold>\<open>Theories, in the order of import.\<close>
  \<^item> \<open>Prelude\<close>: identifiers and time, errors as sums, SQL statements and constraints on lists,
    with the lemmas all tables share. \<open>PyText\<close>: the parts of Python's \<open>str\<close> and \<open>json\<close> used.
  \<^item> \<open>Lease\<close>: the abstract lease machine of a job (claim, heartbeat, release, fail, complete,
    reap) and the locale \<open>leased_job\<close>, the interface between it and a repository: one statement
    on a row simulates one step. Fencing of stale workers, the bound on attempts and the
    finality of terminal rows are proved there once. It is interpreted as \<open>items\<close> in Ingestion
    and as \<open>runs\<close> in EmbeddingRuns.
  \<^item> \<open>Outbox\<close>: \<open>platform/jobs/models/job_outbox.py\<close>, \<open>repositories/outbox.py\<close>, \<open>publisher.py\<close>.
    Lemmas: claims are exclusive, closed jobs final, the report of a pass adds up.
  \<^item> \<open>Chunking\<close>: \<open>modules/ingestion/chunking/\<close>. The structure-aware and the fixed-token chunker
    over a tokenizer. The locale \<open>emission\<close> is the interface between a draft invariant and both
    chunkers; it is interpreted for well-formed drafts (\<open>wf\<close>), for the token limit (\<open>limit\<close>)
    and for page numbers (\<open>pages\<close>). Lemmas: no word lost or invented, token limit, numbering and
    hashes, windows of the fixed chunker, totality, the configuration's round trip.
  \<^item> \<open>Ingestion\<close>: items, runs, chunks and \<open>services/ingestion_lifecycle.py\<close>. Lemmas: stale
    workers are fenced, chunks of completed items frozen, retries leave one open job.
  \<^item> \<open>Documents\<close>, \<open>Versions\<close>, \<open>Artifacts\<close>, \<open>Upload\<close>: \<open>modules/knowledge/\<close> and
    \<open>platform/storage/minio.py\<close>. Lemmas: access follows the grants, one effective version at
    every instant, published content is frozen, what was uploaded is what is loaded, a failed
    upload leaves no trace.
  \<^item> \<open>ExtractText\<close>, \<open>IngestionWorker\<close>: \<open>modules/ingestion/extraction/\<close> and \<open>workers/\<close>. Lemmas:
    when extraction succeeds, how each failure of an attempt is settled.
  \<^item> \<open>EmbeddingBatch\<close>, \<open>EmbeddingRuns\<close>, \<open>EmbeddingWorker\<close>: \<open>modules/embedding/\<close>. Lemmas: batches
    are maximal windows, answers are matched by index, the retry loop is bounded, completed
    runs have all their vectors, stuck runs are revived, a delivered run is completed.
  \<^item> \<open>Identity\<close>, \<open>IdentityGroups\<close>, \<open>IdentityServices\<close>, \<open>IdentitySafety\<close>: \<open>modules/identity/\<close> and
    \<open>scripts/bootstrap_superadmin.py\<close>. The locale \<open>kept_by_operations\<close> is the interface
    between the services and an invariant: each operation keeps it, whatever ran between its
    check and its write. It is interpreted for typing (\<open>types\<close>), the superadmin role
    (\<open>role_safe\<close>, \<open>superadmin\<close>) and, for serial executions, acyclic groups (\<open>acyclic_groups\<close>).
  \<^item> \<open>Pipeline\<close>: \<open>modules/ingestion/services/ingestion_pipeline.py\<close>, which composes the knowledge
    and ingestion services; its theorem follows a request from the upload to the chunks.
  \<^item> \<open>Keycloak\<close>: \<open>platform/auth/keycloak.py\<close>, the verification of bearer tokens with the cache of
    signing keys. Lemmas: an accepted token was checked with a current key, how often the
    provider is asked. What other coroutines do to the cache is bounded by \<open>rely\<close>, which a
    refresh itself meets (\<open>refresh_keeps_to_rely\<close>).
  \<^item> \<open>Api\<close>, \<open>ApiSafety\<close>, \<open>ApiErrors\<close>: \<open>apps/api/\<close>, that is the dependencies that authenticate
    and authorise, the validation of payloads, the exception handlers and every route with the
    service it calls. One datatype per router file; \<open>handle_request\<close> runs token, local user,
    permission, validation and route in the framework's order. Lemmas: a request of a caller
    who may not has no effect but a login, requests are interleavings of the identity services
    (so nobody can lock the administrators out), identity routes never end in an internal error.

  \<^bold>\<open>Recursion and bounds.\<close> No definition uses fuel. The recursive queries (\<open>union_loop\<close>) end
  because each round adds rows of a finite table; the window loop of the tokenizer
  (\<open>split_loop\<close>) advances towards the end of the token list; the retry loop of a batch counts attempts up to the
  configured number; the publisher and the recovery pass walk a list selected before.

  \<^bold>\<open>Parameters.\<close> The extractors, the embedding provider, the S3 client, the broker, the JWT
  library, the identity provider, SHA-256 and the hash of a configuration are arguments; what
  is assumed of one is a named hypothesis of the theorem (\<open>s3_laws\<close> for the S3 client) and is
  instantiated by a concrete function in the theorem's witness.

  \<^bold>\<open>Not modelled.\<close> Column lengths (a text too long for its column raises in the database; the
  lengths the request schemas check are modelled);
  rounding of floats (quotients and vector components are exact rationals; the overflow of a
  conversion is kept); row locks and isolation levels other than through the interference
  arguments; the text of messages. Of the program's parts: the adapters of the AI providers
  (\<open>platform/ai\<close>, \<open>platform/providers\<close>: calls of third-party clients), sessions and units of
  work (\<open>platform/database\<close> and the factories of \<open>apps/api/dependencies\<close>: plumbing of the ORM),
  reading the settings and start-up (\<open>bootstrap/\<close>), routing, parsing and JSON encoding of HTTP, the
  Celery application and runtime (\<open>platform/jobs/celery_app.py\<close>, \<open>worker_runtime.py\<close>,
  \<open>tasks/maintenance.py\<close>, \<open>apps/worker\<close>), the health probes, the migrations and the
  development scripts.
\<close>

end
